theory Spec2Isabelle
  imports Main
begin

section \<open>Values exchanged by the stage entry points\<close>

text \<open>
  The three entry points \<^verbatim>\<open>init-action.ts\<close>, \<^verbatim>\<open>autobuild-action.ts\<close> and
  \<^verbatim>\<open>analyze-action.ts\<close> are sequential \<^verbatim>\<open>async\<close> functions. Each is embedded as a
  function from an environment (the inputs, the process environment and the outcome of
  every collaborator call) to the list of observable events it produces. What a
  collaborator returns or throws is a parameter of the model.
\<close>

datatype jvalue = Str string | Num nat | Flag bool | Obj "(string \<times> jvalue) list"

text \<open>A sparse JSON object; a key is looked up with \<open>map_of\<close>, so the first binding wins.\<close>

type_synonym json_object = "(string \<times> jvalue) list"

text \<open>The object spread \<^verbatim>\<open>{...a, ...b}\<close>: the bindings of \<open>b\<close> override those of \<open>a\<close>.\<close>

definition spread :: "json_object \<Rightarrow> json_object \<Rightarrow> json_object" where
  "spread a b = b @ a"

text \<open>
  Thrown values. \<^verbatim>\<open>UserError\<close> is the class of \<^verbatim>\<open>util.ts\<close>, \<^verbatim>\<open>CodeQLAnalysisError\<close> the
  class of \<^verbatim>\<open>analyze.ts\<close> that carries a \<^verbatim>\<open>queriesStatusReport\<close>; every other thrown
  value is a plain \<^verbatim>\<open>Error\<close>. The stack string that accompanies a message is produced by
  the runtime and is left out.
\<close>

datatype error =
    Error string
  | UserError string
  | CodeQLAnalysisError json_object string

fun message :: "error \<Rightarrow> string" where
  "message (Error m) = m"
| "message (UserError m) = m"
| "message (CodeQLAnalysisError q m) = m"

text \<open>
  \<^verbatim>\<open>wrapError\<close> turns a thrown non-Error value into an Error; every thrown value of this
  model already is one.
\<close>

definition wrapError :: "error \<Rightarrow> error" where
  "wrapError e = e"

datatype action_status = Starting | Success | Failure | UserErrorStatus | Aborted

record status_report =
  action_name :: string
  status :: action_status
  cause :: "string option"
  stage_fields :: json_object

record config =
  languages :: "string list"
  codeQLCmd :: string
  trapCaches :: "(string \<times> string) list"

record upload_result =
  sarifID :: string
  statusReport :: json_object

record init_codeql_result =
  res_toolsDownloadDurationMs :: "nat option"
  res_toolsVersion :: string
  res_toolsSource :: string

text \<open>
  The collaborator calls whose invocation is recorded in the trace. \<^verbatim>\<open>checkDiskUsage\<close> and
  \<^verbatim>\<open>createStatusReportBase\<close> are called once for every report that is built; the two
  constructors carry the status of that report, so that the calls made for the starting report
  and those made for the completed report can fail independently of each other.
\<close>

datatype call =
    GetGitHubVersion
  | CheckGitHubVersionInRange
  | ParseRepositoryNwo
  | GetConfig
  | GetApiDetails
  | GetThreadsFlag
  | GetMemoryFlag
  | SafeWhich
  | RunAutobuild string
  | RunFinalize
  | GetAddSnippetsFlag
  | RunQueries
  | RunCleanup
  | UploadFromActions
  | UploadDatabases
  | GetCodeQL
  | UploadTrapCaches
  | WaitForProcessing
  | DetermineAutobuildLanguages
  | Chdir string
  | GetDefaultCliVersion
  | InitCodeQL
  | ValidateWorkflow
  | InitConfig
  | GetFeatureValue string
  | InstallPythonDeps
  | GetFileType
  | MkdirSync
  | WriteFileSync
  | ChmodSync
  | GetMemoryFlagValue
  | GetThreadsFlagValue
  | CodeQlVersionAbove string
  | RunInit
  | CheckForTimeout
  | InitializeEnvironment
  | CheckDiskUsage action_status
  | CreateStatusReportBase action_status
  | GetMlPoweredJsQueriesStatus
  | GetTotalCacheSize

datatype event =
    Report status_report
  | SetFailed string
  | Called call
  | Warning string
  | ExportVariable string string
  | SetOutput string jvalue
  | AddPath string

text \<open>
  The environment of one stage invocation. \<open>inputs\<close> is what \<^verbatim>\<open>getOptionalInput\<close> yields
  (\<open>None\<close> for \<^verbatim>\<open>undefined\<close>), \<open>process_env\<close> is \<^verbatim>\<open>process.env\<close>, \<open>sink\<close> is the answer of the
  telemetry sink to a report, \<open>fails\<close> tells which collaborator call throws, and the
  remaining fields are the values the collaborators return. \<open>existsSync\<close> and \<open>readdirSync\<close>
  are the two functions of \<^verbatim>\<open>fs\<close> that \<^verbatim>\<open>doesGoExtractionOutputExist\<close> calls: the first never
  throws, the second throws when the path cannot be listed. \<open>pathJoin\<close> and \<open>pathResolve\<close>
  are \<^verbatim>\<open>path.join\<close> and \<^verbatim>\<open>path.resolve\<close> applied to the list of their arguments.
\<close>

record world =
  inputs :: "string \<rightharpoonup> string"
  process_env :: "string \<rightharpoonup> string"
  isInTestMode :: bool
  isHostedRunner :: bool
  platform :: string
  sink :: "status_report \<Rightarrow> bool"
  fails :: "call \<Rightarrow> error option"
  getConfig :: "config option"
  dbIsFinalized :: "config \<Rightarrow> string \<Rightarrow> bool"
  getCodeQLDatabasePath :: "config \<Rightarrow> string \<Rightarrow> string"
  existsSync :: "string \<Rightarrow> bool"
  readdirSync :: "string \<Rightarrow> error + string list"
  pathJoin :: "string list \<Rightarrow> string"
  pathResolve :: "string list \<Rightarrow> string"
  safeWhich :: string
  runFinalize :: json_object
  runQueries :: json_object
  getUploadValue :: "string option \<Rightarrow> string"
  uploadFromActions :: upload_result
  uploadTrapCaches :: bool
  trapCacheUploadDuration :: nat
  getTotalCacheSize :: "(string \<times> string) list \<Rightarrow> nat"
  determineAutobuildLanguages :: "string list option"
  featureValue :: "string \<Rightarrow> bool"
  initConfig :: "bool \<Rightarrow> config"
  getFileType :: string
  codeQlVersionAbove :: "string \<Rightarrow> bool"
  runInit :: "(string \<times> string) list option"
  envVar :: "string \<Rightarrow> string"
  getMlPoweredJsQueriesStatus :: "config \<Rightarrow> string"
  uuidV4 :: string
  toolsFeatureFlagsValid_resolved :: "bool option"
  initCodeQL :: init_codeql_result
  memoryFlagValue :: string
  threadsFlagValue :: string
  temporaryDirectory :: string

section \<open>Sequential code with early return and exceptions\<close>

datatype ctl = Normal | Returned | Thrown error

text \<open>
  The variables a \<^verbatim>\<open>run\<close> function declares outside its \<^verbatim>\<open>try\<close> block are kept in
  the state, next to the trace, so that the \<^verbatim>\<open>catch\<close> block reads the values they had when
  the exception was thrown.
\<close>

record run_state =
  trace :: "event list"
  config :: "config option"

type_synonym 's step = "'s \<Rightarrow> 's \<times> ctl"

text \<open>Statements in sequence: the first one that returns or throws ends the block.\<close>

fun steps :: "'s step list \<Rightarrow> 's step" where
  "steps [] s = (s, Normal)"
| "steps (f # fs) s = (case f s of (s', Normal) \<Rightarrow> steps fs s' | r \<Rightarrow> r)"

definition emit :: "event \<Rightarrow> 's run_state_scheme step" where
  "emit ev s = (s\<lparr>trace := trace s @ [ev]\<rparr>, Normal)"

definition skip :: "'s step" where
  "skip s = (s, Normal)"

definition throw :: "error \<Rightarrow> 's step" where
  "throw e s = (s, Thrown e)"

text \<open>A collaborator call: it is recorded, then it returns or throws as the world says.\<close>

definition invoke :: "world \<Rightarrow> call \<Rightarrow> 's run_state_scheme step" where
  "invoke env c s =
     (s\<lparr>trace := trace s @ [Called c]\<rparr>,
      case fails env c of None \<Rightarrow> Normal | Some e \<Rightarrow> Thrown e)"

definition getOptionalInput :: "world \<Rightarrow> string \<Rightarrow> string option" where
  "getOptionalInput env name = inputs env name"

text \<open>
  \<^verbatim>\<open>getRequiredInput\<close> and \<^verbatim>\<open>getRequiredEnvParam\<close> throw when the value is missing. The
  text of their error is not used below.
\<close>

definition getRequiredInput :: "world \<Rightarrow> string \<Rightarrow> error + string" where
  "getRequiredInput env name =
     (case inputs env name of
        None \<Rightarrow> Inl (Error (''Input required and not supplied: '' @ name))
      | Some v \<Rightarrow> Inr v)"

definition getRequiredEnvParam :: "world \<Rightarrow> string \<Rightarrow> error + string" where
  "getRequiredEnvParam env name =
     (case process_env env name of
        None \<Rightarrow> Inl (Error (name @ '' environment variable must be set''))
      | Some v \<Rightarrow> Inr v)"

definition require :: "error + 'a \<Rightarrow> 's step" where
  "require r s = (case r of Inl e \<Rightarrow> (s, Thrown e) | Inr v \<Rightarrow> (s, Normal))"

text \<open>The same, with the value bound for the statements that follow.\<close>

definition with_required :: "error + 'a \<Rightarrow> ('a \<Rightarrow> 's step) \<Rightarrow> 's step" where
  "with_required r body s = (case r of Inl e \<Rightarrow> (s, Thrown e) | Inr v \<Rightarrow> body v s)"

text \<open>A statement that reads a variable of the enclosing function.\<close>

definition reading :: "('s \<Rightarrow> 'a) \<Rightarrow> ('a \<Rightarrow> 's step) \<Rightarrow> 's step" where
  "reading var body s = body (var s) s"

text \<open>An assignment to such a variable.\<close>

definition assign :: "('s \<Rightarrow> 's) \<Rightarrow> 's step" where
  "assign store s = (store s, Normal)"

text \<open>A nested \<^verbatim>\<open>try { body } catch (e) { handler }\<close>.\<close>

definition catching :: "'s step \<Rightarrow> (error \<Rightarrow> 's step) \<Rightarrow> 's step" where
  "catching body handler s = (case body s of (s', Thrown e) \<Rightarrow> handler e s' | r \<Rightarrow> r)"

text \<open>A string is truthy when it is defined and not empty.\<close>

definition truthy :: "string option \<Rightarrow> bool" where
  "truthy v = (case v of None \<Rightarrow> False | Some x \<Rightarrow> x \<noteq> [])"

text \<open>The events a step adds to the trace of the state it starts from.\<close>

definition emitted :: "'s run_state_scheme step \<Rightarrow> 's run_state_scheme \<Rightarrow> event list" where
  "emitted f s = drop (length (trace s)) (trace (fst (f s)))"

text \<open>
  The shape shared by the three \<^verbatim>\<open>run\<close> functions:
  \<^verbatim>\<open>try { body } catch (e) { handler; return; } rest\<close>. A \<^verbatim>\<open>return\<close> inside the body leaves
  the function, an exception of the body is handled and the function returns, an exception of
  the handler leaves the function as an exception.
\<close>

definition try_catch :: "'s step \<Rightarrow> (error \<Rightarrow> 's step) \<Rightarrow> 's step \<Rightarrow> 's step" where
  "try_catch body handler rest s =
     (case body s of
        (s', Normal) \<Rightarrow> rest s'
      | (s', Returned) \<Rightarrow> (s', Returned)
      | (s', Thrown e) \<Rightarrow>
          (case handler e s' of (s'', Normal) \<Rightarrow> (s'', Returned) | r \<Rightarrow> r))"

text \<open>\<^verbatim>\<open>Array.prototype.join\<close> on a list of strings.\<close>

fun join :: "string \<Rightarrow> string list \<Rightarrow> string" where
  "join sep [] = []"
| "join sep [x] = x"
| "join sep (x # y # ys) = x @ sep @ join sep (y # ys)"

section \<open>Status reports\<close>

text \<open>
  Modelled from the spec: \<^verbatim>\<open>status-report.ts\<close> (\<^verbatim>\<open>getActionsStatus\<close>,
  \<^verbatim>\<open>createStatusReportBase\<close>, \<^verbatim>\<open>sendStatusReport\<close>) is not among the sources. Section 3
  of the specification lists the outcomes and says that a recorded per-language failure
  surfaces as an overall \<^verbatim>\<open>failure\<close>; section 4.3 makes \<^verbatim>\<open>user-error\<close> the outcome of the
  distinguished error subtype.
\<close>

definition getActionsStatus :: "error option \<Rightarrow> string option \<Rightarrow> action_status" where
  "getActionsStatus err otherFailureCause =
     (if err \<noteq> None \<or> otherFailureCause \<noteq> None
      then (case err of Some (UserError m) \<Rightarrow> UserErrorStatus | _ \<Rightarrow> Failure)
      else Success)"

text \<open>
  Modelled from the spec: section 4.4 gives \<^verbatim>\<open>buildReport(stage, status, startedAt,
  diskUsage, cause?, stack?) -> ReportBase\<close>. This is the value the builder returns when it
  returns. The start time, the disk usage and the identifiers of the job are values that no
  control flow reads; they are left out of the report. The call itself, and the awaited
  \<^verbatim>\<open>checkDiskUsage\<close> that computes its fourth argument, are collaborator calls of the entry
  points: each of them is recorded and may throw (\<open>CheckDiskUsage\<close>,
  \<open>CreateStatusReportBase\<close>).
\<close>

definition createStatusReportBase ::
    "string \<Rightarrow> action_status \<Rightarrow> string option \<Rightarrow> status_report" where
  "createStatusReportBase actionName st c =
     \<lparr> action_name = actionName, status = st, cause = c, stage_fields = [] \<rparr>"

text \<open>
  Modelled from the spec: section 4.4 gives \<^verbatim>\<open>send(report) -> delivered: boolean\<close> and says
  that a delivery failure is caught and logged, never re-thrown. The call is recorded in
  the trace and returns the answer of the sink.
\<close>

definition sendStatusReport ::
    "world \<Rightarrow> status_report \<Rightarrow> 's run_state_scheme \<Rightarrow> 's run_state_scheme \<times> bool" where
  "sendStatusReport env r s = (s\<lparr>trace := trace s @ [Report r]\<rparr>, sink env r)"

text \<open>The statement \<^verbatim>\<open>await sendStatusReport(report);\<close>, which discards the answer.\<close>

definition send :: "world \<Rightarrow> status_report \<Rightarrow> 's run_state_scheme step" where
  "send env r s = (fst (sendStatusReport env r s), Normal)"

text \<open>
  The opening statement of every \<^verbatim>\<open>try\<close> block:
  \<^verbatim>\<open>if (!(await sendStatusReport(await createStatusReportBase(name, "starting", startedAt,
  await checkDiskUsage(logger))))) return;\<close>. The disk usage is checked first, then the report
  is built, then it is sent.
\<close>

definition report_starting :: "world \<Rightarrow> string \<Rightarrow> 's run_state_scheme step" where
  "report_starting env actionName = steps
     [ invoke env (CheckDiskUsage Starting),
       invoke env (CreateStatusReportBase Starting),
       (\<lambda>s. case sendStatusReport env (createStatusReportBase actionName Starting None) s of
          (s', delivered) \<Rightarrow> if \<not> delivered then (s', Returned) else (s', Normal)) ]"

definition str_field :: "json_object \<Rightarrow> string \<Rightarrow> string option" where
  "str_field obj k = (case map_of obj k of Some (Str v) \<Rightarrow> Some v | _ \<Rightarrow> None)"

section \<open>Blocks shared by Autobuild and Finalize+Query\<close>

text \<open>A call whose result is stored in a variable.\<close>

definition invoke_then ::
    "world \<Rightarrow> call \<Rightarrow> ('s run_state_scheme \<Rightarrow> 's run_state_scheme) \<Rightarrow> 's run_state_scheme step"
    where
  "invoke_then env c store s =
     (case invoke env c s of (s', Normal) \<Rightarrow> (store s', Normal) | r \<Rightarrow> r)"

definition config_missing_message :: string where
  "config_missing_message =
     ''Config file could not be found at expected location. Has the 'init' action been called?''"

definition load_config :: "world \<Rightarrow> 's run_state_scheme step" where
  "load_config env = invoke_then env GetConfig (\<lambda>s. s\<lparr>config := getConfig env\<rparr>)"

text \<open>
  \<^verbatim>\<open>if (config === undefined) { throw new Error(...) }\<close>; the statements that follow see a
  defined Config.
\<close>

definition require_config :: "(config \<Rightarrow> 's run_state_scheme step) \<Rightarrow> 's run_state_scheme step" where
  "require_config body =
     reading config (\<lambda>c. case c of
        None \<Rightarrow> throw (Error config_missing_message)
      | Some cfg \<Rightarrow> body cfg)"

section \<open>Autobuild (autobuild-action.ts)\<close>

record autobuild_state = run_state +
  currentLanguage :: "string option"
  langs :: "string list option"

text \<open>The function \<^verbatim>\<open>sendCompletedStatusReport\<close> of autobuild-action.ts (lines 33 to 57).\<close>

definition autobuild_sendCompletedStatusReport ::
    "world \<Rightarrow> string list \<Rightarrow> string option \<Rightarrow> error option \<Rightarrow> autobuild_state step"
    where
  "autobuild_sendCompletedStatusReport env allLanguages failingLanguage cause' =
     (let st = getActionsStatus cause' failingLanguage;
          statusReportBase = createStatusReportBase ''autobuild'' st (map_option message cause');
          statusReport = statusReportBase\<lparr> stage_fields :=
            spread (stage_fields statusReportBase)
              ((''autobuild_languages'', Str (join '','' allLanguages)) #
               (case failingLanguage of None \<Rightarrow> []
                | Some l \<Rightarrow> [(''autobuild_failure'', Str l)])) \<rparr>
      in steps
        [ invoke env InitializeEnvironment,
          invoke env (CheckDiskUsage st),
          invoke env (CreateStatusReportBase st),
          send env statusReport ])"

fun autobuild_loop :: "world \<Rightarrow> config \<Rightarrow> string list \<Rightarrow> autobuild_state step" where
  "autobuild_loop env cfg [] s = (s, Normal)"
| "autobuild_loop env cfg (language # rest) s =
     (case invoke env (RunAutobuild language) (s\<lparr>currentLanguage := Some language\<rparr>) of
        (s', Normal) \<Rightarrow> autobuild_loop env cfg rest s'
      | r \<Rightarrow> r)"

text \<open>The statements of the \<^verbatim>\<open>try\<close> block that follow the starting report, lines 78 to 101.\<close>

definition autobuild_body :: "world \<Rightarrow> autobuild_state step list" where
  "autobuild_body env =
     [ invoke env GetGitHubVersion,
       invoke env CheckGitHubVersionInRange,
       load_config env,
       require_config (\<lambda>cfg. steps
         [ invoke_then env DetermineAutobuildLanguages
             (\<lambda>s. s\<lparr>langs := determineAutobuildLanguages env\<rparr>),
           reading langs (\<lambda>languages'. case languages' of
              None \<Rightarrow> skip
            | Some ls \<Rightarrow> steps
                [ (case getOptionalInput env ''working-directory'' of
                     None \<Rightarrow> skip
                   | Some workingDirectory \<Rightarrow>
                       if workingDirectory \<noteq> [] then invoke env (Chdir workingDirectory)
                       else skip),
                  autobuild_loop env cfg ls ]) ]) ]"

definition autobuild_try :: "world \<Rightarrow> autobuild_state step" where
  "autobuild_try env = steps (report_starting env ''autobuild'' # autobuild_body env)"

definition autobuild_initial :: autobuild_state where
  "autobuild_initial = \<lparr> trace = [], config = None, currentLanguage = None, langs = None \<rparr>"

definition autobuild_failed_prefix :: string where
  "autobuild_failed_prefix = ''We were unable to automatically build your code. Please replace the call to the autobuild action with your custom build steps. ''"

text \<open>The \<^verbatim>\<open>catch\<close> block of \<^verbatim>\<open>run\<close>, lines 102 to 115.\<close>

definition autobuild_catch :: "world \<Rightarrow> error \<Rightarrow> autobuild_state step" where
  "autobuild_catch env unwrappedError =
     (let err = wrapError unwrappedError in steps
        [ emit (SetFailed (autobuild_failed_prefix @ message err)),
          (\<lambda>s. autobuild_sendCompletedStatusReport env
                  (case langs s of None \<Rightarrow> [] | Some ls \<Rightarrow> ls) (currentLanguage s) (Some err) s) ])"

text \<open>The statement after the \<^verbatim>\<open>try\<close> statement, line 117.\<close>

definition autobuild_completed :: "world \<Rightarrow> autobuild_state step" where
  "autobuild_completed env s =
     autobuild_sendCompletedStatusReport env
       (case langs s of None \<Rightarrow> [] | Some ls \<Rightarrow> ls) None None s"

definition autobuild_run :: "world \<Rightarrow> autobuild_state step" where
  "autobuild_run env =
     try_catch (autobuild_try env) (autobuild_catch env) (autobuild_completed env)"

text \<open>
  \<^verbatim>\<open>runWrapper\<close>, lines 120 to 126: an exception that leaves \<^verbatim>\<open>run\<close> is reported with
  \<^verbatim>\<open>core.setFailed\<close>.
\<close>

definition autobuild_runWrapper :: "world \<Rightarrow> event list" where
  "autobuild_runWrapper env =
     (case autobuild_run env autobuild_initial of
        (s, Thrown err) \<Rightarrow>
          trace s @ [SetFailed (''autobuild action failed. '' @ message (wrapError err))]
      | (s, r) \<Rightarrow> trace s)"

section \<open>Init: whether TRAP caching is enabled\<close>

definition getTrapCachingEnabled :: "world \<Rightarrow> bool" where
  "getTrapCachingEnabled env =
     (let trapCaching = getOptionalInput env ''trap-caching'' in
      if trapCaching \<noteq> None then trapCaching = Some ''true''
      else if \<not> isHostedRunner env then False
      else True)"

section \<open>Finalize+Query: the legacy Go workflow\<close>

definition endsWith :: "string \<Rightarrow> string \<Rightarrow> bool" where
  "endsWith fileName ext =
     (length ext \<le> length fileName \<and> drop (length fileName - length ext) fileName = ext)"

definition trap_extensions :: "string list" where
  "trap_extensions =
     [''.trap'', ''.trap.gz'', ''.trap.br'', ''.trap.tar.gz'', ''.trap.tar.br'', ''.trap.tar'']"

text \<open>
  \<^verbatim>\<open>doesGoExtractionOutputExist\<close>, lines 111 to 129. \<^verbatim>\<open>fs.readdirSync\<close> is called only when
  \<^verbatim>\<open>fs.existsSync\<close> has answered true; when it throws, so does the function.
\<close>

definition doesGoExtractionOutputExist :: "world \<Rightarrow> config \<Rightarrow> error + bool" where
  "doesGoExtractionOutputExist env cfg =
     (let golangDbDirectory = getCodeQLDatabasePath env cfg ''go'';
          trapDirectory = pathJoin env [golangDbDirectory, ''trap'', ''go'']
      in if existsSync env trapDirectory then
           (case readdirSync env trapDirectory of
              Inl e \<Rightarrow> Inl e
            | Inr fileNames \<Rightarrow>
                Inr (list_ex (\<lambda>fileName. list_ex (\<lambda>ext. endsWith fileName ext) trap_extensions)
                       fileNames))
         else Inr False)"

text \<open>
  \<^verbatim>\<open>EnvVar.DID_AUTOBUILD_GOLANG\<close>; the comment of lines 136 to 138 gives the name of the
  variable.
\<close>

definition DID_AUTOBUILD_GOLANG :: string where
  "DID_AUTOBUILD_GOLANG = ''CODEQL_ACTION_DID_AUTOBUILD_GOLANG''"

definition go_tracing_warning :: string where
  "go_tracing_warning = ''The CODEQL_EXTRACTOR_GO_BUILD_TRACING environment variable has no effect on workflows with manual build steps, so we recommend that you remove it from your workflow.''"

text \<open>\<^verbatim>\<open>runAutobuildIfLegacyGoWorkflow\<close>, lines 144 to 176.\<close>

definition runAutobuildIfLegacyGoWorkflow :: "world \<Rightarrow> config \<Rightarrow> 's run_state_scheme step" where
  "runAutobuildIfLegacyGoWorkflow env cfg =
     (if ''go'' \<notin> set (languages cfg) then skip
      else if process_env env DID_AUTOBUILD_GOLANG = Some ''true'' then skip
      else if dbIsFinalized env cfg ''go'' then skip
      else with_required (doesGoExtractionOutputExist env cfg) (\<lambda>outputExists.
        if outputExists then
          (if process_env env ''CODEQL_EXTRACTOR_GO_BUILD_TRACING'' \<noteq> None
           then emit (Warning go_tracing_warning) else skip)
        else invoke env (RunAutobuild ''go'')))"

section \<open>Finalize+Query (analyze-action.ts)\<close>

record analyze_state = run_state +
  uploadResult :: "upload_result option"
  runStats :: "json_object option"
  trapCacheUploadTime :: "nat option"
  dbCreationTimings :: "json_object option"
  didUploadTrapCaches :: bool

text \<open>
  The function \<^verbatim>\<open>sendStatusReport\<close> of analyze-action.ts (lines 56 to 97). The disk usage is
  checked and the base of the report is built first; \<^verbatim>\<open>getMlPoweredJsQueriesStatus\<close> is called
  when the Config is defined, \<^verbatim>\<open>getTotalCacheSize\<close> when moreover the TRAP caches were
  uploaded. Each of these calls may throw, and then no report is sent.
\<close>

definition analyze_sendStatusReport ::
    "world \<Rightarrow> config option \<Rightarrow> json_object option \<Rightarrow> error option \<Rightarrow> nat option \<Rightarrow>
     json_object option \<Rightarrow> bool \<Rightarrow> analyze_state step" where
  "analyze_sendStatusReport env cfg stats err trapTime dbTimings didUpload =
     (let st = getActionsStatus err
                 (case stats of None \<Rightarrow> None
                  | Some q \<Rightarrow> str_field q ''analyze_failure_language'');
          statusReportBase = createStatusReportBase ''finish'' st (map_option message err);
          report = statusReportBase\<lparr> stage_fields :=
            spread (spread (spread (stage_fields statusReportBase)
              (case cfg of
                 Some c \<Rightarrow>
                   [(''ml_powered_javascript_queries'', Str (getMlPoweredJsQueriesStatus env c))]
               | None \<Rightarrow> []))
              (case stats of Some q \<Rightarrow> q | None \<Rightarrow> []))
              (case dbTimings of Some t \<Rightarrow> t | None \<Rightarrow> []) \<rparr>
      in steps
        [ invoke env (CheckDiskUsage st),
          invoke env (CreateStatusReportBase st),
          (case cfg of Some c \<Rightarrow> invoke env GetMlPoweredJsQueriesStatus | None \<Rightarrow> skip),
          (case cfg of
             Some c \<Rightarrow>
               if didUpload then steps
                 [ invoke env GetTotalCacheSize,
                   send env (report\<lparr> stage_fields :=
                     spread (stage_fields report)
                       [(''trap_cache_upload_duration_ms'',
                           Num (case trapTime of None \<Rightarrow> 0 | Some t \<Rightarrow> t)),
                        (''trap_cache_upload_size_bytes'',
                           Num (getTotalCacheSize env (trapCaches c)))] \<rparr>) ]
               else send env report
           | None \<Rightarrow> send env report) ])"

definition hasBadExpectErrorInput :: "world \<Rightarrow> bool" where
  "hasBadExpectErrorInput env =
     (getOptionalInput env ''expect-error'' \<noteq> Some ''false'' \<and> \<not> isInTestMode env)"

definition expect_error_message :: string where
  "expect_error_message = ''`expect-error` input parameter is for internal use only. It should only be set by codeql-action or a fork.''"

definition go_wrapper_warning :: string where
  "go_wrapper_warning = ''Unexpected result for `which go`: please ensure that the correct version of Go is installed before the `codeql-action/init` Action is used.''"

text \<open>Lines 240 to 251: the Go wrapper script is checked when its location was recorded.\<close>

definition check_go_wrapper :: "world \<Rightarrow> 's run_state_scheme step" where
  "check_go_wrapper env =
     (case process_env env (envVar env ''GO_BINARY_LOCATION'') of
        None \<Rightarrow> skip
      | Some goWrapperPath \<Rightarrow> steps
          [ invoke env SafeWhich,
            (if goWrapperPath \<noteq> safeWhich env then emit (Warning go_wrapper_warning)
             else skip) ])"

text \<open>Lines 264 to 275.\<close>

definition run_queries :: "world \<Rightarrow> analyze_state step" where
  "run_queries env =
     with_required (getRequiredInput env ''skip-queries'') (\<lambda>skipQueries.
       if skipQueries \<noteq> ''true'' then steps
         [ require (getRequiredInput env ''add-snippets''),
           invoke env GetAddSnippetsFlag,
           invoke_then env RunQueries (\<lambda>s. s\<lparr>runStats := Some (runQueries env)\<rparr>) ]
       else skip)"

text \<open>Lines 285 to 290.\<close>

definition set_outputs :: "world \<Rightarrow> config \<Rightarrow> string \<Rightarrow> 's run_state_scheme step" where
  "set_outputs env cfg outputDir = steps
     [ emit (SetOutput ''db-locations''
         (Obj (map (\<lambda>language. (language, Str (getCodeQLDatabasePath env cfg language)))
            (languages cfg)))),
       emit (SetOutput ''sarif-output'' (Str (pathResolve env [outputDir]))) ]"

text \<open>Lines 291 to 303.\<close>

definition upload_results :: "world \<Rightarrow> analyze_state step" where
  "upload_results env =
     reading runStats (\<lambda>stats.
       if stats \<noteq> None \<and> getUploadValue env (getOptionalInput env ''upload'') = ''always''
       then steps
         [ require (getRequiredInput env ''checkout_path''),
           invoke_then env UploadFromActions
             (\<lambda>s. s\<lparr>uploadResult := Some (uploadFromActions env)\<rparr>),
           emit (SetOutput ''sarif-id'' (Str (sarifID (uploadFromActions env)))) ]
       else skip)"

text \<open>Lines 308 to 312.\<close>

definition upload_trap_caches :: "world \<Rightarrow> analyze_state step" where
  "upload_trap_caches env = steps
     [ invoke env GetCodeQL,
       invoke_then env UploadTrapCaches (\<lambda>s. s\<lparr>didUploadTrapCaches := uploadTrapCaches env\<rparr>),
       assign (\<lambda>s. s\<lparr>trapCacheUploadTime := Some (trapCacheUploadDuration env)\<rparr>) ]"

text \<open>Lines 314 to 326.\<close>

definition wait_for_processing :: "world \<Rightarrow> analyze_state step" where
  "wait_for_processing env =
     (if isInTestMode env then skip
      else reading uploadResult (\<lambda>up.
        if up \<noteq> None then
          with_required (getRequiredInput env ''wait-for-processing'') (\<lambda>w.
            if w = ''true'' then steps
              [ require (getRequiredEnvParam env ''GITHUB_REPOSITORY''),
                invoke env ParseRepositoryNwo,
                invoke env WaitForProcessing ]
            else skip)
        else skip))"

definition expect_error_not_thrown_message :: string where
  "expect_error_not_thrown_message = ''expect-error input was set to true but no error was thrown.''"

text \<open>Lines 217 to 275: what the stage does up to and including the query run.\<close>

definition analyze_build :: "world \<Rightarrow> config \<Rightarrow> analyze_state step list" where
  "analyze_build env cfg =
     [ invoke env GetThreadsFlag,
       require (getRequiredEnvParam env ''GITHUB_REPOSITORY''),
       invoke env ParseRepositoryNwo,
       invoke env GetGitHubVersion,
       invoke env GetMemoryFlag,
       check_go_wrapper env,
       runAutobuildIfLegacyGoWorkflow env cfg,
       invoke_then env RunFinalize (\<lambda>s. s\<lparr>dbCreationTimings := Some (runFinalize env)\<rparr>),
       run_queries env ]"

text \<open>Lines 277 to 326: what the stage does with the results of the query run.\<close>

definition analyze_publish :: "world \<Rightarrow> config \<Rightarrow> string \<Rightarrow> analyze_state step list" where
  "analyze_publish env cfg outputDir =
     [ (if getOptionalInput env ''cleanup-level'' \<noteq> Some ''none''
        then invoke env RunCleanup else skip),
       set_outputs env cfg outputDir,
       upload_results env,
       invoke env UploadDatabases,
       upload_trap_caches env,
       wait_for_processing env ]"

text \<open>Lines 327 to 333: the last two statements of the \<^verbatim>\<open>try\<close> block.\<close>

definition analyze_epilogue :: "world \<Rightarrow> analyze_state step list" where
  "analyze_epilogue env =
     [ (if getOptionalInput env ''expect-error'' = Some ''true''
        then emit (SetFailed expect_error_not_thrown_message) else skip),
       emit (ExportVariable (envVar env ''ANALYZE_DID_COMPLETE_SUCCESSFULLY'') ''true'') ]"

text \<open>The statements of the \<^verbatim>\<open>try\<close> block that follow the starting report, lines 202 to 333.\<close>

definition analyze_body :: "world \<Rightarrow> analyze_state step list" where
  "analyze_body env =
     [ load_config env,
       require_config (\<lambda>cfg. steps
         [ (if hasBadExpectErrorInput env then throw (UserError expect_error_message) else skip),
           invoke env GetApiDetails,
           with_required (getRequiredInput env ''output'') (\<lambda>outputDir.
             steps (analyze_build env cfg @ analyze_publish env cfg outputDir @
                    analyze_epilogue env)) ]) ]"

definition analyze_try :: "world \<Rightarrow> analyze_state step" where
  "analyze_try env = steps (report_starting env ''finish'' # analyze_body env)"

definition analyze_initial :: analyze_state where
  "analyze_initial = \<lparr> trace = [], config = None, uploadResult = None, runStats = None,
     trapCacheUploadTime = None, dbCreationTimings = None, didUploadTrapCaches = False \<rparr>"

text \<open>The \<^verbatim>\<open>catch\<close> block of \<^verbatim>\<open>run\<close>, lines 334 to 369.\<close>

definition analyze_catch :: "world \<Rightarrow> error \<Rightarrow> analyze_state step" where
  "analyze_catch env unwrappedError =
     (let err = wrapError unwrappedError in steps
        [ (if getOptionalInput env ''expect-error'' \<noteq> Some ''true'' \<or>
              hasBadExpectErrorInput env
           then emit (SetFailed (message err)) else skip),
          (\<lambda>s. case err of
             CodeQLAnalysisError queriesStatusReport m \<Rightarrow>
               analyze_sendStatusReport env (config s) (Some queriesStatusReport) (Some err)
                 (trapCacheUploadTime s) (dbCreationTimings s) (didUploadTrapCaches s) s
           | _ \<Rightarrow>
               analyze_sendStatusReport env (config s) None (Some err)
                 (trapCacheUploadTime s) (dbCreationTimings s) (didUploadTrapCaches s) s) ])"

text \<open>The statements after the \<^verbatim>\<open>try\<close> statement, lines 371 to 407.\<close>

definition analyze_completed :: "world \<Rightarrow> analyze_state step" where
  "analyze_completed env s =
     (case runStats s of
        Some stats \<Rightarrow>
          (case uploadResult s of
             Some up \<Rightarrow>
               analyze_sendStatusReport env (config s) (Some (spread stats (statusReport up))) None
                 (trapCacheUploadTime s) (dbCreationTimings s) (didUploadTrapCaches s) s
           | None \<Rightarrow>
               analyze_sendStatusReport env (config s) (Some stats) None
                 (trapCacheUploadTime s) (dbCreationTimings s) (didUploadTrapCaches s) s)
      | None \<Rightarrow>
          analyze_sendStatusReport env (config s) None None
            (trapCacheUploadTime s) (dbCreationTimings s) (didUploadTrapCaches s) s)"

text \<open>
  \<^verbatim>\<open>run\<close>, lines 178 to 408. \<^verbatim>\<open>util.initializeEnvironment\<close> is called before the \<^verbatim>\<open>try\<close>
  block, so an exception of it leaves \<^verbatim>\<open>run\<close>.
\<close>

definition analyze_run :: "world \<Rightarrow> analyze_state step" where
  "analyze_run env = steps
     [ invoke env InitializeEnvironment,
       try_catch (analyze_try env) (analyze_catch env) (analyze_completed env) ]"

text \<open>
  \<^verbatim>\<open>runWrapper\<close>, lines 412 to 419: an exception that leaves \<^verbatim>\<open>run\<close> is reported with
  \<^verbatim>\<open>core.setFailed\<close>; then the timeout check is made.
\<close>

definition analyze_runWrapper :: "world \<Rightarrow> event list" where
  "analyze_runWrapper env =
     (case analyze_run env analyze_initial of
        (s, Thrown err) \<Rightarrow>
          trace s @ [SetFailed (''analyze action failed: '' @ message (wrapError err))]
      | (s, r) \<Rightarrow> trace s)
     @ [Called CheckForTimeout]"

section \<open>Init (init-action.ts)\<close>

record init_state = run_state +
  toolsDownloadDurationMs :: "nat option"
  toolsFeatureFlagsValid :: "bool option"
  toolsSource :: "string option"
  toolsVersion :: "string option"

text \<open>
  The function \<^verbatim>\<open>sendCompletedStatusReport\<close> of init-action.ts (lines 96 to 183). Of the
  fields computed from a defined Config, the report keeps the languages and the TRAP cache
  fields; the path and query lists are joins of Config values, computed without any call.
  \<^verbatim>\<open>getMlPoweredJsQueriesStatus\<close> and \<^verbatim>\<open>getTotalCacheSize\<close> are called, in this order, when
  the Config is defined.
\<close>

definition init_sendCompletedStatusReport ::
    "world \<Rightarrow> config option \<Rightarrow> nat option \<Rightarrow> bool option \<Rightarrow> string option \<Rightarrow> string option \<Rightarrow>
     error option \<Rightarrow> init_state step" where
  "init_sendCompletedStatusReport env cfg downloadMs flagsValid src ver err =
     (let st = getActionsStatus err None;
          statusReportBase = createStatusReportBase ''init'' st (map_option message err);
          initStatusReport = spread (stage_fields statusReportBase)
            ([(''tools_input'',
                Str (case getOptionalInput env ''tools'' of None \<Rightarrow> [] | Some t \<Rightarrow> t))] @
             (case ver of None \<Rightarrow> [] | Some v \<Rightarrow> [(''tools_resolved_version'', Str v)]) @
             [(''tools_source'', Str (if truthy src then the src else ''UNKNOWN'')),
              (''workflow_languages'',
                Str (case getOptionalInput env ''languages'' of None \<Rightarrow> [] | Some l \<Rightarrow> l))]);
          initToolsDownloadFields =
            (case downloadMs of None \<Rightarrow> []
             | Some d \<Rightarrow> [(''tools_download_duration_ms'', Num d)]) @
            (case flagsValid of None \<Rightarrow> []
             | Some v \<Rightarrow> [(''tools_feature_flags_valid'', Flag v)])
      in steps
        [ invoke env (CheckDiskUsage st),
          invoke env (CreateStatusReportBase st),
          (case cfg of
             Some c \<Rightarrow> steps
               [ invoke env GetMlPoweredJsQueriesStatus,
                 invoke env GetTotalCacheSize,
                 send env (statusReportBase\<lparr> stage_fields :=
                   spread (spread initStatusReport
                     [(''languages'', Str (join '','' (languages c))),
                      (''ml_powered_javascript_queries'',
                         Str (getMlPoweredJsQueriesStatus env c)),
                      (''trap_cache_languages'', Str (join '','' (map fst (trapCaches c)))),
                      (''trap_cache_download_size_bytes'',
                         Num (getTotalCacheSize env (trapCaches c)))])
                     initToolsDownloadFields \<rparr>) ]
           | None \<Rightarrow>
               send env (statusReportBase\<lparr> stage_fields :=
                 spread initStatusReport initToolsDownloadFields \<rparr>)) ])"

text \<open>Lines 188 to 220: the statements of \<^verbatim>\<open>run\<close> that precede its first \<^verbatim>\<open>try\<close> block.\<close>

definition init_setup :: "world \<Rightarrow> init_state step" where
  "init_setup env = steps
     [ invoke env InitializeEnvironment,
       require (getRequiredInput env ''token''),
       require (getRequiredEnvParam env ''GITHUB_SERVER_URL''),
       require (getRequiredEnvParam env ''GITHUB_API_URL''),
       invoke env GetGitHubVersion,
       invoke env CheckGitHubVersionInRange,
       require (getRequiredEnvParam env ''GITHUB_REPOSITORY''),
       invoke env ParseRepositoryNwo,
       emit (ExportVariable (envVar env ''JOB_RUN_UUID'') (uuidV4 env)) ]"

definition python_deps_hint :: string where
  "python_deps_hint = '' You can call this action with 'setup-python-dependencies: false' to disable this process''"

text \<open>Lines 281 to 302; a failure of \<^verbatim>\<open>installPythonDeps\<close> is caught and logged.\<close>

definition install_python_deps :: "world \<Rightarrow> config \<Rightarrow> 's run_state_scheme step" where
  "install_python_deps env cfg =
     (if ''python'' \<in> set (languages cfg) then
        with_required (getRequiredInput env ''setup-python-dependencies'') (\<lambda>v.
          if v = ''true'' then steps
            [ invoke env (GetFeatureValue ''DisablePythonDependencyInstallationEnabled''),
              (if featureValue env ''DisablePythonDependencyInstallationEnabled'' then skip
               else catching (invoke env InstallPythonDeps) (\<lambda>unwrappedError.
                      emit (Warning (message (wrapError unwrappedError) @ python_deps_hint)))) ]
          else skip)
      else skip)"

text \<open>The statements of the first \<^verbatim>\<open>try\<close> block after the starting report, lines 236 to 302.\<close>

definition init_body1 :: "world \<Rightarrow> init_state step list" where
  "init_body1 env =
     [ invoke_then env GetDefaultCliVersion
         (\<lambda>s. s\<lparr>toolsFeatureFlagsValid := toolsFeatureFlagsValid_resolved env\<rparr>),
       invoke_then env InitCodeQL
         (\<lambda>s. s\<lparr>toolsDownloadDurationMs := res_toolsDownloadDurationMs (initCodeQL env),
                toolsVersion := Some (res_toolsVersion (initCodeQL env)),
                toolsSource := Some (res_toolsSource (initCodeQL env))\<rparr>),
       invoke env ValidateWorkflow,
       require (getRequiredEnvParam env ''GITHUB_WORKSPACE''),
       invoke_then env InitConfig
         (\<lambda>s. s\<lparr>config := Some (initConfig env (getTrapCachingEnabled env))\<rparr>),
       install_python_deps env (initConfig env (getTrapCachingEnabled env)) ]"

definition init_try1 :: "world \<Rightarrow> init_state step" where
  "init_try1 env = steps (report_starting env ''init'' # init_body1 env)"

definition is_UserError :: "error \<Rightarrow> bool" where
  "is_UserError e = (case e of UserError m \<Rightarrow> True | _ \<Rightarrow> False)"

text \<open>The first \<^verbatim>\<open>catch\<close> block, lines 303 to 317.\<close>

definition init_catch1 :: "world \<Rightarrow> error \<Rightarrow> init_state step" where
  "init_catch1 env unwrappedError =
     (let err = wrapError unwrappedError;
          st = (if is_UserError err then UserErrorStatus else Aborted)
      in steps
        [ emit (SetFailed (message err)),
          invoke env (CheckDiskUsage st),
          invoke env (CreateStatusReportBase st),
          send env (createStatusReportBase ''init'' st (Some (message err))) ])"

definition str_includes :: "string \<Rightarrow> string \<Rightarrow> bool" where
  "str_includes s sub = list_ex (\<lambda>i. take (length sub) (drop i s) = sub) [0 ..< Suc (length s)]"

definition goflags_warning :: string where
  "goflags_warning = ''Passing the GOFLAGS env parameter to the init action is deprecated. Please move this to the analyze action.''"

text \<open>Lines 329 to 361; whatever the block throws is caught and logged.\<close>

definition install_go_wrapper :: "world \<Rightarrow> 's run_state_scheme step" where
  "install_go_wrapper env =
     (let tempBinPath = pathResolve env [temporaryDirectory env, ''bin''];
          goWrapperPath = pathResolve env [tempBinPath, ''go'']
      in catching (steps
           [ invoke env SafeWhich,
             invoke env GetFileType,
             (if str_includes (getFileType env) ''statically linked'' then steps
                [ invoke env MkdirSync,
                  emit (AddPath tempBinPath),
                  invoke env WriteFileSync,
                  invoke env ChmodSync,
                  emit (ExportVariable (envVar env ''GO_BINARY_LOCATION'') goWrapperPath) ]
              else skip) ])
          (\<lambda>e. emit (Warning
             (''Analyzing Go on Linux, but failed to install wrapper script: Error: '' @
              message e))))"

definition java_lombok_var :: string where
  "java_lombok_var = ''CODEQL_EXTRACTOR_JAVA_RUN_ANNOTATION_PROCESSORS''"

text \<open>The second \<^verbatim>\<open>try\<close> block, lines 319 to 443.\<close>

definition init_try2 :: "world \<Rightarrow> config \<Rightarrow> init_state step" where
  "init_try2 env cfg = steps
     [ (if truthy (process_env env ''GOFLAGS'') then steps
          [ emit (ExportVariable ''GOFLAGS'' (the (process_env env ''GOFLAGS''))),
            emit (Warning goflags_warning) ]
        else skip),
       (if ''go'' \<in> set (languages cfg) \<and> platform env = ''linux''
        then install_go_wrapper env else skip),
       (if truthy (process_env env ''CODEQL_RAM'')
        then emit (ExportVariable ''CODEQL_RAM'' (the (process_env env ''CODEQL_RAM'')))
        else steps
          [ invoke env GetMemoryFlagValue,
            emit (ExportVariable ''CODEQL_RAM'' (memoryFlagValue env)) ]),
       invoke env GetThreadsFlagValue,
       emit (ExportVariable ''CODEQL_THREADS'' (threadsFlagValue env)),
       invoke env (GetFeatureValue ''DisableKotlinAnalysisEnabled''),
       (if featureValue env ''DisableKotlinAnalysisEnabled''
        then emit (ExportVariable ''CODEQL_EXTRACTOR_JAVA_AGENT_DISABLE_KOTLIN'' ''true'')
        else skip),
       invoke env (CodeQlVersionAbove ''2.13.4''),
       (if codeQlVersionAbove env ''2.13.4'' then steps
          [ invoke env (CodeQlVersionAbove ''2.14.4''),
            (if \<not> codeQlVersionAbove env ''2.14.4''
             then emit (ExportVariable
                    ''CODEQL_EXTRACTOR_KOTLIN_OVERRIDE_MAXIMUM_VERSION_LIMIT'' ''1.9.20'')
             else skip) ]
        else skip),
       (if ''java'' \<in> set (languages cfg) then
          (if truthy (process_env env java_lombok_var) then skip
           else steps
             [ invoke env (GetFeatureValue ''CodeqlJavaLombokEnabled''),
               (if featureValue env ''CodeqlJavaLombokEnabled''
                then emit (ExportVariable java_lombok_var ''true'')
                else emit (ExportVariable java_lombok_var ''false'')) ])
        else skip),
       invoke env (GetFeatureValue ''DisablePythonDependencyInstallationEnabled''),
       (if featureValue env ''DisablePythonDependencyInstallationEnabled''
        then emit (ExportVariable ''CODEQL_EXTRACTOR_PYTHON_DISABLE_LIBRARY_EXTRACTION'' ''true'')
        else skip),
       require (getRequiredEnvParam env ''GITHUB_WORKSPACE''),
       invoke env RunInit,
       (case runInit env of
          None \<Rightarrow> skip
        | Some tracerEnv \<Rightarrow> steps (map (\<lambda>(key, v). emit (ExportVariable key v)) tracerEnv)),
       emit (SetOutput ''codeql-path'' (Str (codeQLCmd cfg))) ]"

definition init_initial :: init_state where
  "init_initial = \<lparr> trace = [], config = None, toolsDownloadDurationMs = None,
     toolsFeatureFlagsValid = None, toolsSource = None, toolsVersion = None \<rparr>"

text \<open>The second \<^verbatim>\<open>catch\<close> block, lines 444 to 458.\<close>

definition init_catch2 :: "world \<Rightarrow> error \<Rightarrow> init_state step" where
  "init_catch2 env unwrappedError =
     (let err = wrapError unwrappedError in steps
        [ emit (SetFailed (message err)),
          (\<lambda>s. init_sendCompletedStatusReport env (config s) (toolsDownloadDurationMs s)
                  (toolsFeatureFlagsValid s) (toolsSource s) (toolsVersion s) (Some err) s) ])"

text \<open>The statement after the second \<^verbatim>\<open>try\<close> statement, lines 459 to 467.\<close>

definition init_completed :: "world \<Rightarrow> init_state step" where
  "init_completed env s =
     init_sendCompletedStatusReport env (config s) (toolsDownloadDurationMs s)
       (toolsFeatureFlagsValid s) (toolsSource s) (toolsVersion s) None s"

text \<open>
  \<^verbatim>\<open>run\<close>, lines 185 to 468. An exception of the statements before the first \<^verbatim>\<open>try\<close> block
  leaves \<^verbatim>\<open>run\<close>. After the first \<^verbatim>\<open>try\<close> block has completed, \<^verbatim>\<open>config\<close> is assigned.
\<close>

definition init_run :: "world \<Rightarrow> init_state step" where
  "init_run env = steps
     [ init_setup env,
       try_catch (init_try1 env) (init_catch1 env)
         (try_catch
            (reading config (\<lambda>c. case c of None \<Rightarrow> skip | Some cfg \<Rightarrow> init_try2 env cfg))
            (init_catch2 env)
            (init_completed env)) ]"

text \<open>
  \<^verbatim>\<open>runWrapper\<close>, lines 482 to 489: an exception that leaves \<^verbatim>\<open>run\<close> is reported with
  \<^verbatim>\<open>core.setFailed\<close>; then the timeout check is made.
\<close>

definition init_runWrapper :: "world \<Rightarrow> event list" where
  "init_runWrapper env =
     (case init_run env init_initial of
        (s, Thrown err) \<Rightarrow>
          trace s @ [SetFailed (''init action failed: '' @ message (wrapError err))]
      | (s, r) \<Rightarrow> trace s)
     @ [Called CheckForTimeout]"

text \<open>
  \<^verbatim>\<open>core.setFailed\<close> sets the exit code of the process to 1; nothing else in the three
  entry points sets it.
\<close>

definition is_SetFailed :: "event \<Rightarrow> bool" where
  "is_SetFailed ev = (case ev of SetFailed m \<Rightarrow> True | _ \<Rightarrow> False)"

definition exit_code :: "event list \<Rightarrow> nat" where
  "exit_code tr = (if list_ex is_SetFailed tr then 1 else 0)"

definition reports :: "event list \<Rightarrow> status_report list" where
  "reports tr = concat (map (\<lambda>ev. case ev of Report r \<Rightarrow> [r] | _ \<Rightarrow> []) tr)"

section \<open>A world in which every collaborator succeeds\<close>

definition calm :: world where
  "calm = \<lparr>
     inputs = [''token'' \<mapsto> ''t'', ''expect-error'' \<mapsto> ''false'', ''output'' \<mapsto> ''/out'',
       ''skip-queries'' \<mapsto> ''false'', ''add-snippets'' \<mapsto> ''false'',
       ''checkout_path'' \<mapsto> ''/w'', ''wait-for-processing'' \<mapsto> ''true'',
       ''setup-python-dependencies'' \<mapsto> ''true''],
     process_env = [''GITHUB_SERVER_URL'' \<mapsto> ''https://github.com'',
       ''GITHUB_API_URL'' \<mapsto> ''https://api.github.com'', ''GITHUB_REPOSITORY'' \<mapsto> ''o/r'',
       ''GITHUB_WORKSPACE'' \<mapsto> ''/w''],
     isInTestMode = False,
     isHostedRunner = True, platform = ''linux'', sink = (\<lambda>r. True), fails = (\<lambda>c. None),
     getConfig = Some \<lparr> languages = [''go''], codeQLCmd = ''codeql'', trapCaches = [] \<rparr>,
     dbIsFinalized = (\<lambda>c l. False), getCodeQLDatabasePath = (\<lambda>c l. ''/db/'' @ l),
     existsSync = (\<lambda>p. False), readdirSync = (\<lambda>p. Inr []),
     pathJoin = join ''/'', pathResolve = join ''/'',
     safeWhich = ''/usr/bin/go'', runFinalize = [], runQueries = [],
     getUploadValue = (\<lambda>i. ''always''),
     uploadFromActions = \<lparr> sarifID = ''1'', statusReport = [] \<rparr>,
     uploadTrapCaches = False, trapCacheUploadDuration = 0, getTotalCacheSize = (\<lambda>c. 0),
     determineAutobuildLanguages = Some [''go''], featureValue = (\<lambda>f. False),
     initConfig = (\<lambda>trapCaching.
       \<lparr> languages = [''go''], codeQLCmd = ''codeql'', trapCaches = [] \<rparr>),
     getFileType = ''dynamically linked'', codeQlVersionAbove = (\<lambda>v. True),
     runInit = None, envVar = (\<lambda>n. ''CODEQL_ACTION_'' @ n),
     getMlPoweredJsQueriesStatus = (\<lambda>c. ''false''), uuidV4 = ''0000'',
     toolsFeatureFlagsValid_resolved = None,
     initCodeQL = \<lparr> res_toolsDownloadDurationMs = None, res_toolsVersion = ''2.15.0'',
       res_toolsSource = ''TOOLCACHE'' \<rparr>,
     memoryFlagValue = ''1024'', threadsFlagValue = ''2'', temporaryDirectory = ''/tmp'' \<rparr>"

section \<open>Properties of traces\<close>

definition is_Report :: "event \<Rightarrow> bool" where
  "is_Report ev = (case ev of Report r \<Rightarrow> True | _ \<Rightarrow> False)"

definition benign :: "event \<Rightarrow> bool" where
  "benign ev = (\<not> is_SetFailed ev \<and> \<not> is_Report ev)"

definition no_report :: "event \<Rightarrow> bool" where
  "no_report ev = (\<not> is_Report ev)"

definition adds :: "(event \<Rightarrow> bool) \<Rightarrow> 's run_state_scheme step \<Rightarrow> bool" where
  "adds P f =
     (\<forall>s. snd (f s) \<noteq> Returned \<and> (\<exists>es. trace (fst (f s)) = trace s @ es \<and> list_all P es))"

definition starting_report :: "string \<Rightarrow> status_report" where
  "starting_report actionName = createStatusReportBase actionName Starting None"

definition completed_reports :: "event list \<Rightarrow> status_report list" where
  "completed_reports tr = filter (\<lambda>r. status r \<noteq> Starting) (reports tr)"

definition starting_reports :: "event list \<Rightarrow> status_report list" where
  "starting_reports tr = filter (\<lambda>r. status r = Starting) (reports tr)"

definition analyze_inv :: "world \<Rightarrow> analyze_state \<Rightarrow> bool" where
  "analyze_inv env s =
     ((runStats s = None \<or> runStats s = Some (runQueries env)) \<and>
      (uploadResult s = None \<or> uploadResult s = Some (uploadFromActions env)))"

definition keeps :: "('s \<Rightarrow> bool) \<Rightarrow> 's step \<Rightarrow> bool" where
  "keeps I f = (\<forall>s. I s \<longrightarrow> I (fst (f s)))"

definition no_failure_language :: "world \<Rightarrow> bool" where
  "no_failure_language env =
     (map_of (runQueries env) ''analyze_failure_language'' = None \<and>
      map_of (statusReport (uploadFromActions env)) ''analyze_failure_language'' = None)"



text \<open>The calls made while a status report is built.\<close>

definition building :: "event \<Rightarrow> bool" where
  "building ev =
     (case ev of
        Called c \<Rightarrow>
          (case c of
             InitializeEnvironment \<Rightarrow> True
           | CheckDiskUsage st \<Rightarrow> True
           | CreateStatusReportBase st \<Rightarrow> True
           | GetMlPoweredJsQueriesStatus \<Rightarrow> True
           | GetTotalCacheSize \<Rightarrow> True
           | _ \<Rightarrow> False)
      | _ \<Rightarrow> False)"

text \<open>No call of report construction throws.\<close>

definition can_build :: "world \<Rightarrow> bool" where
  "can_build env =
     (fails env InitializeEnvironment = None \<and>
      list_all (\<lambda>st. fails env (CheckDiskUsage st) = None \<and>
                     fails env (CreateStatusReportBase st) = None)
        [Starting, Success, Failure, UserErrorStatus, Aborted] \<and>
      fails env GetMlPoweredJsQueriesStatus = None \<and>
      fails env GetTotalCacheSize = None)"

text \<open>
  A step that builds and sends one report: it makes calls of report construction and then
  either sends a report that satisfies \<open>R\<close>, or throws without having sent anything, which
  it does only when one of these calls throws.
\<close>

definition delivers ::
    "world \<Rightarrow> (status_report \<Rightarrow> bool) \<Rightarrow> 's run_state_scheme step \<Rightarrow> bool" where
  "delivers env R f =
     (\<forall>s. \<exists>es. list_all building es \<and>
        (case snd (f s) of
           Normal \<Rightarrow> (\<exists>r. R r \<and> trace (fst (f s)) = trace s @ es @ [Report r])
         | Thrown e \<Rightarrow> \<not> can_build env \<and> trace (fst (f s)) = trace s @ es
         | Returned \<Rightarrow> False))"

text \<open>
  What a \<^verbatim>\<open>runWrapper\<close> makes of the outcome of \<^verbatim>\<open>run\<close>: the trace, followed by
  \<^verbatim>\<open>core.setFailed\<close> when \<^verbatim>\<open>run\<close> has thrown.
\<close>

definition settle :: "string \<Rightarrow> 's run_state_scheme \<times> ctl \<Rightarrow> event list" where
  "settle w r =
     (case r of
        (s, Thrown err) \<Rightarrow> trace s @ [SetFailed (w @ message (wrapError err))]
      | (s, c) \<Rightarrow> trace s)"

text \<open>
  The end of a run that builds and sends its completed report: calls of report construction,
  then either a report that satisfies \<open>R\<close>, or, when the construction has thrown, the
  \<^verbatim>\<open>core.setFailed\<close> of the wrapper.
\<close>

definition closing ::
    "world \<Rightarrow> (status_report \<Rightarrow> bool) \<Rightarrow> string \<Rightarrow> event list \<Rightarrow> bool" where
  "closing env R w tail =
     (\<exists>es. list_all building es \<and>
        ((\<exists>r. R r \<and> tail = es @ [Report r]) \<or>
         (\<not> can_build env \<and> (\<exists>e. tail = es @ [SetFailed (w @ message e)]))))"

text \<open>The events of a starting report that is built and sent.\<close>

definition start_events :: "string \<Rightarrow> event list" where
  "start_events actionName =
     [Called (CheckDiskUsage Starting), Called (CreateStatusReportBase Starting),
      Report (starting_report actionName)]"

text \<open>
  A step that sends no report, never returns from the function, and adds only benign events
  when it throws or when \<open>Q\<close> holds.
\<close>

definition works :: "bool \<Rightarrow> 's run_state_scheme step \<Rightarrow> bool" where
  "works Q f =
     (\<forall>s. snd (f s) \<noteq> Returned \<and>
          (\<exists>es. trace (fst (f s)) = trace s @ es \<and> list_all no_report es \<and>
                (snd (f s) \<noteq> Normal \<or> Q \<longrightarrow> list_all benign es)))"

text \<open>
  A step that, whenever it makes the call \<open>c\<close>, throws \<open>e\<close>, having added only events that
  satisfy \<open>P\<close>.
\<close>

definition halts :: "call \<Rightarrow> error \<Rightarrow> (event \<Rightarrow> bool) \<Rightarrow> 's run_state_scheme step \<Rightarrow> bool" where
  "halts c e P f =
     (\<forall>s. snd (f s) \<noteq> Returned \<and>
          (\<exists>es. trace (fst (f s)) = trace s @ es \<and>
                (Called c \<in> set es \<longrightarrow> snd (f s) = Thrown e \<and> list_all P es)))"

text \<open>The states of \<^verbatim>\<open>run\<close> in which the first statement after the starting report starts.\<close>

definition autobuild_started :: autobuild_state where
  "autobuild_started = autobuild_initial\<lparr>trace := start_events ''autobuild''\<rparr>"

definition analyze_started :: analyze_state where
  "analyze_started =
     analyze_initial\<lparr>trace := Called InitializeEnvironment # start_events ''finish''\<rparr>"

text \<open>What the \<^verbatim>\<open>catch\<close> block of Finalize+Query passes to \<^verbatim>\<open>core.setFailed\<close>, if anything.\<close>

definition analyze_marks_failed :: "world \<Rightarrow> error \<Rightarrow> event list" where
  "analyze_marks_failed env e =
     (if getOptionalInput env ''expect-error'' \<noteq> Some ''true'' \<or> hasBadExpectErrorInput env
      then [SetFailed (message e)] else [])"

text \<open>The statistics an error carries.\<close>

definition stats_of :: "error \<Rightarrow> json_object" where
  "stats_of e = (case e of CodeQLAnalysisError q m \<Rightarrow> q | _ \<Rightarrow> [])"

text \<open>The completed report of a run whose \<^verbatim>\<open>try\<close> block has thrown \<open>e\<close>.\<close>

definition reports_error :: "string \<Rightarrow> error \<Rightarrow> status_report \<Rightarrow> bool" where
  "reports_error actionName e r =
     (action_name r = actionName \<and> cause r = Some (message e) \<and>
      status r = (if is_UserError e then UserErrorStatus else Failure))"

text \<open>The completed report of a run whose \<^verbatim>\<open>try\<close> block has completed.\<close>

definition reports_success :: "string \<Rightarrow> status_report \<Rightarrow> bool" where
  "reports_success actionName r =
     (action_name r = actionName \<and> cause r = None \<and> status r = Success)"

text \<open>The completed report of a run of Finalize+Query whose \<^verbatim>\<open>try\<close> block has completed.\<close>

definition reports_completion :: "world \<Rightarrow> status_report \<Rightarrow> bool" where
  "reports_completion env r =
     (action_name r = ''finish'' \<and> cause r = None \<and>
      (status r = Success \<or> status r = Failure) \<and>
      (no_failure_language env \<longrightarrow> status r = Success))"

text \<open>
  The completed report of a run of Finalize+Query whose \<^verbatim>\<open>try\<close> block has thrown \<open>e\<close>: it
  carries the statistics of the error among its fields.
\<close>

definition reports_analysis_error :: "error \<Rightarrow> status_report \<Rightarrow> bool" where
  "reports_analysis_error e r =
     (reports_error ''finish'' e r \<and> (\<exists>a b. stage_fields r = a @ stats_of e @ b))"

text \<open>The completed report of a run of Init one of whose \<^verbatim>\<open>try\<close> blocks has thrown \<open>e\<close>.\<close>

definition reports_failure :: "error \<Rightarrow> status_report \<Rightarrow> bool" where
  "reports_failure e r =
     (action_name r = ''init'' \<and> cause r = Some (message e) \<and>
      (status r = Failure \<or> status r = UserErrorStatus \<or> status r = Aborted))"

definition analyze_entered :: analyze_state where
  "analyze_entered = analyze_initial\<lparr>trace := [Called InitializeEnvironment]\<rparr>"

text \<open>An event that is neither a \<^verbatim>\<open>core.setFailed\<close> nor a completed report.\<close>

definition quiet :: "event \<Rightarrow> bool" where
  "quiet ev = (case ev of SetFailed m \<Rightarrow> False | Report r \<Rightarrow> status r = Starting | _ \<Rightarrow> True)"

definition init_never_ran :: world where
  "init_never_ran = calm\<lparr> getConfig := None \<rparr>"


definition version_lookup_fails :: world where
  "version_lookup_fails =
     calm\<lparr> fails := (\<lambda>c. if c = GetGitHubVersion then Some (Error ''request failed'') else None) \<rparr>"

definition expect_error_outside_tests :: world where
  "expect_error_outside_tests = calm\<lparr> inputs := (inputs calm)(''expect-error'' \<mapsto> ''true'') \<rparr>"


text \<open>A run in which the disk usage check made for the starting report throws.\<close>

definition disk_check_fails :: world where
  "disk_check_fails =
     calm\<lparr> fails := (\<lambda>c. if c = CheckDiskUsage Starting then Some (Error ''no space left'')
                          else None) \<rparr>"

text \<open>
  At most one starting report and at most one completed report, the starting report first.
\<close>

definition at_most_one_of_each :: "string \<Rightarrow> event list \<Rightarrow> bool" where
  "at_most_one_of_each actionName tr =
     (case reports tr of
        [] \<Rightarrow> True
      | [r] \<Rightarrow> r = starting_report actionName \<or> status r \<noteq> Starting
      | [r, r'] \<Rightarrow> r = starting_report actionName \<and> status r' \<noteq> Starting
      | _ \<Rightarrow> False)"

text \<open>
  The events of lines 277 to 333 of analyze-action.ts, which follow the query run: the cleanup,
  the outputs, the uploads, the wait for processing and the final export.
\<close>

definition publishes :: "event \<Rightarrow> bool" where
  "publishes ev =
     (case ev of
        Called c \<Rightarrow>
          (case c of
             RunCleanup \<Rightarrow> True
           | UploadFromActions \<Rightarrow> True
           | UploadDatabases \<Rightarrow> True
           | GetCodeQL \<Rightarrow> True
           | UploadTrapCaches \<Rightarrow> True
           | WaitForProcessing \<Rightarrow> True
           | _ \<Rightarrow> False)
      | SetOutput k v \<Rightarrow> True
      | ExportVariable k v \<Rightarrow> True
      | _ \<Rightarrow> False)"

text \<open>
  Two states of \<^verbatim>\<open>run\<close> of Finalize+Query that agree on everything but the two variables
  the TRAP cache upload assigns, \<^verbatim>\<open>didUploadTrapCaches\<close> and \<^verbatim>\<open>trapCacheUploadTime\<close>.
\<close>

definition trap_eq :: "analyze_state \<Rightarrow> analyze_state \<Rightarrow> bool" where
  "trap_eq s s' =
     (s'\<lparr>didUploadTrapCaches := didUploadTrapCaches s,
         trapCacheUploadTime := trapCacheUploadTime s\<rparr> = s)"

text \<open>
  Two steps that, started from such states, end in such states with the same control
  outcome.
\<close>

definition sim :: "analyze_state step \<Rightarrow> analyze_state step \<Rightarrow> bool" where
  "sim f g = (\<forall>s s'. trap_eq s s' \<longrightarrow> trap_eq (fst (f s)) (fst (g s')) \<and> snd (f s) = snd (g s'))"

text \<open>
  A trace without the telemetry of the TRAP cache upload: the fields
  \<^verbatim>\<open>trap_cache_upload_duration_ms\<close> and \<^verbatim>\<open>trap_cache_upload_size_bytes\<close> are removed from every
  report, and the calls of \<^verbatim>\<open>getTotalCacheSize\<close>, which computes the second, are removed from
  the trace. Every other event and every other field is kept.
\<close>

definition trap_upload_field :: "string \<times> jvalue \<Rightarrow> bool" where
  "trap_upload_field kv =
     (fst kv = ''trap_cache_upload_duration_ms'' \<or> fst kv = ''trap_cache_upload_size_bytes'')"

definition hide_trap_upload :: "event list \<Rightarrow> event list" where
  "hide_trap_upload tr =
     map (\<lambda>ev. case ev of
            Report r \<Rightarrow>
              Report (r\<lparr>stage_fields := filter (\<lambda>kv. \<not> trap_upload_field kv) (stage_fields r)\<rparr>)
          | _ \<Rightarrow> ev)
       (filter (\<lambda>ev. ev \<noteq> Called GetTotalCacheSize) tr)"

text \<open>
  Two steps that, started from states whose traces agree once that telemetry is hidden, end in
  such states with the same control outcome.
\<close>

definition hide_sim :: "analyze_state step \<Rightarrow> analyze_state step \<Rightarrow> bool" where
  "hide_sim f g =
     (\<forall>s s'. hide_trap_upload (trace s) = hide_trap_upload (trace s') \<longrightarrow>
        hide_trap_upload (trace (fst (f s))) = hide_trap_upload (trace (fst (g s'))) \<and>
        snd (f s) = snd (g s'))"

text \<open>
  A run of Finalize+Query in which every collaborator succeeds except \<^verbatim>\<open>uploadTrapCaches\<close>,
  which throws.
\<close>

definition trap_upload_fails :: world where
  "trap_upload_fails =
     calm\<lparr> fails := (\<lambda>c. if c = UploadTrapCaches then Some (Error ''cache service down'')
                          else None) \<rparr>"

text \<open>A second invocation of a stage: the telemetry sink answers false to every report.\<close>

definition duplicate_run :: world where
  "duplicate_run = calm\<lparr> sink := (\<lambda>r. False) \<rparr>"

text \<open>A telemetry sink that is reachable for the starting report only.\<close>

definition delivers_starting_only :: "status_report \<Rightarrow> bool" where
  "delivers_starting_only r = (status r = Starting)"

text \<open>
  Exactly one starting report, sent first, followed by at most one completed report.
\<close>

definition one_starting_at_most_one_completed :: "string \<Rightarrow> event list \<Rightarrow> bool" where
  "one_starting_at_most_one_completed actionName tr =
     (reports tr = [starting_report actionName] \<or>
      (\<exists>r. status r \<noteq> Starting \<and> reports tr = [starting_report actionName, r]))"

text \<open>A test run in which database finalization throws and the error is expected.\<close>

definition expected_failure :: world where
  "expected_failure =
     calm\<lparr> inputs := (inputs calm)(''expect-error'' \<mapsto> ''true''), isInTestMode := True,
       fails := (\<lambda>c. if c = RunFinalize then Some (Error ''finalize failed'') else None) \<rparr>"

text \<open>
  A run outside test mode with \<^verbatim>\<open>expect-error: true\<close> in a job whose Init stage never ran.
\<close>

definition bad_input_without_config :: world where
  "bad_input_without_config = expect_error_outside_tests\<lparr> getConfig := None \<rparr>"

text \<open>
  The remaining languages are processed: the \<^verbatim>\<open>db-locations\<close> output, which is set right after
  the query run and names the database of every configured language, has been set.
\<close>

definition processes_every_language :: "config \<Rightarrow> event list \<Rightarrow> bool" where
  "processes_every_language cfg tr =
     (\<exists>locations. SetOutput ''db-locations'' (Obj locations) \<in> set tr \<and>
        map fst locations = languages cfg)"

definition three_languages :: config where
  "three_languages = \<lparr> languages = [''cpp'', ''go'', ''java''], codeQLCmd = ''codeql'',
     trapCaches = [] \<rparr>"

text \<open>
  A run over three languages whose query run throws a \<^verbatim>\<open>CodeQLAnalysisError\<close> that names Go
  as the failing language.
\<close>

definition go_analysis_fails :: world where
  "go_analysis_fails =
     calm\<lparr> getConfig := Some three_languages,
       fails := (\<lambda>c. if c = RunQueries
         then Some (CodeQLAnalysisError [(''analyze_failure_language'', Str ''go'')]
                ''Error running analysis for go'')
         else None) \<rparr>"

text \<open>The directory in which the Go extractor writes its TRAP files.\<close>

definition go_trap_directory :: "world \<Rightarrow> config \<Rightarrow> string" where
  "go_trap_directory env cfg =
     pathJoin env [getCodeQLDatabasePath env cfg ''go'', ''trap'', ''go'']"

text \<open>
  The files under that directory: the names \<^verbatim>\<open>fs.readdirSync\<close> lists when the path exists and
  can be listed, and none otherwise.
\<close>

definition go_trap_files :: "world \<Rightarrow> config \<Rightarrow> string list" where
  "go_trap_files env cfg =
     (if existsSync env (go_trap_directory env cfg) then
        (case readdirSync env (go_trap_directory env cfg) of
           Inr fileNames \<Rightarrow> fileNames
         | Inl e \<Rightarrow> [])
      else [])"

text \<open>The error of \<^verbatim>\<open>fs.readdirSync\<close> when the path exists and cannot be listed.\<close>

definition go_trap_listing_error :: "world \<Rightarrow> config \<Rightarrow> error option" where
  "go_trap_listing_error env cfg =
     (if existsSync env (go_trap_directory env cfg) then
        (case readdirSync env (go_trap_directory env cfg) of
           Inr fileNames \<Rightarrow> None
         | Inl e \<Rightarrow> Some e)
      else None)"

text \<open>
  The four conditions of the legacy Go workflow: Go is a configured language, the variable
  \<^verbatim>\<open>CODEQL_ACTION_DID_AUTOBUILD_GOLANG\<close> is not \<^verbatim>\<open>"true"\<close>, the Go database is not finalized, and
  no file under the TRAP directory of the Go database has a name that ends with one of the
  six TRAP extensions.
\<close>

definition legacy_go_conditions :: "world \<Rightarrow> config \<Rightarrow> bool" where
  "legacy_go_conditions env cfg =
     (''go'' \<in> set (languages cfg) \<and>
      process_env env ''CODEQL_ACTION_DID_AUTOBUILD_GOLANG'' \<noteq> Some ''true'' \<and>
      \<not> dbIsFinalized env cfg ''go'' \<and>
      \<not> (\<exists>fileName \<in> set (go_trap_files env cfg). \<exists>ext \<in> set trap_extensions.
            endsWith fileName ext))"

text \<open>A workflow with a manual build of Go: the extractor has written a TRAP file.\<close>

definition manual_go_build :: world where
  "manual_go_build =
     calm\<lparr> existsSync := (\<lambda>p. p = ''/db/go/trap/go''),
           readdirSync := (\<lambda>p. Inr [''main.go.trap.gz'']) \<rparr>"

text \<open>
  A Go database whose TRAP path exists and is a regular file: \<^verbatim>\<open>fs.existsSync\<close> answers true
  and \<^verbatim>\<open>fs.readdirSync\<close> throws \<^verbatim>\<open>ENOTDIR\<close>. No file exists under that path.
\<close>

definition trap_path_is_a_file :: world where
  "trap_path_is_a_file =
     calm\<lparr> existsSync := (\<lambda>p. p = ''/db/go/trap/go''),
           readdirSync := (\<lambda>p. Inl (Error ''ENOTDIR: not a directory, scandir /db/go/trap/go'')) \<rparr>"

text \<open>The configuration of the world \<open>calm\<close>.\<close>

definition go_only :: config where
  "go_only = \<lparr> languages = [''go''], codeQLCmd = ''codeql'', trapCaches = [] \<rparr>"

text \<open>The world \<open>calm\<close> with a TRAP cache upload that succeeds.\<close>

definition trap_upload_succeeds :: world where
  "trap_upload_succeeds = calm\<lparr> uploadTrapCaches := True, trapCacheUploadDuration := 7 \<rparr>"

section \<open>How the entry points build their traces\<close>

lemma addsI:
  "(\<And>s. snd (f s) \<noteq> Returned) \<Longrightarrow>
   (\<And>s. \<exists>es. trace (fst (f s)) = trace s @ es \<and> list_all P es) \<Longrightarrow> adds P f"
  by (simp add: adds_def)

lemma addsD: "adds P f \<Longrightarrow> \<exists>es. trace (fst (f s)) = trace s @ es \<and> list_all P es"
  by (simp add: adds_def)

lemma adds_no_return: "adds P f \<Longrightarrow> snd (f s) \<noteq> Returned"
  by (simp add: adds_def)

lemma adds_skip: "adds P skip"
  by (simp add: adds_def skip_def)

lemma adds_throw: "adds P (throw e)"
  by (simp add: adds_def throw_def)

lemma adds_require: "adds P (require r)"
  by (simp add: adds_def require_def split: sum.splits)

lemma adds_emit: "P ev \<Longrightarrow> adds P (emit ev)"
  by (simp add: adds_def emit_def)

lemma adds_invoke: "P (Called c) \<Longrightarrow> adds P (invoke env c)"
  by (simp add: adds_def invoke_def split: option.splits)

lemma adds_assign: "(\<And>s. trace (store s) = trace s) \<Longrightarrow> adds P (assign store)"
  by (simp add: adds_def assign_def)

lemma adds_invoke_then:
  "P (Called c) \<Longrightarrow> (\<And>s. trace (store s) = trace s) \<Longrightarrow> adds P (invoke_then env c store)"
  by (simp add: adds_def invoke_then_def invoke_def split: option.splits)

lemma adds_with_required: "(\<And>v. adds P (body v)) \<Longrightarrow> adds P (with_required r body)"
  by (cases r) (simp_all add: adds_def with_required_def)

lemma adds_reading: "(\<And>v. adds P (body v)) \<Longrightarrow> adds P (reading var body)"
  by (simp add: adds_def reading_def)

lemma adds_require_config: "(\<And>cfg. adds P (body cfg)) \<Longrightarrow> adds P (require_config body)"
  unfolding require_config_def
  by (rule adds_reading) (simp add: adds_throw split: option.splits)

lemma adds_catching:
  assumes b: "adds P body" and h: "\<And>e. adds P (handler e)"
  shows "adds P (catching body handler)"
proof (rule addsI)
  fix s
  obtain s1 c where bs: "body s = (s1, c)" by (cases "body s")
  from adds_no_return [OF b, of s] bs have nr: "c \<noteq> Returned" by simp
  from addsD [OF b, of s] bs obtain es where es: "trace s1 = trace s @ es" "list_all P es"
    by auto
  show "snd (catching body handler s) \<noteq> Returned"
    using bs nr adds_no_return [OF h] by (cases c) (simp_all add: catching_def)
  show "\<exists>es. trace (fst (catching body handler s)) = trace s @ es \<and> list_all P es"
  proof (cases c)
    case Normal
    with es bs show ?thesis by (simp add: catching_def)
  next
    case Returned
    with nr show ?thesis by simp
  next
    case (Thrown e)
    from addsD [OF h, of e s1] obtain es' where
      "trace (fst (handler e s1)) = trace s1 @ es'" "list_all P es'" by auto
    with es Thrown bs show ?thesis
      by (intro exI [of _ "es @ es'"]) (simp add: catching_def)
  qed
qed

lemma adds_steps_Nil: "adds P (steps [])"
  by (simp add: adds_def)

lemma adds_then:
  assumes f: "adds P f" and g: "adds P g"
  shows "adds P (\<lambda>s. case f s of (s', Normal) \<Rightarrow> g s' | r \<Rightarrow> r)"
proof (rule addsI)
  fix s
  obtain s1 c where fs: "f s = (s1, c)" by (cases "f s")
  from adds_no_return [OF f, of s] fs have nr: "c \<noteq> Returned" by simp
  from addsD [OF f, of s] fs obtain es where es: "trace s1 = trace s @ es" "list_all P es"
    by auto
  let ?h = "\<lambda>s. case f s of (s', Normal) \<Rightarrow> g s' | r \<Rightarrow> r"
  show "snd (?h s) \<noteq> Returned"
    using fs nr adds_no_return [OF g] by (cases c) simp_all
  show "\<exists>es. trace (fst (?h s)) = trace s @ es \<and> list_all P es"
  proof (cases c)
    case Normal
    from addsD [OF g, of s1] obtain es' where
      es': "trace (fst (g s1)) = trace s1 @ es'" "list_all P es'" by auto
    with es Normal fs show ?thesis by (intro exI [of _ "es @ es'"]) simp
  next
    case Returned
    with nr show ?thesis by simp
  next
    case (Thrown e)
    with es fs show ?thesis by (intro exI [of _ es]) simp
  qed
qed

lemma adds_steps_Cons: "adds P f \<Longrightarrow> adds P (steps fs) \<Longrightarrow> adds P (steps (f # fs))"
  using adds_then [of P f "steps fs"] by (simp add: adds_def)

lemma adds_steps_all: "(\<And>f. f \<in> set fs \<Longrightarrow> adds P f) \<Longrightarrow> adds P (steps fs)"
  by (induction fs) (simp_all add: adds_steps_Nil adds_steps_Cons)

lemma adds_if: "(b \<Longrightarrow> adds P f) \<Longrightarrow> (\<not> b \<Longrightarrow> adds P g) \<Longrightarrow> adds P (if b then f else g)"
  by simp

lemma adds_case_option:
  "(x = None \<Longrightarrow> adds P f) \<Longrightarrow> (\<And>v. x = Some v \<Longrightarrow> adds P (g v)) \<Longrightarrow>
   adds P (case x of None \<Rightarrow> f | Some v \<Rightarrow> g v)"
  by (cases x) simp_all

lemmas adds_rules = adds_skip adds_throw adds_require adds_emit adds_invoke adds_assign
  adds_invoke_then adds_with_required adds_reading adds_require_config adds_catching
  adds_steps_Nil adds_steps_Cons adds_if adds_case_option

lemma benign_simps:
  "benign (Called c)" "benign (Warning w)" "benign (ExportVariable k v)"
  "benign (SetOutput k j)" "benign (AddPath p)" "\<not> benign (SetFailed m)" "\<not> benign (Report r)"
  by (simp_all add: benign_def is_SetFailed_def is_Report_def)

lemma benign_no_report: "list_all benign es \<Longrightarrow> list_all no_report es"
  by (simp add: list_all_iff benign_def no_report_def)

lemma adds_autobuild_loop: "adds benign (autobuild_loop env cfg ls)"
proof (rule addsI)
  fix s
  show "snd (autobuild_loop env cfg ls s) \<noteq> Returned"
    by (induction ls arbitrary: s) (simp_all add: invoke_def split: option.splits)
  show "\<exists>es. trace (fst (autobuild_loop env cfg ls s)) = trace s @ es \<and> list_all benign es"
  proof (induction ls arbitrary: s)
    case Nil
    show ?case by simp
  next
    case (Cons l ls)
    let ?s1 = "fst (invoke env (RunAutobuild l) (s\<lparr>currentLanguage := Some l\<rparr>))"
    have t1: "trace ?s1 = trace s @ [Called (RunAutobuild l)]" by (simp add: invoke_def)
    show ?case
    proof (cases "fails env (RunAutobuild l)")
      case None
      from Cons.IH [of ?s1] obtain es where
        "trace (fst (autobuild_loop env cfg ls ?s1)) = trace ?s1 @ es" "list_all benign es" by auto
      with t1 None show ?thesis
        by (intro exI [of _ "Called (RunAutobuild l) # es"]) (simp add: invoke_def benign_simps)
    next
      case (Some e)
      then show ?thesis by (simp add: invoke_def benign_simps)
    qed
  qed
qed

lemma adds_autobuild_body: "adds benign (steps (autobuild_body env))"
  unfolding autobuild_body_def load_config_def
  by (intro adds_rules adds_autobuild_loop) (simp_all add: benign_simps)

lemma adds_go_workflow: "adds benign (runAutobuildIfLegacyGoWorkflow env cfg)"
  unfolding runAutobuildIfLegacyGoWorkflow_def
  by (intro adds_rules) (simp_all add: benign_simps)

lemma steps_append:
  "steps (xs @ ys) s = (case steps xs s of (s', Normal) \<Rightarrow> steps ys s' | r \<Rightarrow> r)"
proof (induction xs arbitrary: s)
  case Nil
  show ?case by simp
next
  case (Cons f fs)
  show ?case
  proof (cases "f s")
    case (Pair s1 c)
    with Cons show ?thesis by (cases c) simp_all
  qed
qed

lemma adds_steps_append:
  "adds P (steps xs) \<Longrightarrow> adds P (steps ys) \<Longrightarrow> adds P (steps (xs @ ys))"
  using adds_then [of P "steps xs" "steps ys"] by (simp add: adds_def steps_append)

lemma adds_case_sum:
  "(\<And>e. x = Inl e \<Longrightarrow> adds P (f e)) \<Longrightarrow> (\<And>v. x = Inr v \<Longrightarrow> adds P (g v)) \<Longrightarrow>
   adds P (case x of Inl e \<Rightarrow> f e | Inr v \<Rightarrow> g v)"
  by (cases x) simp_all

lemma adds_mono: "adds P f \<Longrightarrow> (\<And>ev. P ev \<Longrightarrow> Q ev) \<Longrightarrow> adds Q f"
  unfolding adds_def by (metis (mono_tags, lifting) list_all_iff)

lemma adds_analyze_build: "adds benign (steps (analyze_build env cfg))"
  unfolding analyze_build_def check_go_wrapper_def run_queries_def
  by (intro adds_rules adds_go_workflow) (simp_all add: benign_simps)

lemma adds_analyze_publish: "adds benign (steps (analyze_publish env cfg outputDir))"
  unfolding analyze_publish_def set_outputs_def upload_results_def upload_trap_caches_def
    wait_for_processing_def
  by (intro adds_rules) (simp_all add: benign_simps)

lemma worksD:
  "works Q f \<Longrightarrow> \<exists>es. trace (fst (f s)) = trace s @ es \<and> list_all no_report es \<and>
                  (snd (f s) \<noteq> Normal \<or> Q \<longrightarrow> list_all benign es)"
  by (simp add: works_def)

lemma works_no_return: "works Q f \<Longrightarrow> snd (f s) \<noteq> Returned"
  by (simp add: works_def)

lemma adds_works: "adds benign f \<Longrightarrow> works Q f"
  unfolding adds_def works_def using benign_no_report by blast

lemma works_then:
  assumes f: "adds benign f" and g: "works Q g"
  shows "works Q (\<lambda>s. case f s of (s', Normal) \<Rightarrow> g s' | r \<Rightarrow> r)"
  unfolding works_def
proof (intro allI conjI)
  fix s
  obtain s1 c where fs: "f s = (s1, c)" by (cases "f s")
  from adds_no_return [OF f, of s] fs have nr: "c \<noteq> Returned" by simp
  from addsD [OF f, of s] fs obtain es where es: "trace s1 = trace s @ es" "list_all benign es"
    by auto
  let ?h = "\<lambda>s. case f s of (s', Normal) \<Rightarrow> g s' | r \<Rightarrow> r"
  show "snd (?h s) \<noteq> Returned"
    using fs nr works_no_return [OF g] by (cases c) simp_all
  show "\<exists>es. trace (fst (?h s)) = trace s @ es \<and> list_all no_report es \<and>
          (snd (?h s) \<noteq> Normal \<or> Q \<longrightarrow> list_all benign es)"
  proof (cases c)
    case Normal
    from worksD [OF g, of s1] obtain es' where
      es': "trace (fst (g s1)) = trace s1 @ es'" "list_all no_report es'"
        "snd (g s1) \<noteq> Normal \<or> Q \<longrightarrow> list_all benign es'" by auto
    with es Normal fs show ?thesis
      by (intro exI [of _ "es @ es'"]) (simp add: benign_no_report)
  next
    case Returned
    with nr show ?thesis by simp
  next
    case (Thrown e)
    with es fs show ?thesis by (intro exI [of _ es]) (simp add: benign_no_report)
  qed
qed

lemma works_steps_Cons: "adds benign f \<Longrightarrow> works Q (steps fs) \<Longrightarrow> works Q (steps (f # fs))"
  using works_then [of f Q "steps fs"] by (simp add: works_def)

lemma works_steps_append:
  "adds benign (steps xs) \<Longrightarrow> works Q (steps ys) \<Longrightarrow> works Q (steps (xs @ ys))"
  using works_then [of "steps xs" Q "steps ys"] by (simp add: works_def steps_append)

lemma steps_single: "steps [f] = f"
proof (rule ext)
  fix s
  show "steps [f] s = f s"
  proof (cases "f s")
    case (Pair s1 c)
    then show ?thesis by (cases c) simp_all
  qed
qed

lemma works_last: "works Q f \<Longrightarrow> works Q (steps [f])"
  by (simp only: steps_single)

lemma works_with_required: "(\<And>v. works Q (body v)) \<Longrightarrow> works Q (with_required r body)"
  by (cases r) (simp_all add: works_def with_required_def)

lemma works_require_config: "(\<And>cfg. works Q (body cfg)) \<Longrightarrow> works Q (require_config body)"
  by (simp add: works_def require_config_def reading_def throw_def split: option.splits)

lemma works_epilogue:
  "works (getOptionalInput env ''expect-error'' \<noteq> Some ''true'') (steps (analyze_epilogue env))"
  by (simp add: works_def analyze_epilogue_def emit_def skip_def no_report_def is_Report_def
      benign_def is_SetFailed_def)

lemma works_analyze_body:
  "works (getOptionalInput env ''expect-error'' \<noteq> Some ''true'') (steps (analyze_body env))"
proof -
  let ?Q = "getOptionalInput env ''expect-error'' \<noteq> Some ''true''"
  have work: "works ?Q (steps (analyze_build env cfg @ analyze_publish env cfg outputDir @
      analyze_epilogue env))" for cfg outputDir
    by (intro works_steps_append adds_analyze_build adds_analyze_publish works_epilogue)
  have guarded: "works ?Q (steps
         [ (if hasBadExpectErrorInput env then throw (UserError expect_error_message) else skip),
           invoke env GetApiDetails,
           with_required (getRequiredInput env ''output'') (\<lambda>outputDir.
             steps (analyze_build env cfg @ analyze_publish env cfg outputDir @
                    analyze_epilogue env)) ])" for cfg
    apply (rule works_steps_Cons)
     apply (simp add: adds_throw adds_skip)
    apply (rule works_steps_Cons)
     apply (simp add: adds_invoke benign_simps)
    apply (rule works_last)
    apply (rule works_with_required)
    apply (rule work)
    done
  show ?thesis
    unfolding analyze_body_def
    apply (rule works_steps_Cons)
     apply (simp add: load_config_def adds_invoke_then benign_simps)
    apply (rule works_last)
    apply (rule works_require_config)
    apply (rule guarded)
    done
qed

lemma adds_python_deps: "adds benign (install_python_deps env cfg)"
  unfolding install_python_deps_def
  by (intro adds_rules) (simp_all add: benign_simps)

lemma adds_init_setup: "adds benign (init_setup env)"
  unfolding init_setup_def
  by (intro adds_rules) (simp_all add: benign_simps)

lemma adds_init_body1: "adds benign (steps (init_body1 env))"
  unfolding init_body1_def
  by (intro adds_rules adds_python_deps) (simp_all add: benign_simps)

lemma adds_go_wrapper: "adds benign (install_go_wrapper env)"
  unfolding install_go_wrapper_def Let_def
  by (intro adds_rules) (simp_all add: benign_simps)

lemma adds_tracer_env:
  "adds benign (steps (map (\<lambda>(key, v). emit (ExportVariable key v)) tracerEnv))"
  by (rule adds_steps_all) (auto simp: adds_emit benign_simps)

lemma adds_init_try2: "adds benign (init_try2 env cfg)"
  unfolding init_try2_def
  by (intro adds_rules adds_go_wrapper adds_tracer_env) (simp_all add: benign_simps)

lemma building_simps:
  "building (Called InitializeEnvironment)" "building (Called (CheckDiskUsage st))"
  "building (Called (CreateStatusReportBase st))" "building (Called GetMlPoweredJsQueriesStatus)"
  "building (Called GetTotalCacheSize)" "\<not> building (Report r)" "\<not> building (SetFailed m)"
  by (simp_all add: building_def)

lemma building_benign: "building ev \<Longrightarrow> benign ev"
  by (cases ev) (simp_all add: building_def benign_def is_SetFailed_def is_Report_def)

lemma building_all_benign: "list_all building es \<Longrightarrow> list_all benign es"
  by (simp add: list_all_iff building_benign)

lemma can_build_calls: "can_build env \<Longrightarrow> building (Called c) \<Longrightarrow> fails env c = None"
proof (cases c)
  case (CheckDiskUsage st)
  then show "can_build env \<Longrightarrow> fails env c = None"
    by (cases st) (simp_all add: can_build_def)
next
  case (CreateStatusReportBase st)
  then show "can_build env \<Longrightarrow> fails env c = None"
    by (cases st) (simp_all add: can_build_def)
qed (simp_all add: can_build_def building_def)

lemma deliversD:
  "delivers env R f \<Longrightarrow> \<exists>es. list_all building es \<and>
        (case snd (f s) of
           Normal \<Rightarrow> (\<exists>r. R r \<and> trace (fst (f s)) = trace s @ es @ [Report r])
         | Thrown e \<Rightarrow> \<not> can_build env \<and> trace (fst (f s)) = trace s @ es
         | Returned \<Rightarrow> False)"
  by (simp add: delivers_def)

lemma delivers_send: "R r \<Longrightarrow> delivers env R (send env r)"
  unfolding delivers_def
  by (intro allI exI [of _ "[]"]) (simp add: send_def sendStatusReport_def)

lemma delivers_invoke_Cons:
  fixes fs :: "'a run_state_scheme step list"
  assumes c: "building (Called c)" and rest: "delivers env R (steps fs)"
  shows "delivers env R (steps (invoke env c # fs))"
  unfolding delivers_def
proof
  fix s :: "'a run_state_scheme"
  let ?s1 = "s\<lparr>trace := trace s @ [Called c]\<rparr>"
  show "\<exists>es. list_all building es \<and>
        (case snd (steps (invoke env c # fs) s) of
           Normal \<Rightarrow> (\<exists>r. R r \<and> trace (fst (steps (invoke env c # fs) s)) = trace s @ es @ [Report r])
         | Thrown e \<Rightarrow> \<not> can_build env \<and> trace (fst (steps (invoke env c # fs) s)) = trace s @ es
         | Returned \<Rightarrow> False)"
  proof (cases "fails env c")
    case (Some e)
    with c can_build_calls [of env c] show ?thesis
      by (intro exI [of _ "[Called c]"]) (auto simp: invoke_def)
  next
    case None
    then have eq: "steps (invoke env c # fs) s = steps fs ?s1" by (simp add: invoke_def)
    from deliversD [OF rest, of ?s1] obtain es where es: "list_all building es"
      "case snd (steps fs ?s1) of
           Normal \<Rightarrow> (\<exists>r. R r \<and> trace (fst (steps fs ?s1)) = trace ?s1 @ es @ [Report r])
         | Thrown e \<Rightarrow> \<not> can_build env \<and> trace (fst (steps fs ?s1)) = trace ?s1 @ es
         | Returned \<Rightarrow> False" by auto
    with c show ?thesis unfolding eq
      by (intro exI [of _ "Called c # es"]) (auto split: ctl.splits)
  qed
qed

lemma steps_skip_Cons: "steps (skip # fs) = steps fs"
  by (rule ext) (simp add: skip_def)

lemma delivers_skip_Cons: "delivers env R (steps fs) \<Longrightarrow> delivers env R (steps (skip # fs))"
  by (simp only: steps_skip_Cons)

lemma delivers_last: "delivers env R f \<Longrightarrow> delivers env R (steps [f])"
  by (simp only: steps_single)

lemma delivers_mono:
  assumes f: "delivers env R f" and imp: "\<And>r. R r \<Longrightarrow> R' r"
  shows "delivers env R' f"
  unfolding delivers_def
proof
  fix s
  obtain s' c where fs: "f s = (s', c)" by (cases "f s")
  from deliversD [OF f, of s] obtain es where es: "list_all building es"
    "case c of
       Normal \<Rightarrow> (\<exists>r. R r \<and> trace s' = trace s @ es @ [Report r])
     | Thrown e \<Rightarrow> \<not> can_build env \<and> trace s' = trace s @ es
     | Returned \<Rightarrow> False" by (auto simp: fs cong: ctl.case_cong)
  show "\<exists>es. list_all building es \<and>
        (case snd (f s) of
           Normal \<Rightarrow> (\<exists>r. R' r \<and> trace (fst (f s)) = trace s @ es @ [Report r])
         | Thrown e \<Rightarrow> \<not> can_build env \<and> trace (fst (f s)) = trace s @ es
         | Returned \<Rightarrow> False)"
    using es imp by (intro exI [of _ es]) (cases c; auto simp: fs)
qed

lemma delivers_reading:
  assumes "\<And>x. delivers env R (g x)"
  shows "delivers env R (\<lambda>s. g (v s) s)"
  unfolding delivers_def
proof
  fix s
  from deliversD [OF assms, of "v s" s]
  show "\<exists>es. list_all building es \<and>
        (case snd (g (v s) s) of
           Normal \<Rightarrow> (\<exists>r. R r \<and> trace (fst (g (v s) s)) = trace s @ es @ [Report r])
         | Thrown e \<Rightarrow> \<not> can_build env \<and> trace (fst (g (v s) s)) = trace s @ es
         | Returned \<Rightarrow> False)" .
qed

lemma status_of_error:
  "getActionsStatus (Some e) x = (if is_UserError e then UserErrorStatus else Failure)"
  by (cases e) (simp_all add: getActionsStatus_def is_UserError_def)

lemma autobuild_sender:
  "delivers env (\<lambda>r. action_name r = ''autobuild'' \<and> cause r = map_option message c \<and>
               status r = getActionsStatus c fl)
     (autobuild_sendCompletedStatusReport env ls fl c)"
  unfolding autobuild_sendCompletedStatusReport_def Let_def
  by (intro delivers_invoke_Cons delivers_last delivers_send)
     (simp_all add: building_simps createStatusReportBase_def)

lemma analyze_sender:
  "delivers env (\<lambda>r. action_name r = ''finish'' \<and> cause r = map_option message err \<and>
               status r = getActionsStatus err
                 (case stats of None \<Rightarrow> None
                  | Some q \<Rightarrow> str_field q ''analyze_failure_language'') \<and>
               (\<exists>a b. stage_fields r = a @ (case stats of Some q \<Rightarrow> q | None \<Rightarrow> []) @ b))
     (analyze_sendStatusReport env cfg stats err t d u)"
proof -
  let ?d = "case d of Some t \<Rightarrow> t | None \<Rightarrow> []"
  let ?q = "case stats of Some q \<Rightarrow> q | None \<Rightarrow> []"
  have f0: "\<exists>a b. ?d @ ?q = a @ ?q @ b"
    by (intro exI [of _ ?d] exI [of _ "[]"]) simp
  have f1: "\<exists>a b. ?d @ ?q @ x = a @ ?q @ b" for x :: json_object
    by (intro exI [of _ ?d] exI [of _ x]) simp
  have f2: "\<exists>a b. y # z # ?d @ ?q @ x = a @ ?q @ b" for x :: json_object and y z
    by (intro exI [of _ "y # z # ?d"] exI [of _ x]) simp
  show ?thesis
  proof (cases cfg)
    case None
    then show ?thesis
      unfolding analyze_sendStatusReport_def Let_def
      by (simp del: steps.simps)
         (intro delivers_invoke_Cons delivers_skip_Cons delivers_last delivers_send;
          simp add: building_simps createStatusReportBase_def spread_def f0 f1)
  next
    case (Some c)
    then show ?thesis
      unfolding analyze_sendStatusReport_def Let_def
      by (cases u; simp del: steps.simps)
         (intro delivers_invoke_Cons delivers_last delivers_send;
          simp add: building_simps createStatusReportBase_def spread_def f0 f1 f2)+
  qed
qed

lemma init_sender:
  "delivers env (\<lambda>r. action_name r = ''init'' \<and> cause r = map_option message err \<and>
               status r = getActionsStatus err None)
     (init_sendCompletedStatusReport env cfg dl fv src v err)"
  unfolding init_sendCompletedStatusReport_def Let_def
  by (cases cfg; simp del: steps.simps split del: if_split)
     (intro delivers_invoke_Cons delivers_last delivers_send;
      simp add: building_simps createStatusReportBase_def)+

lemma settle_simps:
  "settle w (s, Normal) = trace s" "settle w (s, Returned) = trace s"
  "settle w (s, Thrown e) = trace s @ [SetFailed (w @ message e)]"
  by (simp_all add: settle_def wrapError_def)

lemma settle_try_catch:
  "settle w (try_catch body handler rest s) =
     (case body s of
        (s', Normal) \<Rightarrow> settle w (rest s')
      | (s', Returned) \<Rightarrow> trace s'
      | (s', Thrown e) \<Rightarrow> settle w (handler e s'))"
proof (cases "body s")
  case (Pair s' c)
  show ?thesis
  proof (cases c)
    case (Thrown e)
    obtain s2 c2 where h: "handler e s' = (s2, c2)" by (cases "handler e s'")
    with Pair Thrown show ?thesis by (cases c2) (simp_all add: try_catch_def settle_simps)
  qed (use Pair in \<open>simp_all add: try_catch_def settle_simps\<close>)
qed

lemma settle_delivers:
  assumes "delivers env R f"
  shows "\<exists>tail. closing env R w tail \<and> settle w (f s) = trace s @ tail"
proof -
  obtain s' c where fs: "f s = (s', c)" by (cases "f s")
  from deliversD [OF assms, of s] obtain es where es: "list_all building es"
    "case c of
       Normal \<Rightarrow> (\<exists>r. R r \<and> trace s' = trace s @ es @ [Report r])
     | Thrown e \<Rightarrow> \<not> can_build env \<and> trace s' = trace s @ es
     | Returned \<Rightarrow> False" by (auto simp: fs cong: ctl.case_cong)
  show ?thesis
  proof (cases c)
    case Normal
    with es obtain r where "R r" "trace s' = trace s @ es @ [Report r]" by auto
    with es(1) fs Normal show ?thesis
      by (intro exI [of _ "es @ [Report r]"]) (auto simp: closing_def settle_simps)
  next
    case Returned
    with es show ?thesis by simp
  next
    case (Thrown e)
    with es have "trace s' = trace s @ es" "\<not> can_build env" by simp_all
    with es(1) fs Thrown show ?thesis
      by (intro exI [of _ "es @ [SetFailed (w @ message e)]"])
         (auto simp: closing_def settle_simps)
  qed
qed

lemma settle_emit_Cons:
  "settle w (steps (emit ev # fs) s) = settle w (steps fs (s\<lparr>trace := trace s @ [ev]\<rparr>))"
  by (simp add: emit_def)

lemma settle_skip_Cons: "settle w (steps (skip # fs) s) = settle w (steps fs s)"
  by (simp add: skip_def)

lemma autobuild_error_sender:
  "delivers env (reports_error ''autobuild'' e) (autobuild_sendCompletedStatusReport env ls fl (Some e))"
  by (rule delivers_mono [OF autobuild_sender]) (simp add: reports_error_def status_of_error)

lemma autobuild_success_sender:
  "delivers env (reports_success ''autobuild'') (autobuild_sendCompletedStatusReport env ls None None)"
  by (rule delivers_mono [OF autobuild_sender])
     (simp add: reports_success_def getActionsStatus_def)

lemma autobuild_catch_settle:
  "\<exists>tail. closing env (reports_error ''autobuild'' e) w tail \<and>
     settle w (autobuild_catch env e s) =
       trace s @ SetFailed (autobuild_failed_prefix @ message e) # tail"
proof -
  let ?f = "\<lambda>s. autobuild_sendCompletedStatusReport env
                  (case langs s of None \<Rightarrow> [] | Some ls \<Rightarrow> ls) (currentLanguage s) (Some e) s"
  have "delivers env (reports_error ''autobuild'' e) ?f"
    by (rule delivers_reading [where g = "\<lambda>(ls, fl). autobuild_sendCompletedStatusReport env ls fl (Some e)"
          and v = "\<lambda>s. (case langs s of None \<Rightarrow> [] | Some ls \<Rightarrow> ls, currentLanguage s)",
          simplified])
       (simp add: autobuild_error_sender split: prod.splits)
  from settle_delivers [OF this, of w "s\<lparr>trace := trace s @
      [SetFailed (autobuild_failed_prefix @ message e)]\<rparr>"]
  show ?thesis
    by (simp add: autobuild_catch_def wrapError_def Let_def settle_emit_Cons steps_single
        del: steps.simps)
qed

lemma autobuild_completed_settle:
  "\<exists>tail. closing env (reports_success ''autobuild'') w tail \<and>
     settle w (autobuild_completed env s) = trace s @ tail"
proof -
  have "delivers env (reports_success ''autobuild'') (autobuild_completed env)"
    unfolding autobuild_completed_def
    by (rule delivers_reading [where g = "\<lambda>ls. autobuild_sendCompletedStatusReport env ls None None"])
       (rule autobuild_success_sender)
  from settle_delivers [OF this] show ?thesis .
qed

lemma report_starting_cases [case_names disk_check base rejected accepted]:
  obtains
    (disk_check) e where "fails env (CheckDiskUsage Starting) = Some e"
      "report_starting env n s =
         (s\<lparr>trace := trace s @ [Called (CheckDiskUsage Starting)]\<rparr>, Thrown e)"
  | (base) e where "fails env (CheckDiskUsage Starting) = None"
      "fails env (CreateStatusReportBase Starting) = Some e"
      "report_starting env n s =
         (s\<lparr>trace := trace s @ [Called (CheckDiskUsage Starting),
            Called (CreateStatusReportBase Starting)]\<rparr>, Thrown e)"
  | (rejected) "fails env (CheckDiskUsage Starting) = None"
      "fails env (CreateStatusReportBase Starting) = None" "\<not> sink env (starting_report n)"
      "report_starting env n s = (s\<lparr>trace := trace s @ start_events n\<rparr>, Returned)"
  | (accepted) "fails env (CheckDiskUsage Starting) = None"
      "fails env (CreateStatusReportBase Starting) = None" "sink env (starting_report n)"
      "report_starting env n s = (s\<lparr>trace := trace s @ start_events n\<rparr>, Normal)"
proof (cases "fails env (CheckDiskUsage Starting)")
  case (Some e)
  then show ?thesis
    by (intro disk_check [where e = e]) (simp_all add: report_starting_def invoke_def)
next
  case None
  show ?thesis
  proof (cases "fails env (CreateStatusReportBase Starting)")
    case (Some e)
    with None show ?thesis
      by (intro base [where e = e]) (simp_all add: report_starting_def invoke_def)
  next
    case base_ok: None
    show ?thesis
    proof (cases "sink env (starting_report n)")
      case True
      with None base_ok show ?thesis
        by (intro accepted)
           (simp_all add: report_starting_def invoke_def sendStatusReport_def start_events_def
             starting_report_def)
    next
      case False
      with None base_ok show ?thesis
        by (intro rejected)
           (simp_all add: report_starting_def invoke_def sendStatusReport_def start_events_def
             starting_report_def)
    qed
  qed
qed

lemma try_cases [consumes 1, case_names not_built rejected threw finished]:
  assumes body: "works Q (steps body)"
  obtains
    (not_built) e es where
      "fails env (CheckDiskUsage Starting) \<noteq> None \<or>
       fails env (CreateStatusReportBase Starting) \<noteq> None"
      "steps (report_starting env n # body) s = (s\<lparr>trace := trace s @ es\<rparr>, Thrown e)"
      "list_all building es"
  | (rejected) "fails env (CheckDiskUsage Starting) = None"
      "fails env (CreateStatusReportBase Starting) = None" "\<not> sink env (starting_report n)"
      "steps (report_starting env n # body) s = (s\<lparr>trace := trace s @ start_events n\<rparr>, Returned)"
  | (threw) e s' es where "fails env (CheckDiskUsage Starting) = None"
      "fails env (CreateStatusReportBase Starting) = None" "sink env (starting_report n)"
      "steps (report_starting env n # body) s = (s', Thrown e)"
      "steps body (s\<lparr>trace := trace s @ start_events n\<rparr>) = (s', Thrown e)"
      "trace s' = trace s @ start_events n @ es" "list_all benign es"
  | (finished) s' es where "fails env (CheckDiskUsage Starting) = None"
      "fails env (CreateStatusReportBase Starting) = None" "sink env (starting_report n)"
      "steps (report_starting env n # body) s = (s', Normal)"
      "steps body (s\<lparr>trace := trace s @ start_events n\<rparr>) = (s', Normal)"
      "trace s' = trace s @ start_events n @ es" "list_all no_report es"
      "Q \<longrightarrow> list_all benign es"
proof (cases env n s rule: report_starting_cases)
  case (disk_check e)
  then show ?thesis
    by (intro not_built [where e = e and es = "[Called (CheckDiskUsage Starting)]"])
       (simp_all add: building_simps)
next
  case (base e)
  then show ?thesis
    by (intro not_built [where e = e and es = "[Called (CheckDiskUsage Starting),
          Called (CreateStatusReportBase Starting)]"])
       (simp_all add: building_simps)
next
  case rejected
  then show ?thesis by (intro that(2)) simp_all
next
  case accepted
  let ?s1 = "s\<lparr>trace := trace s @ start_events n\<rparr>"
  obtain s' c where sc: "steps body ?s1 = (s', c)" by (cases "steps body ?s1")
  from accepted sc have whole: "steps (report_starting env n # body) s = (s', c)" by simp
  from worksD [OF body, of ?s1] sc obtain es where es: "trace s' = trace s @ start_events n @ es"
    "list_all no_report es" "c \<noteq> Normal \<or> Q \<longrightarrow> list_all benign es" by auto
  from works_no_return [OF body, of ?s1] sc have nr: "c \<noteq> Returned" by simp
  show ?thesis
  proof (cases c)
    case Normal
    with accepted sc whole es show ?thesis by (intro finished [where s' = s' and es = es]) simp_all
  next
    case Returned
    with nr show ?thesis by simp
  next
    case (Thrown e)
    with accepted sc whole es show ?thesis by (intro threw [where s' = s' and e = e and es = es]) simp_all
  qed
qed

lemma autobuild_wrapper_settle:
  "autobuild_runWrapper env =
     settle ''autobuild action failed. '' (autobuild_run env autobuild_initial)"
  by (simp add: autobuild_runWrapper_def settle_def split: prod.splits ctl.splits)

lemma autobuild_cases [case_names not_built rejected threw finished]:
  obtains
    (not_built) e es tail where
      "fails env (CheckDiskUsage Starting) \<noteq> None \<or>
       fails env (CreateStatusReportBase Starting) \<noteq> None"
      "list_all building es"
      "autobuild_runWrapper env = es @ SetFailed (autobuild_failed_prefix @ message e) # tail"
      "closing env (reports_error ''autobuild'' e) ''autobuild action failed. '' tail"
  | (rejected) "fails env (CheckDiskUsage Starting) = None"
      "fails env (CreateStatusReportBase Starting) = None"
      "\<not> sink env (starting_report ''autobuild'')"
      "autobuild_runWrapper env = start_events ''autobuild''"
  | (threw) e s' es tail where "fails env (CheckDiskUsage Starting) = None"
      "fails env (CreateStatusReportBase Starting) = None"
      "sink env (starting_report ''autobuild'')"
      "steps (autobuild_body env) autobuild_started = (s', Thrown e)"
      "trace s' = start_events ''autobuild'' @ es" "list_all benign es"
      "autobuild_runWrapper env =
         start_events ''autobuild'' @ es @ SetFailed (autobuild_failed_prefix @ message e) # tail"
      "closing env (reports_error ''autobuild'' e) ''autobuild action failed. '' tail"
  | (finished) s' es tail where "fails env (CheckDiskUsage Starting) = None"
      "fails env (CreateStatusReportBase Starting) = None"
      "sink env (starting_report ''autobuild'')"
      "steps (autobuild_body env) autobuild_started = (s', Normal)"
      "trace s' = start_events ''autobuild'' @ es" "list_all benign es"
      "autobuild_runWrapper env = start_events ''autobuild'' @ es @ tail"
      "closing env (reports_success ''autobuild'') ''autobuild action failed. '' tail"
proof -
  let ?w = "''autobuild action failed. ''"
  have start: "autobuild_initial\<lparr>trace := trace autobuild_initial @ start_events ''autobuild''\<rparr>
      = autobuild_started"
    by (simp add: autobuild_started_def autobuild_initial_def)
  have wrapper: "autobuild_runWrapper env =
      (case autobuild_try env autobuild_initial of
         (s', Normal) \<Rightarrow> settle ?w (autobuild_completed env s')
       | (s', Returned) \<Rightarrow> trace s'
       | (s', Thrown e) \<Rightarrow> settle ?w (autobuild_catch env e s'))"
    by (simp add: autobuild_wrapper_settle autobuild_run_def settle_try_catch)
  have body: "works True (steps (autobuild_body env))"
    by (rule adds_works [OF adds_autobuild_body])
  from body show ?thesis
  proof (cases rule: try_cases [where env = env and n = "''autobuild''"
        and s = autobuild_initial])
    case (not_built e es)
    from autobuild_catch_settle [where e = e and w = ?w and env = env
        and s = "autobuild_initial\<lparr>trace := trace autobuild_initial @ es\<rparr>"]
    obtain tail where "closing env (reports_error ''autobuild'' e) ?w tail"
      "settle ?w (autobuild_catch env e (autobuild_initial\<lparr>trace := trace autobuild_initial @ es\<rparr>))
         = es @ SetFailed (autobuild_failed_prefix @ message e) # tail"
      by (auto simp: autobuild_initial_def)
    with not_built show ?thesis
      by (intro that(1) [where es = es and e = e and tail = tail]) (simp_all add: wrapper autobuild_try_def del: steps.simps)
  next
    case rejected
    then show ?thesis
      by (intro that(2)) (simp_all add: wrapper autobuild_try_def autobuild_initial_def
          del: steps.simps)
  next
    case (threw e s' es)
    from autobuild_catch_settle [where e = e and w = ?w and env = env and s = s']
    obtain tail where "closing env (reports_error ''autobuild'' e) ?w tail"
      "settle ?w (autobuild_catch env e s') =
         trace s' @ SetFailed (autobuild_failed_prefix @ message e) # tail" by auto
    with threw show ?thesis
      by (intro that(3) [where s' = s' and e = e and es = es and tail = tail])
         (simp_all add: wrapper autobuild_try_def start [symmetric] autobuild_initial_def
           del: steps.simps)
  next
    case (finished s' es)
    from autobuild_completed_settle [where w = ?w and env = env and s = s']
    obtain tail where "closing env (reports_success ''autobuild'') ?w tail"
      "settle ?w (autobuild_completed env s') = trace s' @ tail" by auto
    with finished show ?thesis
      by (intro that(4) [where s' = s' and es = es and tail = tail])
         (simp_all add: wrapper autobuild_try_def start [symmetric] autobuild_initial_def
           del: steps.simps)
  qed
qed

lemma keeps_skip: "keeps I skip"
  by (simp add: keeps_def skip_def)

lemma keeps_throw: "keeps I (throw e)"
  by (simp add: keeps_def throw_def)

lemma keeps_require: "keeps I (require r)"
  by (simp add: keeps_def require_def split: sum.splits)

lemma keeps_with_required: "(\<And>v. keeps I (body v)) \<Longrightarrow> keeps I (with_required r body)"
  by (cases r) (simp_all add: keeps_def with_required_def)

lemma keeps_reading: "(\<And>v. keeps I (body v)) \<Longrightarrow> keeps I (reading var body)"
  by (simp add: keeps_def reading_def)

lemma keeps_require_config: "(\<And>cfg. keeps I (body cfg)) \<Longrightarrow> keeps I (require_config body)"
  unfolding require_config_def
  by (rule keeps_reading) (simp add: keeps_throw split: option.splits)

lemma keeps_steps_Nil: "keeps I (steps [])"
  by (simp add: keeps_def)

lemma keeps_steps_Cons: "keeps I f \<Longrightarrow> keeps I (steps fs) \<Longrightarrow> keeps I (steps (f # fs))"
  unfolding keeps_def
proof (intro allI impI)
  fix s
  assume f: "\<forall>s. I s \<longrightarrow> I (fst (f s))" and r: "\<forall>s. I s \<longrightarrow> I (fst (steps fs s))" and i: "I s"
  obtain s1 c where fs: "f s = (s1, c)" by (cases "f s")
  with f i have "I s1" by force
  with r fs show "I (fst (steps (f # fs) s))" by (cases c) simp_all
qed

lemma keeps_steps_append:
  "keeps I (steps xs) \<Longrightarrow> keeps I (steps ys) \<Longrightarrow> keeps I (steps (xs @ ys))"
  unfolding keeps_def steps_append
proof (intro allI impI)
  fix s
  assume f: "\<forall>s. I s \<longrightarrow> I (fst (steps xs s))" and r: "\<forall>s. I s \<longrightarrow> I (fst (steps ys s))"
    and i: "I s"
  obtain s1 c where fs: "steps xs s = (s1, c)" by (cases "steps xs s")
  with f i have "I s1" by force
  with r fs show "I (fst (case steps xs s of (s', Normal) \<Rightarrow> steps ys s' | r \<Rightarrow> r))"
    by (cases c) simp_all
qed

lemma keeps_if: "(b \<Longrightarrow> keeps I f) \<Longrightarrow> (\<not> b \<Longrightarrow> keeps I g) \<Longrightarrow> keeps I (if b then f else g)"
  by simp

lemma keeps_case_option:
  "(x = None \<Longrightarrow> keeps I f) \<Longrightarrow> (\<And>v. x = Some v \<Longrightarrow> keeps I (g v)) \<Longrightarrow>
   keeps I (case x of None \<Rightarrow> f | Some v \<Rightarrow> g v)"
  by (cases x) simp_all

lemma keeps_emit: "keeps (analyze_inv env) (emit ev)"
  by (simp add: keeps_def emit_def analyze_inv_def)

lemma keeps_invoke: "keeps (analyze_inv env) (invoke env' c)"
  by (simp add: keeps_def invoke_def analyze_inv_def)

lemma keeps_assign: "(\<And>s. analyze_inv env s \<Longrightarrow> analyze_inv env (store s)) \<Longrightarrow>
   keeps (analyze_inv env) (assign store)"
  by (simp add: keeps_def assign_def)

lemma keeps_invoke_then:
  "(\<And>s. analyze_inv env s \<Longrightarrow> analyze_inv env (store s)) \<Longrightarrow>
   keeps (analyze_inv env) (invoke_then env' c store)"
  by (simp add: keeps_def invoke_then_def invoke_def analyze_inv_def split: option.splits)

lemmas keeps_rules = keeps_skip keeps_throw keeps_require keeps_with_required keeps_reading
  keeps_require_config keeps_steps_Nil keeps_steps_Cons keeps_if keeps_case_option
  keeps_emit keeps_invoke keeps_assign keeps_invoke_then

lemma keeps_analyze_body: "keeps (analyze_inv env) (steps (analyze_body env))"
proof -
  have b: "keeps (analyze_inv env) (steps (analyze_build env cfg))" for cfg
    unfolding analyze_build_def check_go_wrapper_def run_queries_def
      runAutobuildIfLegacyGoWorkflow_def
    by (intro keeps_rules) (simp_all add: analyze_inv_def)
  have p: "keeps (analyze_inv env) (steps (analyze_publish env cfg outputDir))" for cfg outputDir
    unfolding analyze_publish_def set_outputs_def upload_results_def upload_trap_caches_def
      wait_for_processing_def
    by (intro keeps_rules) (simp_all add: analyze_inv_def)
  have e: "keeps (analyze_inv env) (steps (analyze_epilogue env))"
    unfolding analyze_epilogue_def by (intro keeps_rules)
  show ?thesis
    unfolding analyze_body_def load_config_def
    by (intro keeps_rules keeps_steps_append b p e) (simp_all add: analyze_inv_def)
qed

lemma analyze_error_sender:
  "delivers env (reports_analysis_error e)
     (\<lambda>s. case e of
        CodeQLAnalysisError queriesStatusReport m \<Rightarrow>
          analyze_sendStatusReport env (config s) (Some queriesStatusReport) (Some e)
            (trapCacheUploadTime s) (dbCreationTimings s) (didUploadTrapCaches s) s
      | _ \<Rightarrow>
          analyze_sendStatusReport env (config s) None (Some e)
            (trapCacheUploadTime s) (dbCreationTimings s) (didUploadTrapCaches s) s)"
proof -
  have a: "delivers env (reports_analysis_error e)
      (analyze_sendStatusReport env cfg (case e of CodeQLAnalysisError q m \<Rightarrow> Some q | _ \<Rightarrow> None)
         (Some e) t d u)" for cfg t d u
    by (rule delivers_mono [OF analyze_sender])
       (cases e; simp add: reports_analysis_error_def reports_error_def status_of_error stats_of_def)
  have "delivers env (reports_analysis_error e)
      (\<lambda>s. analyze_sendStatusReport env (config s)
         (case e of CodeQLAnalysisError q m \<Rightarrow> Some q | _ \<Rightarrow> None) (Some e)
         (trapCacheUploadTime s) (dbCreationTimings s) (didUploadTrapCaches s) s)"
    using a by (simp add: delivers_def)
  then show ?thesis by (cases e) simp_all
qed

lemma analyze_catch_settle:
  "\<exists>tail. closing env (reports_analysis_error e) w tail \<and>
     settle w (analyze_catch env e s) = trace s @ analyze_marks_failed env e @ tail"
proof (cases "getOptionalInput env ''expect-error'' \<noteq> Some ''true'' \<or> hasBadExpectErrorInput env")
  case True
  from settle_delivers [OF analyze_error_sender [where e = e and env = env],
      where s = "s\<lparr>trace := trace s @ [SetFailed (message e)]\<rparr>" and w = w]
  show ?thesis using True
    by (simp add: analyze_catch_def wrapError_def Let_def settle_emit_Cons steps_single
        analyze_marks_failed_def del: steps.simps)
next
  case False
  from settle_delivers [OF analyze_error_sender [where e = e and env = env],
      where s = s and w = w]
  show ?thesis using False
    by (simp add: analyze_catch_def wrapError_def Let_def settle_skip_Cons steps_single
        analyze_marks_failed_def del: steps.simps)
qed

lemma analyze_completed_sender:
  assumes "analyze_inv env s"
  shows "\<exists>f. analyze_completed env s = f s \<and> delivers env (reports_completion env) f"
proof -
  have none: "getActionsStatus None None = Success" by (simp add: getActionsStatus_def)
  have any: "getActionsStatus None x = Success \<or> getActionsStatus None x = Failure" for x
    by (simp add: getActionsStatus_def)
  have a: "no_failure_language env \<Longrightarrow>
           str_field (runQueries env) ''analyze_failure_language'' = None"
    by (simp add: no_failure_language_def str_field_def)
  have b: "no_failure_language env \<Longrightarrow>
           str_field (spread (runQueries env) (statusReport (uploadFromActions env)))
             ''analyze_failure_language'' = None"
    by (simp add: no_failure_language_def str_field_def spread_def map_add_def [symmetric]
        del: map_of_append)
       (simp add: map_add_def)
  let ?send = "\<lambda>stats. analyze_sendStatusReport env (config s) stats None
      (trapCacheUploadTime s) (dbCreationTimings s) (didUploadTrapCaches s)"
  show ?thesis
  proof (cases "runStats s")
    case None
    have "delivers env (reports_completion env) (?send None)"
      by (rule delivers_mono [OF analyze_sender]) (simp add: reports_completion_def none)
    with None show ?thesis by (intro exI [of _ "?send None"]) (simp add: analyze_completed_def)
  next
    case (Some stats)
    with assms have st: "stats = runQueries env" by (simp add: analyze_inv_def)
    show ?thesis
    proof (cases "uploadResult s")
      case None
      have "delivers env (reports_completion env) (?send (Some stats))"
        using any [of "str_field stats ''analyze_failure_language''"]
        by (intro delivers_mono [OF analyze_sender])
           (auto simp: reports_completion_def st a none)
      with None Some show ?thesis
        by (intro exI [of _ "?send (Some stats)"]) (simp add: analyze_completed_def)
    next
      case (Some up)
      with assms have up: "up = uploadFromActions env" by (simp add: analyze_inv_def)
      have "delivers env (reports_completion env) (?send (Some (spread stats (statusReport up))))"
        using any [of "str_field (spread stats (statusReport up)) ''analyze_failure_language''"]
        by (intro delivers_mono [OF analyze_sender])
           (auto simp: reports_completion_def st up b none)
      with Some \<open>runStats s = Some stats\<close> show ?thesis
        by (intro exI [of _ "?send (Some (spread stats (statusReport up)))"])
           (simp add: analyze_completed_def)
    qed
  qed
qed

lemma analyze_completed_settle:
  assumes "analyze_inv env s"
  shows "\<exists>tail. closing env (reports_completion env) w tail \<and>
     settle w (analyze_completed env s) = trace s @ tail"
proof -
  from analyze_completed_sender [OF assms] obtain f where
    f: "analyze_completed env s = f s" "delivers env (reports_completion env) f" by auto
  from settle_delivers [OF f(2), of w s] f(1) show ?thesis by simp
qed

lemma analyze_body_bad_input:
  assumes "hasBadExpectErrorInput env"
  shows "steps (analyze_body env) s =
    (case fails env GetConfig of
       Some e \<Rightarrow> (s\<lparr>trace := trace s @ [Called GetConfig]\<rparr>, Thrown e)
     | None \<Rightarrow>
        (case getConfig env of
           None \<Rightarrow> (s\<lparr>trace := trace s @ [Called GetConfig], config := None\<rparr>,
                     Thrown (Error config_missing_message))
         | Some cfg \<Rightarrow> (s\<lparr>trace := trace s @ [Called GetConfig], config := Some cfg\<rparr>,
                     Thrown (UserError expect_error_message))))"
  using assms
  by (simp add: analyze_body_def load_config_def invoke_then_def invoke_def require_config_def
      reading_def throw_def split: option.splits)

lemma analyze_wrapper_settle:
  "analyze_runWrapper env =
     settle ''analyze action failed: '' (analyze_run env analyze_initial) @
     [Called CheckForTimeout]"
  by (simp add: analyze_runWrapper_def settle_def split: prod.splits ctl.splits)

lemma analyze_cases [case_names env_threw not_built rejected threw finished]:
  obtains
    (env_threw) e where "fails env InitializeEnvironment = Some e"
      "analyze_runWrapper env =
         [Called InitializeEnvironment, SetFailed (''analyze action failed: '' @ message e),
          Called CheckForTimeout]"
  | (not_built) e es tail where "fails env InitializeEnvironment = None"
      "fails env (CheckDiskUsage Starting) \<noteq> None \<or>
       fails env (CreateStatusReportBase Starting) \<noteq> None"
      "list_all building es"
      "analyze_runWrapper env =
         Called InitializeEnvironment # es @ analyze_marks_failed env e @ tail @
         [Called CheckForTimeout]"
      "closing env (reports_analysis_error e) ''analyze action failed: '' tail"
      "snd (analyze_try env analyze_entered) = Thrown e"
  | (rejected) "fails env InitializeEnvironment = None"
      "fails env (CheckDiskUsage Starting) = None"
      "fails env (CreateStatusReportBase Starting) = None"
      "\<not> sink env (starting_report ''finish'')"
      "analyze_runWrapper env =
         Called InitializeEnvironment # start_events ''finish'' @ [Called CheckForTimeout]"
  | (threw) e s' es tail where "fails env InitializeEnvironment = None"
      "fails env (CheckDiskUsage Starting) = None"
      "fails env (CreateStatusReportBase Starting) = None"
      "sink env (starting_report ''finish'')"
      "steps (analyze_body env) analyze_started = (s', Thrown e)"
      "trace s' = Called InitializeEnvironment # start_events ''finish'' @ es"
      "list_all benign es"
      "analyze_runWrapper env =
         Called InitializeEnvironment # start_events ''finish'' @ es @
         analyze_marks_failed env e @ tail @ [Called CheckForTimeout]"
      "closing env (reports_analysis_error e) ''analyze action failed: '' tail"
      "snd (analyze_try env analyze_entered) = Thrown e"
  | (finished) s' es tail where "fails env InitializeEnvironment = None"
      "fails env (CheckDiskUsage Starting) = None"
      "fails env (CreateStatusReportBase Starting) = None"
      "sink env (starting_report ''finish'')"
      "steps (analyze_body env) analyze_started = (s', Normal)"
      "trace s' = Called InitializeEnvironment # start_events ''finish'' @ es"
      "list_all no_report es"
      "getOptionalInput env ''expect-error'' \<noteq> Some ''true'' \<longrightarrow> list_all benign es"
      "\<not> hasBadExpectErrorInput env"
      "analyze_runWrapper env =
         Called InitializeEnvironment # start_events ''finish'' @ es @ tail @
         [Called CheckForTimeout]"
      "closing env (reports_completion env) ''analyze action failed: '' tail"
      "snd (analyze_try env analyze_entered) = Normal"
proof (cases "fails env InitializeEnvironment")
  case (Some e)
  then show ?thesis
    by (intro env_threw [where e = e])
       (simp_all add: analyze_runWrapper_def analyze_run_def invoke_def analyze_initial_def
         wrapError_def)
next
  case None
  let ?w = "''analyze action failed: ''"
  have start: "analyze_entered\<lparr>trace := trace analyze_entered @ start_events ''finish''\<rparr>
      = analyze_started"
    by (simp add: analyze_started_def analyze_entered_def analyze_initial_def)
  have entered: "trace analyze_entered = [Called InitializeEnvironment]"
    by (simp add: analyze_entered_def)
  have run: "analyze_run env analyze_initial =
      try_catch (analyze_try env) (analyze_catch env) (analyze_completed env) analyze_entered"
  proof -
    have "trace analyze_initial = []" by (simp add: analyze_initial_def)
    with None show ?thesis
      by (simp add: analyze_run_def invoke_def analyze_entered_def
          split: prod.splits ctl.splits)
  qed
  have wrapper: "analyze_runWrapper env =
      (case analyze_try env analyze_entered of
         (s', Normal) \<Rightarrow> settle ?w (analyze_completed env s')
       | (s', Returned) \<Rightarrow> trace s'
       | (s', Thrown e) \<Rightarrow> settle ?w (analyze_catch env e s')) @ [Called CheckForTimeout]"
    by (simp add: analyze_wrapper_settle run settle_try_catch)
  from works_analyze_body [of env] show ?thesis
  proof (cases rule: try_cases [where env = env and n = "''finish''" and s = analyze_entered])
    case (not_built e es)
    from analyze_catch_settle [where e = e and w = ?w and env = env
        and s = "analyze_entered\<lparr>trace := trace analyze_entered @ es\<rparr>"]
    obtain tail where "closing env (reports_analysis_error e) ?w tail"
      "settle ?w (analyze_catch env e (analyze_entered\<lparr>trace := trace analyze_entered @ es\<rparr>))
         = Called InitializeEnvironment # es @ analyze_marks_failed env e @ tail"
      by (auto simp: entered)
    with not_built None show ?thesis
      by (intro that(2) [where es = es and e = e and tail = tail])
         (simp_all add: wrapper analyze_try_def del: steps.simps)
  next
    case rejected
    with None show ?thesis
      by (intro that(3)) (simp_all add: wrapper analyze_try_def entered del: steps.simps)
  next
    case (threw e s' es)
    from analyze_catch_settle [where e = e and w = ?w and env = env and s = s']
    obtain tail where "closing env (reports_analysis_error e) ?w tail"
      "settle ?w (analyze_catch env e s') = trace s' @ analyze_marks_failed env e @ tail" by auto
    with threw None show ?thesis
      by (intro that(4) [where s' = s' and e = e and es = es and tail = tail])
         (simp_all add: wrapper analyze_try_def start [symmetric] entered del: steps.simps)
  next
    case (finished s' es)
    have inv: "analyze_inv env s'"
    proof -
      have "analyze_inv env analyze_started"
        by (simp add: analyze_inv_def analyze_started_def analyze_initial_def)
      with keeps_analyze_body [of env] finished(5) show ?thesis
        by (force simp: keeps_def start)
    qed
    have ok: "\<not> hasBadExpectErrorInput env"
    proof
      assume "hasBadExpectErrorInput env"
      from analyze_body_bad_input [OF this, of analyze_started] finished(5) show False
        by (simp add: start split: option.splits)
    qed
    from analyze_completed_settle [OF inv, of ?w]
    obtain tail where "closing env (reports_completion env) ?w tail"
      "settle ?w (analyze_completed env s') = trace s' @ tail" by auto
    with finished None ok show ?thesis
      by (intro that(5) [where s' = s' and es = es and tail = tail])
         (simp_all add: wrapper analyze_try_def start [symmetric] entered del: steps.simps)
  qed
qed

lemma init_catch1_settle:
  "\<exists>tail. closing env (reports_failure e) w tail \<and>
     settle w (init_catch1 env e s) = trace s @ SetFailed (message e) # tail"
proof -
  let ?st = "if is_UserError e then UserErrorStatus else Aborted"
  have "delivers env (reports_failure e) (steps
      [ invoke env (CheckDiskUsage ?st), invoke env (CreateStatusReportBase ?st),
        send env (createStatusReportBase ''init'' ?st (Some (message e))) ]
      :: init_state step)"
    by (intro delivers_invoke_Cons delivers_last delivers_send)
       (simp_all add: building_simps createStatusReportBase_def reports_failure_def)
  from settle_delivers [OF this, of w "s\<lparr>trace := trace s @ [SetFailed (message e)]\<rparr>"]
  show ?thesis
    by (simp add: init_catch1_def wrapError_def Let_def settle_emit_Cons del: steps.simps)
qed

lemma init_error_sender:
  "delivers env (reports_failure e) (init_sendCompletedStatusReport env cfg dl fv src v (Some e))"
  by (rule delivers_mono [OF init_sender]) (simp add: reports_failure_def status_of_error)

lemma init_success_sender:
  "delivers env (reports_success ''init'') (init_sendCompletedStatusReport env cfg dl fv src v None)"
  by (rule delivers_mono [OF init_sender]) (simp add: reports_success_def getActionsStatus_def)

lemma init_catch2_settle:
  "\<exists>tail. closing env (reports_failure e) w tail \<and>
     settle w (init_catch2 env e s) = trace s @ SetFailed (message e) # tail"
proof -
  let ?f = "\<lambda>s. init_sendCompletedStatusReport env (config s) (toolsDownloadDurationMs s)
                  (toolsFeatureFlagsValid s) (toolsSource s) (toolsVersion s) (Some e) s"
  have "delivers env (reports_failure e) ?f"
    using init_error_sender [where e = e and env = env] by (simp add: delivers_def)
  from settle_delivers [OF this, of w "s\<lparr>trace := trace s @ [SetFailed (message e)]\<rparr>"]
  show ?thesis
    by (simp add: init_catch2_def wrapError_def Let_def settle_emit_Cons steps_single
        del: steps.simps)
qed

lemma init_completed_settle:
  "\<exists>tail. closing env (reports_success ''init'') w tail \<and>
     settle w (init_completed env s) = trace s @ tail"
proof -
  have "delivers env (reports_success ''init'') (init_completed env)"
    unfolding init_completed_def
    using init_success_sender [where env = env] by (simp add: delivers_def)
  from settle_delivers [OF this] show ?thesis .
qed

lemma init_wrapper_settle:
  "init_runWrapper env =
     settle ''init action failed: '' (init_run env init_initial) @ [Called CheckForTimeout]"
  by (simp add: init_runWrapper_def settle_def split: prod.splits ctl.splits)

lemma init_setup_benign: "list_all benign (trace (fst (init_setup env init_initial)))"
  using addsD [OF adds_init_setup, of env init_initial] by (auto simp: init_initial_def)

lemma init_cases [case_names setup_threw not_built rejected threw finished]:
  obtains
    (setup_threw) e where "snd (init_setup env init_initial) = Thrown e"
      "init_runWrapper env = trace (fst (init_setup env init_initial)) @
         [SetFailed (''init action failed: '' @ message e), Called CheckForTimeout]"
  | (not_built) e es tail where "snd (init_setup env init_initial) = Normal"
      "fails env (CheckDiskUsage Starting) \<noteq> None \<or>
       fails env (CreateStatusReportBase Starting) \<noteq> None"
      "list_all building es"
      "init_runWrapper env = trace (fst (init_setup env init_initial)) @
         es @ SetFailed (message e) # tail @ [Called CheckForTimeout]"
      "closing env (reports_failure e) ''init action failed: '' tail"
  | (rejected) "snd (init_setup env init_initial) = Normal"
      "fails env (CheckDiskUsage Starting) = None"
      "fails env (CreateStatusReportBase Starting) = None"
      "\<not> sink env (starting_report ''init'')"
      "init_runWrapper env = trace (fst (init_setup env init_initial)) @
         start_events ''init'' @ [Called CheckForTimeout]"
  | (threw) e es tail where "snd (init_setup env init_initial) = Normal"
      "fails env (CheckDiskUsage Starting) = None"
      "fails env (CreateStatusReportBase Starting) = None"
      "sink env (starting_report ''init'')"
      "list_all benign es"
      "init_runWrapper env = trace (fst (init_setup env init_initial)) @
         start_events ''init'' @ es @ SetFailed (message e) # tail @ [Called CheckForTimeout]"
      "closing env (reports_failure e) ''init action failed: '' tail"
  | (finished) es tail where "snd (init_setup env init_initial) = Normal"
      "fails env (CheckDiskUsage Starting) = None"
      "fails env (CreateStatusReportBase Starting) = None"
      "sink env (starting_report ''init'')"
      "list_all benign es"
      "init_runWrapper env = trace (fst (init_setup env init_initial)) @
         start_events ''init'' @ es @ tail @ [Called CheckForTimeout]"
      "closing env (reports_success ''init'') ''init action failed: '' tail"
proof -
  let ?w = "''init action failed: ''"
  let ?second = "reading config (\<lambda>c. case c of None \<Rightarrow> skip | Some cfg \<Rightarrow> init_try2 env cfg)"
  let ?main = "try_catch (init_try1 env) (init_catch1 env)
         (try_catch ?second (init_catch2 env) (init_completed env))"
  obtain s0 c0 where su: "init_setup env init_initial = (s0, c0)"
    by (cases "init_setup env init_initial")
  from adds_no_return [OF adds_init_setup, of env init_initial] su
  have nr0: "c0 \<noteq> Returned" by simp
  show ?thesis
  proof (cases c0)
    case Returned
    with nr0 show ?thesis by simp
  next
    case (Thrown e)
    with su show ?thesis
      by (intro setup_threw [where e = e])
         (simp_all add: init_wrapper_settle init_run_def settle_simps)
  next
    case Normal
    have wrapper: "init_runWrapper env =
      (case init_try1 env s0 of
         (s', Normal) \<Rightarrow>
           (case ?second s' of
              (s'', Normal) \<Rightarrow> settle ?w (init_completed env s'')
            | (s'', Returned) \<Rightarrow> trace s''
            | (s'', Thrown e) \<Rightarrow> settle ?w (init_catch2 env e s''))
       | (s', Returned) \<Rightarrow> trace s'
       | (s', Thrown e) \<Rightarrow> settle ?w (init_catch1 env e s')) @ [Called CheckForTimeout]"
    proof -
      have "init_run env init_initial = ?main s0"
        using su Normal by (simp add: init_run_def split: prod.splits ctl.splits)
      then show ?thesis
        by (simp add: init_wrapper_settle settle_try_catch
            cong: prod.case_cong ctl.case_cong)
    qed
    have body: "works True (steps (init_body1 env))"
      by (rule adds_works [OF adds_init_body1])
    from body show ?thesis
    proof (cases rule: try_cases [where env = env and n = "''init''" and s = s0])
      case (not_built e es)
      from init_catch1_settle [where e = e and w = ?w and env = env
          and s = "s0\<lparr>trace := trace s0 @ es\<rparr>"]
      obtain tail where "closing env (reports_failure e) ?w tail"
        "settle ?w (init_catch1 env e (s0\<lparr>trace := trace s0 @ es\<rparr>))
           = trace s0 @ es @ SetFailed (message e) # tail" by auto
      with not_built su Normal show ?thesis
        by (intro that(2) [where es = es and e = e and tail = tail])
           (simp_all add: wrapper init_try1_def del: steps.simps)
    next
      case rejected
      with su Normal show ?thesis
        by (intro that(3)) (simp_all add: wrapper init_try1_def del: steps.simps)
    next
      case (threw e s' es)
      from init_catch1_settle [where e = e and w = ?w and env = env and s = s']
      obtain tail where "closing env (reports_failure e) ?w tail"
        "settle ?w (init_catch1 env e s') = trace s' @ SetFailed (message e) # tail" by auto
      with threw su Normal show ?thesis
        by (intro that(4) [where e = e and es = es and tail = tail])
           (simp_all add: wrapper init_try1_def del: steps.simps)
    next
      case (finished s' es)
      then have es: "list_all benign es" by simp
      have second: "adds benign ?second"
        by (intro adds_rules adds_init_try2)
      obtain s2 c2 where sc2: "?second s' = (s2, c2)" by (cases "?second s'")
      from addsD [OF second, of s'] sc2 obtain es2 where
        es2: "trace s2 = trace s' @ es2" "list_all benign es2" by auto
      from adds_no_return [OF second, of s'] sc2 have nr2: "c2 \<noteq> Returned" by simp
      have all: "list_all benign (es @ es2)" using es es2 by simp
      show ?thesis
      proof (cases c2)
        case Returned
        with nr2 show ?thesis by simp
      next
        case (Thrown e)
        from init_catch2_settle [where e = e and w = ?w and env = env and s = s2]
        obtain tail where "closing env (reports_failure e) ?w tail"
          "settle ?w (init_catch2 env e s2) = trace s2 @ SetFailed (message e) # tail" by auto
        with finished su \<open>c0 = Normal\<close> sc2 Thrown es2 all show ?thesis
          by (intro that(4) [where e = e and es = "es @ es2" and tail = tail])
             (simp_all add: wrapper init_try1_def del: steps.simps)
      next
        case Normal
        from init_completed_settle [where w = ?w and env = env and s = s2]
        obtain tail where "closing env (reports_success ''init'') ?w tail"
          "settle ?w (init_completed env s2) = trace s2 @ tail" by auto
        with finished su \<open>c0 = Normal\<close> sc2 Normal es2 all show ?thesis
          by (intro that(5) [where es = "es @ es2" and tail = tail])
             (simp_all add: wrapper init_try1_def del: steps.simps)
      qed
    qed
  qed
qed

lemma reports_append: "reports (xs @ ys) = reports xs @ reports ys"
  by (simp add: reports_def)

lemma reports_benign: "list_all benign es \<Longrightarrow> reports es = []"
proof (induction es)
  case Nil
  show ?case by (simp add: reports_def)
next
  case (Cons ev es)
  then show ?case by (cases ev) (simp_all add: reports_def benign_def is_Report_def)
qed

lemma reports_no_report: "list_all no_report es \<Longrightarrow> reports es = []"
proof (induction es)
  case Nil
  show ?case by (simp add: reports_def)
next
  case (Cons ev es)
  then show ?case by (cases ev) (simp_all add: reports_def no_report_def is_Report_def)
qed

lemma reports_Cons:
  "reports (Report r # tr) = r # reports tr" "reports (SetFailed m # tr) = reports tr"
  "reports (Called c # tr) = reports tr" "reports [] = []"
  by (simp_all add: reports_def)

lemma benign_not_failed: "list_all benign es \<Longrightarrow> \<not> list_ex is_SetFailed es"
  by (induction es) (simp_all add: benign_def)

lemma starting_status [simp]: "status (starting_report n) = Starting"
  by (simp add: starting_report_def createStatusReportBase_def)

lemma is_SetFailed_simps [simp]:
  "is_SetFailed (SetFailed m)" "\<not> is_SetFailed (Report r)" "\<not> is_SetFailed (Called c)"
  by (simp_all add: is_SetFailed_def)

lemma exit_code_benign: "list_all benign es \<Longrightarrow> exit_code (es @ tr) = exit_code tr"
  by (simp add: exit_code_def benign_not_failed)

lemma endsWith_iff: "endsWith f ext \<longleftrightarrow> (\<exists>stem. f = stem @ ext)"
  unfolding endsWith_def
proof
  assume a: "length ext \<le> length f \<and> drop (length f - length ext) f = ext"
  have "f = take (length f - length ext) f @ drop (length f - length ext) f" by simp
  with a show "\<exists>stem. f = stem @ ext" by metis
next
  assume "\<exists>stem. f = stem @ ext"
  then obtain stem where "f = stem @ ext" ..
  then show "length ext \<le> length f \<and> drop (length f - length ext) f = ext" by simp
qed

lemma emitted_skip: "emitted skip s = []"
  by (simp add: emitted_def skip_def)

lemma emitted_emit: "emitted (emit ev) s = [ev]"
  by (simp add: emitted_def emit_def)

lemma emitted_invoke: "emitted (invoke env c) s = [Called c]"
  by (simp add: emitted_def invoke_def)

lemma quiet_simps:
  "quiet (Called c)" "quiet (Warning m)" "quiet (ExportVariable k v)" "quiet (SetOutput k j)"
  "quiet (AddPath p)" "\<not> quiet (SetFailed m)" "quiet (Report r) = (status r = Starting)"
  by (simp_all add: quiet_def)

lemma benign_quiet: "list_all benign es \<Longrightarrow> list_all quiet es"
proof -
  have "benign ev \<Longrightarrow> quiet ev" for ev
    by (cases ev) (simp_all add: benign_def quiet_def is_SetFailed_def is_Report_def)
  then show "list_all benign es \<Longrightarrow> list_all quiet es" by (simp add: list_all_iff)
qed

lemma building_quiet: "list_all building es \<Longrightarrow> list_all quiet es"
  by (rule benign_quiet [OF building_all_benign])

lemma start_events_quiet: "list_all quiet (start_events n)"
  by (simp add: start_events_def quiet_simps)

lemma completed_append:
  "completed_reports (xs @ ys) = completed_reports xs @ completed_reports ys"
  by (simp add: completed_reports_def reports_append)

lemma completed_quiet: "list_all quiet es \<Longrightarrow> completed_reports es = []"
proof (induction es)
  case Nil
  show ?case by (simp add: completed_reports_def reports_def)
next
  case (Cons ev es)
  then show ?case by (cases ev) (simp_all add: completed_reports_def reports_def quiet_def)
qed

lemma completed_simps:
  "completed_reports [] = []" "completed_reports (SetFailed m # tr) = completed_reports tr"
  "completed_reports (Called c # tr) = completed_reports tr"
  "completed_reports (Report r # tr) =
     (if status r = Starting then completed_reports tr else r # completed_reports tr)"
  by (simp_all add: completed_reports_def reports_def)

lemma quiet_not_failed: "list_all quiet es \<Longrightarrow> \<not> list_ex is_SetFailed es"
proof (induction es)
  case Nil
  show ?case by simp
next
  case (Cons ev es)
  then show ?case by (cases ev) (simp_all add: quiet_def is_SetFailed_def)
qed






lemma reports_quiet_benign: "list_all building es \<Longrightarrow> reports es = []"
  by (rule reports_benign [OF building_all_benign])

lemma reports_start_events: "reports (start_events n) = [starting_report n]"
  by (simp add: start_events_def reports_Cons)

lemma reports_closing:
  assumes "closing env R w tail" and "\<And>r. R r \<Longrightarrow> status r \<noteq> Starting"
  shows "reports tail = [] \<or> (\<exists>r. reports tail = [r] \<and> status r \<noteq> Starting)"
proof -
  from assms(1) obtain es where es: "list_all building es"
    and alt: "(\<exists>r. R r \<and> tail = es @ [Report r]) \<or> (\<exists>e. tail = es @ [SetFailed (w @ message e)])"
    by (auto simp: closing_def)
  from alt show ?thesis
  proof
    assume "\<exists>r. R r \<and> tail = es @ [Report r]"
    then obtain r where r: "R r" "tail = es @ [Report r]" by auto
    with assms(2) [OF r(1)] es show ?thesis
      by (simp add: reports_append reports_quiet_benign reports_Cons)
  next
    assume "\<exists>e. tail = es @ [SetFailed (w @ message e)]"
    then obtain e where "tail = es @ [SetFailed (w @ message e)]" by auto
    with es show ?thesis by (simp add: reports_append reports_quiet_benign reports_Cons)
  qed
qed

lemma report_kinds:
  "reports_error n e r \<Longrightarrow> status r \<noteq> Starting \<and> status r \<noteq> Success"
  "reports_analysis_error e r \<Longrightarrow> status r \<noteq> Starting \<and> status r \<noteq> Success"
  "reports_failure e r \<Longrightarrow> status r \<noteq> Starting \<and> status r \<noteq> Success"
  "reports_success n r \<Longrightarrow> status r = Success"
  "reports_completion env r \<Longrightarrow> status r \<noteq> Starting"
  by (auto simp: reports_error_def reports_analysis_error_def reports_failure_def
      reports_success_def reports_completion_def)

lemma haltsD:
  "halts c e P f \<Longrightarrow>
   \<exists>es. trace (fst (f s)) = trace s @ es \<and>
        (Called c \<in> set es \<longrightarrow> snd (f s) = Thrown e \<and> list_all P es)"
  by (simp add: halts_def)

lemma halts_no_return: "halts c e P f \<Longrightarrow> snd (f s) \<noteq> Returned"
  by (simp add: halts_def)

lemma halts_pass:
  assumes "adds (\<lambda>ev. P ev \<and> ev \<noteq> Called c) f"
  shows "halts c e P f"
  unfolding halts_def
proof (intro allI conjI)
  fix s
  show "snd (f s) \<noteq> Returned" by (rule adds_no_return [OF assms])
  from addsD [OF assms, of s] obtain es where
    "trace (fst (f s)) = trace s @ es" "list_all (\<lambda>ev. P ev \<and> ev \<noteq> Called c) es" by auto
  then show "\<exists>es. trace (fst (f s)) = trace s @ es \<and>
        (Called c \<in> set es \<longrightarrow> snd (f s) = Thrown e \<and> list_all P es)"
    by (intro exI [of _ es]) (auto simp: list_all_iff)
qed

lemma halts_then_pass:
  assumes f: "adds (\<lambda>ev. P ev \<and> ev \<noteq> Called c) f" and g: "halts c e P g"
  shows "halts c e P (\<lambda>s. case f s of (s', Normal) \<Rightarrow> g s' | r \<Rightarrow> r)"
  unfolding halts_def
proof (intro allI conjI)
  fix s
  obtain s1 cf where fs: "f s = (s1, cf)" by (cases "f s")
  from adds_no_return [OF f, of s] fs have nr: "cf \<noteq> Returned" by simp
  from addsD [OF f, of s] fs obtain es where es: "trace s1 = trace s @ es"
    "list_all (\<lambda>ev. P ev \<and> ev \<noteq> Called c) es" by auto
  let ?h = "\<lambda>s. case f s of (s', Normal) \<Rightarrow> g s' | r \<Rightarrow> r"
  show "snd (?h s) \<noteq> Returned"
    using fs nr halts_no_return [OF g] by (cases cf) simp_all
  show "\<exists>es. trace (fst (?h s)) = trace s @ es \<and>
        (Called c \<in> set es \<longrightarrow> snd (?h s) = Thrown e \<and> list_all P es)"
  proof (cases cf)
    case Normal
    from haltsD [OF g, of s1] obtain es' where
      es': "trace (fst (g s1)) = trace s1 @ es'"
        "Called c \<in> set es' \<longrightarrow> snd (g s1) = Thrown e \<and> list_all P es'" by auto
    with es Normal fs show ?thesis
      by (intro exI [of _ "es @ es'"]) (auto simp: list_all_iff)
  next
    case Returned
    with nr show ?thesis by simp
  next
    case (Thrown x)
    with es fs show ?thesis by (intro exI [of _ es]) (auto simp: list_all_iff)
  qed
qed

lemma halts_then_here:
  assumes f: "halts c e P f" and g: "adds (\<lambda>ev. ev \<noteq> Called c) g"
  shows "halts c e P (\<lambda>s. case f s of (s', Normal) \<Rightarrow> g s' | r \<Rightarrow> r)"
  unfolding halts_def
proof (intro allI conjI)
  fix s
  obtain s1 cf where fs: "f s = (s1, cf)" by (cases "f s")
  from halts_no_return [OF f, of s] fs have nr: "cf \<noteq> Returned" by simp
  from haltsD [OF f, of s] fs obtain es where es: "trace s1 = trace s @ es"
    "Called c \<in> set es \<longrightarrow> cf = Thrown e \<and> list_all P es" by auto
  let ?h = "\<lambda>s. case f s of (s', Normal) \<Rightarrow> g s' | r \<Rightarrow> r"
  show "snd (?h s) \<noteq> Returned"
    using fs nr adds_no_return [OF g] by (cases cf) simp_all
  show "\<exists>es. trace (fst (?h s)) = trace s @ es \<and>
        (Called c \<in> set es \<longrightarrow> snd (?h s) = Thrown e \<and> list_all P es)"
  proof (cases cf)
    case Normal
    from addsD [OF g, of s1] obtain es' where
      es': "trace (fst (g s1)) = trace s1 @ es'" "list_all (\<lambda>ev. ev \<noteq> Called c) es'" by auto
    with es Normal fs show ?thesis
      by (intro exI [of _ "es @ es'"]) (auto simp: list_all_iff)
  next
    case Returned
    with nr show ?thesis by simp
  next
    case (Thrown x)
    with es fs show ?thesis by (intro exI [of _ es]) auto
  qed
qed

lemma halts_Cons_pass:
  "adds (\<lambda>ev. P ev \<and> ev \<noteq> Called c) f \<Longrightarrow> halts c e P (steps fs) \<Longrightarrow>
   halts c e P (steps (f # fs))"
  using halts_then_pass [of P c f e "steps fs"] by (simp add: halts_def)

lemma halts_Cons_here:
  "halts c e P f \<Longrightarrow> adds (\<lambda>ev. ev \<noteq> Called c) (steps fs) \<Longrightarrow> halts c e P (steps (f # fs))"
  using halts_then_here [of c e P f "steps fs"] by (simp add: halts_def)

lemma halts_append_pass:
  "adds (\<lambda>ev. P ev \<and> ev \<noteq> Called c) (steps xs) \<Longrightarrow> halts c e P (steps ys) \<Longrightarrow>
   halts c e P (steps (xs @ ys))"
  using halts_then_pass [of P c "steps xs" e "steps ys"] by (simp add: halts_def steps_append)

lemma halts_append_here:
  "halts c e P (steps xs) \<Longrightarrow> adds (\<lambda>ev. ev \<noteq> Called c) (steps ys) \<Longrightarrow>
   halts c e P (steps (xs @ ys))"
  using halts_then_here [of c e P "steps xs" "steps ys"] by (simp add: halts_def steps_append)

lemma halts_last: "halts c e P f \<Longrightarrow> halts c e P (steps [f])"
  by (simp only: steps_single)

lemma halts_invoke_then:
  "fails env c = Some e \<Longrightarrow> P (Called c) \<Longrightarrow> halts c e P (invoke_then env c store)"
  by (simp add: halts_def invoke_then_def invoke_def)

lemma halts_with_required: "(\<And>v. halts c e P (body v)) \<Longrightarrow> halts c e P (with_required r body)"
  by (cases r) (simp_all add: halts_def with_required_def)

lemma halts_require_config:
  "(\<And>cfg. halts c e P (body cfg)) \<Longrightarrow> halts c e P (require_config body)"
  by (simp add: halts_def require_config_def reading_def throw_def split: option.splits)

lemma adds_go_workflow_any:
  "P (Called (RunAutobuild ''go'')) \<Longrightarrow> P (Warning go_tracing_warning) \<Longrightarrow>
   adds P (runAutobuildIfLegacyGoWorkflow env cfg)"
  unfolding runAutobuildIfLegacyGoWorkflow_def
  by (intro adds_rules) simp_all

lemma adds_go_wrapper_check_any:
  "P (Called SafeWhich) \<Longrightarrow> P (Warning go_wrapper_warning) \<Longrightarrow> adds P (check_go_wrapper env)"
  unfolding check_go_wrapper_def
  by (intro adds_rules) simp_all

lemma publishes_simps:
  "\<not> publishes (Called GetThreadsFlag)" "\<not> publishes (Called ParseRepositoryNwo)"
  "\<not> publishes (Called GetGitHubVersion)" "\<not> publishes (Called GetMemoryFlag)"
  "\<not> publishes (Called SafeWhich)" "\<not> publishes (Warning m)"
  "\<not> publishes (Called (RunAutobuild l))" "\<not> publishes (Called RunFinalize)"
  "\<not> publishes (Called GetAddSnippetsFlag)" "\<not> publishes (Called RunQueries)"
  "\<not> publishes (Called GetConfig)" "\<not> publishes (Called GetApiDetails)"
  "\<not> publishes (Called CheckForTimeout)" "\<not> publishes (Called InitializeEnvironment)"
  "\<not> publishes (SetFailed m)" "\<not> publishes (Report r)"
  by (simp_all add: publishes_def)

lemma building_not_publishes: "building ev \<Longrightarrow> \<not> publishes ev"
  by (cases ev) (auto simp: building_def publishes_def split: call.splits)

lemma halts_queries_body:
  assumes f: "fails env RunQueries = Some e"
  shows "halts RunQueries e (\<lambda>ev. \<not> publishes ev) (steps (analyze_body env))"
proof -
  let ?P = "\<lambda>ev. \<not> publishes ev"
  have asked: "halts RunQueries e ?P (steps
      [ require (getRequiredInput env ''add-snippets''),
        invoke env GetAddSnippetsFlag,
        invoke_then env RunQueries (\<lambda>s. s\<lparr>runStats := Some (runQueries env)\<rparr>) ])"
    apply (rule halts_Cons_pass)
     apply (rule adds_require)
    apply (rule halts_Cons_pass)
     apply (rule adds_invoke)
     apply (simp add: publishes_simps)
    apply (rule halts_last)
    apply (rule halts_invoke_then)
     apply (simp_all add: f publishes_simps)
    done
  have skipped: "halts RunQueries e ?P (skip :: analyze_state step)"
    by (rule halts_pass [OF adds_skip])
  have queries: "halts RunQueries e ?P (run_queries env)"
    unfolding run_queries_def
    by (rule halts_with_required) (simp add: asked skipped)
  have build: "halts RunQueries e ?P (steps (analyze_build env cfg))" for cfg
    unfolding analyze_build_def
    apply (rule halts_Cons_pass, rule adds_invoke, simp add: publishes_simps)
    apply (rule halts_Cons_pass, rule adds_require)
    apply (rule halts_Cons_pass, rule adds_invoke, simp add: publishes_simps)
    apply (rule halts_Cons_pass, rule adds_invoke, simp add: publishes_simps)
    apply (rule halts_Cons_pass, rule adds_invoke, simp add: publishes_simps)
    apply (rule halts_Cons_pass, rule adds_go_wrapper_check_any, simp_all add: publishes_simps)
    apply (rule halts_Cons_pass, rule adds_go_workflow_any, simp_all add: publishes_simps)
    apply (rule halts_Cons_pass, rule adds_invoke_then, simp_all add: publishes_simps)
    apply (rule halts_last)
    apply (rule queries)
    done
  have rest: "adds (\<lambda>ev. ev \<noteq> Called RunQueries)
      (steps (analyze_publish env cfg outputDir @ analyze_epilogue env))" for cfg outputDir
    unfolding analyze_publish_def analyze_epilogue_def set_outputs_def upload_results_def
      upload_trap_caches_def wait_for_processing_def
    by (intro adds_steps_append; intro adds_rules; simp)
  have work: "halts RunQueries e ?P
      (steps (analyze_build env cfg @ analyze_publish env cfg outputDir @ analyze_epilogue env))"
    for cfg outputDir
    by (rule halts_append_here [OF build rest])
  have guarded: "halts RunQueries e ?P (steps
         [ (if hasBadExpectErrorInput env then throw (UserError expect_error_message) else skip),
           invoke env GetApiDetails,
           with_required (getRequiredInput env ''output'') (\<lambda>outputDir.
             steps (analyze_build env cfg @ analyze_publish env cfg outputDir @
                    analyze_epilogue env)) ])" for cfg
    apply (rule halts_Cons_pass)
     apply (simp add: adds_throw adds_skip)
    apply (rule halts_Cons_pass)
     apply (rule adds_invoke, simp add: publishes_simps)
    apply (rule halts_last)
    apply (rule halts_with_required)
    apply (rule work)
    done
  show ?thesis
    unfolding analyze_body_def
    apply (rule halts_Cons_pass)
     apply (simp add: load_config_def adds_invoke_then publishes_simps)
    apply (rule halts_last)
    apply (rule halts_require_config)
    apply (rule guarded)
    done
qed

lemma halts_trap_upload_body:
  assumes f: "fails env UploadTrapCaches = Some e"
  shows "halts UploadTrapCaches e (\<lambda>ev. ev \<noteq> Called WaitForProcessing)
           (steps (analyze_body env))"
proof -
  let ?P = "\<lambda>ev. ev \<noteq> Called WaitForProcessing"
  have build: "adds (\<lambda>ev. ?P ev \<and> ev \<noteq> Called UploadTrapCaches) (steps (analyze_build env cfg))"
    for cfg
    unfolding analyze_build_def check_go_wrapper_def run_queries_def
      runAutobuildIfLegacyGoWorkflow_def
    by (intro adds_rules; simp)
  have upload: "halts UploadTrapCaches e ?P (upload_trap_caches env)"
    unfolding upload_trap_caches_def
    apply (rule halts_Cons_pass, rule adds_invoke, simp)
    apply (rule halts_Cons_here)
     apply (rule halts_invoke_then, simp_all add: f)
    apply (intro adds_rules; simp)
    done
  have wait: "adds (\<lambda>ev. ev \<noteq> Called UploadTrapCaches) (steps [wait_for_processing env])"
    unfolding wait_for_processing_def
    by (intro adds_rules; simp)
  have publish: "halts UploadTrapCaches e ?P (steps (analyze_publish env cfg outputDir))"
    for cfg outputDir
    unfolding analyze_publish_def
    apply (rule halts_Cons_pass, simp add: adds_invoke adds_skip)
    apply (rule halts_Cons_pass, unfold set_outputs_def, (intro adds_rules; simp))
    apply (rule halts_Cons_pass, unfold upload_results_def, (intro adds_rules; simp))
    apply (rule halts_Cons_pass, rule adds_invoke, simp)
    apply (rule halts_Cons_here)
     apply (rule upload)
    apply (rule wait)
    done
  have epilogue: "adds (\<lambda>ev. ev \<noteq> Called UploadTrapCaches) (steps (analyze_epilogue env))"
    unfolding analyze_epilogue_def
    by (intro adds_rules; simp)
  have work: "halts UploadTrapCaches e ?P
      (steps (analyze_build env cfg @ analyze_publish env cfg outputDir @ analyze_epilogue env))"
    for cfg outputDir
    by (rule halts_append_pass [OF build halts_append_here [OF publish epilogue]])
  have guarded: "halts UploadTrapCaches e ?P (steps
         [ (if hasBadExpectErrorInput env then throw (UserError expect_error_message) else skip),
           invoke env GetApiDetails,
           with_required (getRequiredInput env ''output'') (\<lambda>outputDir.
             steps (analyze_build env cfg @ analyze_publish env cfg outputDir @
                    analyze_epilogue env)) ])" for cfg
    apply (rule halts_Cons_pass)
     apply (simp add: adds_throw adds_skip)
    apply (rule halts_Cons_pass)
     apply (rule adds_invoke, simp)
    apply (rule halts_last)
    apply (rule halts_with_required)
    apply (rule work)
    done
  show ?thesis
    unfolding analyze_body_def
    apply (rule halts_Cons_pass)
     apply (simp add: load_config_def adds_invoke_then)
    apply (rule halts_last)
    apply (rule halts_require_config)
    apply (rule guarded)
    done
qed

lemma closing_calls: "closing env R w tail \<Longrightarrow> Called c \<in> set tail \<Longrightarrow> building (Called c)"
  by (auto simp: closing_def list_all_iff)

lemma closing_events:
  "closing env R w tail \<Longrightarrow> ev \<in> set tail \<Longrightarrow> building ev \<or> is_Report ev \<or> is_SetFailed ev"
  by (auto simp: closing_def list_all_iff is_Report_def is_SetFailed_def)

lemma closing_completed:
  assumes "closing env R w tail" "\<And>r. R r \<Longrightarrow> status r \<noteq> Starting"
  shows "(\<forall>r \<in> set (completed_reports tail). R r) \<and>
         (completed_reports tail = [] \<longrightarrow> list_ex is_SetFailed tail) \<and>
         (completed_reports tail \<noteq> [] \<longrightarrow>
            \<not> list_ex is_SetFailed tail \<and> (\<exists>r. completed_reports tail = [r])) \<and>
         (can_build env \<longrightarrow> completed_reports tail \<noteq> [])"
proof -
  from assms(1) obtain es where es: "list_all building es"
    and alt: "(\<exists>r. R r \<and> tail = es @ [Report r]) \<or>
      (\<not> can_build env \<and> (\<exists>e. tail = es @ [SetFailed (w @ message e)]))"
    by (auto simp: closing_def)
  note q = building_quiet [OF es]
  from alt show ?thesis
  proof
    assume "\<exists>r. R r \<and> tail = es @ [Report r]"
    then obtain r where r: "R r" "tail = es @ [Report r]" by auto
    with assms(2) [OF r(1)] q quiet_not_failed [OF q] show ?thesis
      by (simp add: completed_append completed_quiet completed_simps)
  next
    assume "\<not> can_build env \<and> (\<exists>e. tail = es @ [SetFailed (w @ message e)])"
    then obtain e where "tail = es @ [SetFailed (w @ message e)]" "\<not> can_build env" by auto
    with q show ?thesis
      by (simp add: completed_append completed_quiet completed_simps)
  qed
qed

lemma exit_code_quiet: "list_all quiet tr \<Longrightarrow> exit_code tr = 0"
  by (simp add: exit_code_def quiet_not_failed)

lemma exit_code_failed: "SetFailed m \<in> set tr \<Longrightarrow> exit_code tr = 1"
  by (auto simp: exit_code_def list_ex_iff intro!: bexI [of _ "SetFailed m"])

lemma trace_analyze_started:
  "trace analyze_started = Called InitializeEnvironment # start_events ''finish''"
  by (simp add: analyze_started_def)

lemma marks_events: "ev \<in> set (analyze_marks_failed env e) \<Longrightarrow> ev = SetFailed (message e)"
  by (simp add: analyze_marks_failed_def split: if_splits)

lemma start_events_calls: "Called c \<in> set (start_events n) \<Longrightarrow> building (Called c)"
  by (auto simp: start_events_def building_simps)

lemma analyze_call_fails:
  assumes h: "halts c e P (steps (analyze_body env))"
    and nb: "\<not> building (Called c)" "c \<noteq> CheckForTimeout"
    and called: "Called c \<in> set (analyze_runWrapper env)"
  obtains es tail where
    "analyze_runWrapper env =
       Called InitializeEnvironment # start_events ''finish'' @ es @
       analyze_marks_failed env e @ tail @ [Called CheckForTimeout]"
    "list_all P es" "list_all benign es"
    "closing env (reports_analysis_error e) ''analyze action failed: '' tail"
    "snd (analyze_try env analyze_entered) = Thrown e"
proof (cases env rule: analyze_cases)
  case (env_threw x)
  with called nb show ?thesis by (auto simp: building_simps)
next
  case (not_built x es tail)
  with called nb closing_calls [OF not_built(5), of c] marks_events [of "Called c" env x]
  show ?thesis by (auto simp: building_simps list_all_iff)
next
  case rejected
  with called nb start_events_calls [of c "''finish''"] show ?thesis
    by (auto simp: building_simps)
next
  case (threw x s' es tail)
  from called nb threw closing_calls [OF threw(9), of c] marks_events [of "Called c" env x]
    start_events_calls [of c "''finish''"]
  have inside: "Called c \<in> set es" by (auto simp: building_simps)
  from haltsD [OF h, of analyze_started] threw(5,6) inside
  have "x = e" "list_all P es" by (auto simp: trace_analyze_started)
  with threw show ?thesis by (intro that [of es tail]) simp_all
next
  case (finished s' es tail)
  from called nb finished closing_calls [OF finished(11), of c]
    start_events_calls [of c "''finish''"]
  have inside: "Called c \<in> set es" by (auto simp: building_simps)
  from haltsD [OF h, of analyze_started] finished(5,6) inside
  show ?thesis by (auto simp: trace_analyze_started)
qed

lemma trap_eq_fields:
  "trap_eq s s' \<Longrightarrow> trace s' = trace s \<and> config s' = config s \<and> runStats s' = runStats s \<and>
     uploadResult s' = uploadResult s \<and> dbCreationTimings s' = dbCreationTimings s"
  unfolding trap_eq_def
  by (cases s, cases s') auto

lemma trap_eq_refl: "trap_eq s s"
  by (simp add: trap_eq_def)

lemma trap_eq_update:
  "trap_eq s s' \<Longrightarrow> trap_eq (s\<lparr>trace := t\<rparr>) (s'\<lparr>trace := t\<rparr>)"
  "trap_eq s s' \<Longrightarrow> trap_eq (s\<lparr>config := c\<rparr>) (s'\<lparr>config := c\<rparr>)"
  "trap_eq s s' \<Longrightarrow> trap_eq (s\<lparr>runStats := q\<rparr>) (s'\<lparr>runStats := q\<rparr>)"
  "trap_eq s s' \<Longrightarrow> trap_eq (s\<lparr>uploadResult := u\<rparr>) (s'\<lparr>uploadResult := u\<rparr>)"
  "trap_eq s s' \<Longrightarrow> trap_eq (s\<lparr>dbCreationTimings := d\<rparr>) (s'\<lparr>dbCreationTimings := d\<rparr>)"
  "trap_eq s s' \<Longrightarrow>
     trap_eq (s\<lparr>didUploadTrapCaches := b\<rparr>) (s'\<lparr>didUploadTrapCaches := b'\<rparr>)"
  "trap_eq s s' \<Longrightarrow>
     trap_eq (s\<lparr>trapCacheUploadTime := x\<rparr>) (s'\<lparr>trapCacheUploadTime := x'\<rparr>)"
  unfolding trap_eq_def
  by (cases s, cases s', auto)+

lemma simD:
  "sim f g \<Longrightarrow> trap_eq s s' \<Longrightarrow> trap_eq (fst (f s)) (fst (g s')) \<and> snd (f s) = snd (g s')"
  by (simp add: sim_def)

lemma sim_skip: "sim skip skip"
  by (simp add: sim_def skip_def)

lemma sim_throw: "sim (throw e) (throw e)"
  by (simp add: sim_def throw_def)

lemma sim_require: "sim (require r) (require r)"
  by (simp add: sim_def require_def split: sum.splits)

lemma sim_emit: "sim (emit ev) (emit ev)"
  by (simp add: sim_def emit_def trap_eq_update trap_eq_fields)

lemma sim_invoke: "sim (invoke env c) (invoke env c)"
  by (simp add: sim_def invoke_def trap_eq_update trap_eq_fields)

lemma sim_assign:
  "(\<And>s s'. trap_eq s s' \<Longrightarrow> trap_eq (st s) (st' s')) \<Longrightarrow> sim (assign st) (assign st')"
  by (simp add: sim_def assign_def)

lemma sim_invoke_then:
  "(\<And>s s'. trap_eq s s' \<Longrightarrow> trap_eq (st s) (st' s')) \<Longrightarrow>
   sim (invoke_then env c st) (invoke_then env c st')"
  by (simp add: sim_def invoke_then_def invoke_def trap_eq_update trap_eq_fields
      split: option.splits)

lemma sim_with_required:
  "(\<And>v. sim (body v) (body' v)) \<Longrightarrow> sim (with_required r body) (with_required r body')"
  by (cases r) (simp_all add: sim_def with_required_def)

lemma sim_reading:
  "(\<And>s s'. trap_eq s s' \<Longrightarrow> var s' = var s) \<Longrightarrow> (\<And>v. sim (body v) (body' v)) \<Longrightarrow>
   sim (reading var body) (reading var body')"
  by (simp add: sim_def reading_def)

lemma sim_require_config:
  "(\<And>cfg. sim (body cfg) (body' cfg)) \<Longrightarrow> sim (require_config body) (require_config body')"
  unfolding require_config_def
  by (rule sim_reading) (simp_all add: trap_eq_fields sim_throw split: option.splits)

lemma sim_then:
  assumes f: "sim f g" and r: "sim f2 g2"
  shows "sim (\<lambda>s. case f s of (s', Normal) \<Rightarrow> f2 s' | r \<Rightarrow> r)
             (\<lambda>s. case g s of (s', Normal) \<Rightarrow> g2 s' | r \<Rightarrow> r)"
  unfolding sim_def
proof (intro allI impI)
  fix s s'
  assume e: "trap_eq s s'"
  obtain s1 c where fs: "f s = (s1, c)" by (cases "f s")
  obtain s1' c' where gs: "g s' = (s1', c')" by (cases "g s'")
  from simD [OF f e] fs gs have e1: "trap_eq s1 s1'" and c: "c' = c" by simp_all
  show "trap_eq (fst (case f s of (s', Normal) \<Rightarrow> f2 s' | r \<Rightarrow> r))
          (fst (case g s' of (s', Normal) \<Rightarrow> g2 s' | r \<Rightarrow> r)) \<and>
        snd (case f s of (s', Normal) \<Rightarrow> f2 s' | r \<Rightarrow> r) =
        snd (case g s' of (s', Normal) \<Rightarrow> g2 s' | r \<Rightarrow> r)"
    using fs gs c e1 simD [OF r e1] by (cases c) simp_all
qed

lemma sim_steps_Nil: "sim (steps []) (steps [])"
  by (simp add: sim_def)

lemma sim_steps_Cons:
  "sim f g \<Longrightarrow> sim (steps fs) (steps gs) \<Longrightarrow> sim (steps (f # fs)) (steps (g # gs))"
  using sim_then [of f g "steps fs" "steps gs"] by (simp add: sim_def)

lemma sim_steps_append:
  "sim (steps fs) (steps gs) \<Longrightarrow> sim (steps fs2) (steps gs2) \<Longrightarrow>
   sim (steps (fs @ fs2)) (steps (gs @ gs2))"
  using sim_then [of "steps fs" "steps gs" "steps fs2" "steps gs2"]
  by (simp add: sim_def steps_append)

lemma sim_if:
  "(c \<Longrightarrow> sim f g) \<Longrightarrow> (\<not> c \<Longrightarrow> sim f2 g2) \<Longrightarrow>
   sim (if c then f else f2) (if c then g else g2)"
  by simp

lemma sim_case_option:
  "(x = None \<Longrightarrow> sim f g) \<Longrightarrow> (\<And>v. x = Some v \<Longrightarrow> sim (f2 v) (g2 v)) \<Longrightarrow>
   sim (case x of None \<Rightarrow> f | Some v \<Rightarrow> f2 v) (case x of None \<Rightarrow> g | Some v \<Rightarrow> g2 v)"
  by (cases x) simp_all

lemmas sim_rules = sim_skip sim_throw sim_require sim_emit sim_invoke sim_assign
  sim_invoke_then sim_with_required sim_reading sim_require_config sim_steps_Nil sim_steps_Cons
  sim_if sim_case_option

lemma trap_indep:
  "invoke (env\<lparr>uploadTrapCaches := b, trapCacheUploadDuration := d\<rparr>) c = invoke env c"
  "invoke_then (env\<lparr>uploadTrapCaches := b, trapCacheUploadDuration := d\<rparr>) c st =
     invoke_then env c st"
  "getOptionalInput (env\<lparr>uploadTrapCaches := b, trapCacheUploadDuration := d\<rparr>) n =
     getOptionalInput env n"
  "getRequiredInput (env\<lparr>uploadTrapCaches := b, trapCacheUploadDuration := d\<rparr>) n =
     getRequiredInput env n"
  "getRequiredEnvParam (env\<lparr>uploadTrapCaches := b, trapCacheUploadDuration := d\<rparr>) n =
     getRequiredEnvParam env n"
  "hasBadExpectErrorInput (env\<lparr>uploadTrapCaches := b, trapCacheUploadDuration := d\<rparr>) =
     hasBadExpectErrorInput env"
  "doesGoExtractionOutputExist (env\<lparr>uploadTrapCaches := b, trapCacheUploadDuration := d\<rparr>) cfg =
     doesGoExtractionOutputExist env cfg"
  "send (env\<lparr>uploadTrapCaches := b, trapCacheUploadDuration := d\<rparr>) = send env"
  "sendStatusReport (env\<lparr>uploadTrapCaches := b, trapCacheUploadDuration := d\<rparr>) r s =
     sendStatusReport env r s"
  by (simp_all add: fun_eq_iff invoke_def invoke_then_def getOptionalInput_def
      getRequiredInput_def getRequiredEnvParam_def hasBadExpectErrorInput_def
      doesGoExtractionOutputExist_def send_def sendStatusReport_def Let_def
      cong: sum.case_cong if_cong)

lemma trap_indep_steps:
  "load_config (env\<lparr>uploadTrapCaches := b, trapCacheUploadDuration := d\<rparr>) = load_config env"
  "check_go_wrapper (env\<lparr>uploadTrapCaches := b, trapCacheUploadDuration := d\<rparr>) =
     check_go_wrapper env"
  "runAutobuildIfLegacyGoWorkflow (env\<lparr>uploadTrapCaches := b, trapCacheUploadDuration := d\<rparr>) cfg =
     runAutobuildIfLegacyGoWorkflow env cfg"
  "run_queries (env\<lparr>uploadTrapCaches := b, trapCacheUploadDuration := d\<rparr>) = run_queries env"
  "set_outputs (env\<lparr>uploadTrapCaches := b, trapCacheUploadDuration := d\<rparr>) cfg outputDir =
     set_outputs env cfg outputDir"
  "upload_results (env\<lparr>uploadTrapCaches := b, trapCacheUploadDuration := d\<rparr>) =
     upload_results env"
  "wait_for_processing (env\<lparr>uploadTrapCaches := b, trapCacheUploadDuration := d\<rparr>) =
     wait_for_processing env"
  "analyze_epilogue (env\<lparr>uploadTrapCaches := b, trapCacheUploadDuration := d\<rparr>) =
     analyze_epilogue env"
  "report_starting (env\<lparr>uploadTrapCaches := b, trapCacheUploadDuration := d\<rparr>) n =
     report_starting env n"
  "analyze_sendStatusReport (env\<lparr>uploadTrapCaches := b, trapCacheUploadDuration := d\<rparr>)
     co stats err t' dt u = analyze_sendStatusReport env co stats err t' dt u"
  by (simp_all add: load_config_def check_go_wrapper_def runAutobuildIfLegacyGoWorkflow_def
      run_queries_def set_outputs_def upload_results_def wait_for_processing_def
      analyze_epilogue_def report_starting_def analyze_sendStatusReport_def trap_indep Let_def
      cong: option.case_cong if_cong)

lemma sim_same:
  "sim (check_go_wrapper env) (check_go_wrapper env)"
  "sim (runAutobuildIfLegacyGoWorkflow env cfg) (runAutobuildIfLegacyGoWorkflow env cfg)"
  "sim (run_queries env) (run_queries env)"
  "sim (set_outputs env cfg outputDir) (set_outputs env cfg outputDir)"
  "sim (upload_results env) (upload_results env)"
  "sim (wait_for_processing env) (wait_for_processing env)"
  "sim (steps (analyze_epilogue env)) (steps (analyze_epilogue env))"
  "sim (load_config env) (load_config env)"
  unfolding check_go_wrapper_def runAutobuildIfLegacyGoWorkflow_def run_queries_def
    set_outputs_def upload_results_def wait_for_processing_def analyze_epilogue_def
    load_config_def
  by (intro sim_rules; simp add: trap_eq_update trap_eq_fields)+

lemma sim_upload_trap_caches:
  "sim (upload_trap_caches env)
       (upload_trap_caches (env\<lparr>uploadTrapCaches := b, trapCacheUploadDuration := d\<rparr>))"
  unfolding upload_trap_caches_def trap_indep
  by (intro sim_rules; simp add: trap_eq_update)

lemma analyze_build_trap:
  "analyze_build (env\<lparr>uploadTrapCaches := b, trapCacheUploadDuration := d\<rparr>) cfg =
     analyze_build env cfg"
  by (simp add: analyze_build_def trap_indep trap_indep_steps)

lemma sim_analyze_build: "sim (steps (analyze_build env cfg)) (steps (analyze_build env cfg))"
  unfolding analyze_build_def
  by (intro sim_steps_Cons sim_steps_Nil sim_same sim_invoke sim_require sim_invoke_then)
     (simp_all add: trap_eq_update)

lemma analyze_publish_trap:
  "analyze_publish (env\<lparr>uploadTrapCaches := b, trapCacheUploadDuration := d\<rparr>) cfg outputDir =
     [ (if getOptionalInput env ''cleanup-level'' \<noteq> Some ''none''
        then invoke env RunCleanup else skip),
       set_outputs env cfg outputDir,
       upload_results env,
       invoke env UploadDatabases,
       upload_trap_caches (env\<lparr>uploadTrapCaches := b, trapCacheUploadDuration := d\<rparr>),
       wait_for_processing env ]"
  by (simp add: analyze_publish_def trap_indep trap_indep_steps cong: if_cong)

lemma sim_analyze_publish:
  "sim (steps (analyze_publish env cfg outputDir))
       (steps (analyze_publish (env\<lparr>uploadTrapCaches := b, trapCacheUploadDuration := d\<rparr>)
          cfg outputDir))"
  unfolding analyze_publish_trap
  unfolding analyze_publish_def
  by (intro sim_steps_Cons sim_steps_Nil sim_same sim_upload_trap_caches sim_invoke
      sim_if sim_skip)

lemma analyze_body_trap:
  "analyze_body (env\<lparr>uploadTrapCaches := b, trapCacheUploadDuration := d\<rparr>) =
     [ load_config env,
       require_config (\<lambda>cfg. steps
         [ (if hasBadExpectErrorInput env then throw (UserError expect_error_message) else skip),
           invoke env GetApiDetails,
           with_required (getRequiredInput env ''output'') (\<lambda>outputDir.
             steps (analyze_build env cfg @
                    analyze_publish (env\<lparr>uploadTrapCaches := b, trapCacheUploadDuration := d\<rparr>)
                      cfg outputDir @ analyze_epilogue env)) ]) ]"
  by (simp add: analyze_body_def trap_indep trap_indep_steps analyze_build_trap cong: if_cong)

lemma sim_analyze_body:
  "sim (steps (analyze_body env))
       (steps (analyze_body (env\<lparr>uploadTrapCaches := b, trapCacheUploadDuration := d\<rparr>)))"
  unfolding analyze_body_trap
  unfolding analyze_body_def
  by (intro sim_steps_Cons sim_steps_Nil sim_same sim_require_config sim_with_required
      sim_steps_append sim_analyze_build sim_analyze_publish sim_if sim_throw sim_skip sim_invoke)

lemma sim_report_starting: "sim (report_starting env n) (report_starting env n)"
  unfolding report_starting_def
  by (intro sim_steps_Cons sim_steps_Nil sim_invoke)
     (simp add: sim_def sendStatusReport_def trap_eq_update trap_eq_fields)

lemma sim_analyze_try:
  "sim (analyze_try env)
       (analyze_try (env\<lparr>uploadTrapCaches := b, trapCacheUploadDuration := d\<rparr>))"
  unfolding analyze_try_def trap_indep_steps
  by (intro sim_steps_Cons sim_report_starting sim_analyze_body)

lemma hide_append: "hide_trap_upload (xs @ ys) = hide_trap_upload xs @ hide_trap_upload ys"
  by (simp add: hide_trap_upload_def)

lemma hide_simps:
  "hide_trap_upload [] = []"
  "hide_trap_upload (SetFailed m # tr) = SetFailed m # hide_trap_upload tr"
  "c \<noteq> GetTotalCacheSize \<Longrightarrow> hide_trap_upload (Called c # tr) = Called c # hide_trap_upload tr"
  "hide_trap_upload (Called GetTotalCacheSize # tr) = hide_trap_upload tr"
  by (simp_all add: hide_trap_upload_def)

lemma exit_code_hide: "exit_code (hide_trap_upload tr) = exit_code tr"
proof -
  have "list_ex is_SetFailed (hide_trap_upload tr) = list_ex is_SetFailed tr"
    by (induction tr) (auto simp: hide_trap_upload_def is_SetFailed_def split: event.splits)
  then show ?thesis by (simp add: exit_code_def)
qed

lemma reports_hide:
  "map (\<lambda>r. (action_name r, status r, cause r)) (reports (hide_trap_upload tr)) =
   map (\<lambda>r. (action_name r, status r, cause r)) (reports tr)"
  by (induction tr) (auto simp: hide_trap_upload_def reports_def split: event.splits)

lemma settle_alt:
  "settle w r =
     trace (fst r) @ (case snd r of Thrown e \<Rightarrow> [SetFailed (w @ message e)] | _ \<Rightarrow> [])"
  by (cases r) (simp add: settle_def wrapError_def split: ctl.splits)

lemma hide_simI:
  assumes "\<And>s s'. hide_trap_upload (trace s) = hide_trap_upload (trace s') \<Longrightarrow>
             hide_trap_upload (trace (fst (f s))) = hide_trap_upload (trace (fst (g s'))) \<and>
             snd (f s) = snd (g s')"
  shows "hide_sim f g"
  using assms unfolding hide_sim_def by blast

lemma hide_simD:
  "hide_sim f g \<Longrightarrow> hide_trap_upload (trace s) = hide_trap_upload (trace s') \<Longrightarrow>
     hide_trap_upload (trace (fst (f s))) = hide_trap_upload (trace (fst (g s'))) \<and>
     snd (f s) = snd (g s')"
  unfolding hide_sim_def by blast

lemma hide_sim_invoke: "hide_sim (invoke env c) (invoke env c)"
  by (rule hide_simI) (simp add: invoke_def hide_append)

lemma hide_sim_skip: "hide_sim skip skip"
  by (rule hide_simI) (simp add: skip_def)

lemma hide_sim_steps_Nil: "hide_sim (steps []) (steps [])"
  by (rule hide_simI) simp

lemma hide_sim_steps_Cons:
  assumes "hide_sim f g" "hide_sim (steps fs) (steps gs)"
  shows "hide_sim (steps (f # fs)) (steps (g # gs))"
proof (rule hide_simI)
  fix s s' :: analyze_state
  assume h: "hide_trap_upload (trace s) = hide_trap_upload (trace s')"
  obtain s1 c1 where f: "f s = (s1, c1)" by (cases "f s")
  obtain s2 c2 where g: "g s' = (s2, c2)" by (cases "g s'")
  from hide_simD [OF assms(1) h] f g
  have h1: "hide_trap_upload (trace s1) = hide_trap_upload (trace s2)" and c: "c2 = c1"
    by simp_all
  show "hide_trap_upload (trace (fst (steps (f # fs) s))) =
          hide_trap_upload (trace (fst (steps (g # gs) s'))) \<and>
        snd (steps (f # fs) s) = snd (steps (g # gs) s')"
  proof (cases c1)
    case Normal
    with f g c hide_simD [OF assms(2) h1] show ?thesis by simp
  next
    case Returned
    with f g c h1 show ?thesis by simp
  next
    case (Thrown e)
    with f g c h1 show ?thesis by simp
  qed
qed

lemma hide_sim_send:
  assumes "r\<lparr>stage_fields := filter (\<lambda>kv. \<not> trap_upload_field kv) (stage_fields r)\<rparr> =
           r'\<lparr>stage_fields := filter (\<lambda>kv. \<not> trap_upload_field kv) (stage_fields r')\<rparr>"
  shows "hide_sim (send env r) (send env r')"
proof (rule hide_simI)
  fix s s' :: analyze_state
  assume h: "hide_trap_upload (trace s) = hide_trap_upload (trace s')"
  have "hide_trap_upload [Report r] = hide_trap_upload [Report r']"
    using assms by (simp add: hide_trap_upload_def)
  with h show "hide_trap_upload (trace (fst (send env r s))) =
          hide_trap_upload (trace (fst (send env r' s'))) \<and>
        snd (send env r s) = snd (send env r' s')"
    by (simp add: send_def sendStatusReport_def hide_append)
qed

lemma hide_sim_total_left:
  assumes "fails env GetTotalCacheSize = None" "hide_sim (send env r) (send env r')"
  shows "hide_sim (steps [invoke env GetTotalCacheSize, send env r]) (send env r')"
proof (rule hide_simI)
  fix s s' :: analyze_state
  assume h: "hide_trap_upload (trace s) = hide_trap_upload (trace s')"
  let ?s = "s\<lparr>trace := trace s @ [Called GetTotalCacheSize]\<rparr>"
  have "hide_trap_upload (trace ?s) = hide_trap_upload (trace s')"
    using h by (simp add: hide_append hide_simps)
  from hide_simD [OF assms(2) this]
  have "hide_trap_upload (trace (fst (send env r ?s))) =
          hide_trap_upload (trace (fst (send env r' s'))) \<and>
        snd (send env r ?s) = snd (send env r' s')" .
  moreover have "steps [invoke env GetTotalCacheSize, send env r] s = send env r ?s"
    using assms(1) by (simp add: invoke_def send_def)
  ultimately show "hide_trap_upload (trace (fst (steps [invoke env GetTotalCacheSize, send env r] s))) =
          hide_trap_upload (trace (fst (send env r' s'))) \<and>
        snd (steps [invoke env GetTotalCacheSize, send env r] s) = snd (send env r' s')"
    by simp
qed

lemma hide_sim_sym: "hide_sim f g \<Longrightarrow> hide_sim g f"
  unfolding hide_sim_def by metis

lemma hide_sim_trans: "hide_sim f g \<Longrightarrow> hide_sim g h \<Longrightarrow> hide_sim f h"
  unfolding hide_sim_def by metis

lemma hide_sim_total_right:
  assumes "fails env GetTotalCacheSize = None" "hide_sim (send env r) (send env r')"
  shows "hide_sim (send env r) (steps [invoke env GetTotalCacheSize, send env r'])"
  by (rule hide_sim_sym [OF hide_sim_total_left [OF assms(1) hide_sim_sym [OF assms(2)]]])

lemma hide_sim_total_both:
  assumes "fails env GetTotalCacheSize = None" "hide_sim (send env r) (send env r')"
  shows "hide_sim (steps [invoke env GetTotalCacheSize, send env r])
                  (steps [invoke env GetTotalCacheSize, send env r'])"
  by (rule hide_sim_trans [OF hide_sim_total_left [OF assms] hide_sim_total_right [OF assms(1)]])
     (rule hide_sim_send, simp)

lemma hide_trap_fields:
  "r\<lparr>stage_fields := filter (\<lambda>kv. \<not> trap_upload_field kv)
        (stage_fields (r\<lparr>stage_fields := spread (stage_fields r)
           [(''trap_cache_upload_duration_ms'', a), (''trap_cache_upload_size_bytes'', b)]\<rparr>))\<rparr> =
   r\<lparr>stage_fields := filter (\<lambda>kv. \<not> trap_upload_field kv) (stage_fields r)\<rparr>"
  by (simp add: spread_def trap_upload_field_def)

lemma hide_sim_send_trap:
  "hide_sim (send env (r\<lparr>stage_fields := spread (stage_fields r)
       [(''trap_cache_upload_duration_ms'', a), (''trap_cache_upload_size_bytes'', b)]\<rparr>))
     (send env r)"
  "hide_sim (send env r)
     (send env (r\<lparr>stage_fields := spread (stage_fields r)
       [(''trap_cache_upload_duration_ms'', a), (''trap_cache_upload_size_bytes'', b)]\<rparr>))"
  "hide_sim (send env (r\<lparr>stage_fields := spread (stage_fields r)
       [(''trap_cache_upload_duration_ms'', a), (''trap_cache_upload_size_bytes'', b)]\<rparr>))
     (send env (r\<lparr>stage_fields := spread (stage_fields r)
       [(''trap_cache_upload_duration_ms'', a'), (''trap_cache_upload_size_bytes'', b')]\<rparr>))"
  "hide_sim (send env r) (send env r)"
  by (rule hide_sim_send, simp add: spread_def trap_upload_field_def)+

lemma hide_sim_sender:
  assumes "fails env GetTotalCacheSize = None"
  shows "hide_sim (analyze_sendStatusReport env cfg stats err t d u)
                  (analyze_sendStatusReport env cfg stats err t' d u')"
proof (cases cfg)
  case None
  show ?thesis
    unfolding analyze_sendStatusReport_def Let_def None option.case
    by (intro hide_sim_steps_Cons hide_sim_steps_Nil hide_sim_invoke hide_sim_skip
        hide_sim_send_trap)
next
  case (Some c)
  show ?thesis
    unfolding analyze_sendStatusReport_def Let_def Some option.case
    apply (intro hide_sim_steps_Cons hide_sim_steps_Nil hide_sim_invoke)
    apply (cases u; cases u')
       apply (simp_all only: if_True if_False)
       apply (rule hide_sim_total_both [OF assms] hide_sim_total_left [OF assms]
                   hide_sim_total_right [OF assms] hide_sim_send_trap, rule hide_sim_send_trap)+
    apply (rule hide_sim_send_trap)
    done
qed

lemma sender_hide:
  assumes "fails env GetTotalCacheSize = None" "trace s' = trace s"
  shows "hide_trap_upload (trace (fst (analyze_sendStatusReport env cfg stats err t d u s))) =
         hide_trap_upload (trace (fst (analyze_sendStatusReport env cfg stats err t' d u' s'))) \<and>
         snd (analyze_sendStatusReport env cfg stats err t d u s) =
         snd (analyze_sendStatusReport env cfg stats err t' d u' s')"
  by (rule hide_simD [OF hide_sim_sender [OF assms(1)]]) (simp add: assms(2))

lemma sender_settle_hide:
  assumes "fails env GetTotalCacheSize = None" "trace s' = trace s"
  shows "hide_trap_upload (settle w (analyze_sendStatusReport env cfg stats err t d u s)) =
         hide_trap_upload (settle w (analyze_sendStatusReport env cfg stats err t' d u' s'))"
  using sender_hide [OF assms, of cfg stats err t d u t' u']
  by (simp add: settle_alt hide_append)

lemma completed_settle_hide:
  assumes "fails env GetTotalCacheSize = None" "trap_eq s s'"
  shows "hide_trap_upload (settle w (analyze_completed env s')) =
         hide_trap_upload (settle w (analyze_completed env s))"
proof -
  note f = trap_eq_fields [OF assms(2)]
  have send: "hide_trap_upload (settle w
        (analyze_sendStatusReport env (config s) stats None (trapCacheUploadTime s')
           (dbCreationTimings s) (didUploadTrapCaches s') s')) =
      hide_trap_upload (settle w
        (analyze_sendStatusReport env (config s) stats None (trapCacheUploadTime s)
           (dbCreationTimings s) (didUploadTrapCaches s) s))" for stats
    by (rule sender_settle_hide [OF assms(1)]) (simp add: f)
  show ?thesis
    unfolding analyze_completed_def
    by (simp add: f send split: option.splits)
qed

lemma catch_settle_hide:
  assumes "fails env GetTotalCacheSize = None" "trap_eq s s'"
  shows "hide_trap_upload (settle w (analyze_catch env x s')) =
         hide_trap_upload (settle w (analyze_catch env x s))"
proof -
  note f = trap_eq_fields [OF assms(2)]
  have send: "hide_trap_upload (settle w
        (analyze_sendStatusReport env (config s) stats y (trapCacheUploadTime s')
           (dbCreationTimings s) (didUploadTrapCaches s') (s'\<lparr>trace := trace s @ es\<rparr>))) =
      hide_trap_upload (settle w
        (analyze_sendStatusReport env (config s) stats y (trapCacheUploadTime s)
           (dbCreationTimings s) (didUploadTrapCaches s) (s\<lparr>trace := trace s @ es\<rparr>)))"
    for stats es y
    by (rule sender_settle_hide [OF assms(1)]) simp
  have send0: "hide_trap_upload (settle w
        (analyze_sendStatusReport env (config s) stats y (trapCacheUploadTime s')
           (dbCreationTimings s) (didUploadTrapCaches s') s')) =
      hide_trap_upload (settle w
        (analyze_sendStatusReport env (config s) stats y (trapCacheUploadTime s)
           (dbCreationTimings s) (didUploadTrapCaches s) s))"
    for stats y
    by (rule sender_settle_hide [OF assms(1)]) (simp add: f)
  show ?thesis
    by (cases x)
       (simp_all add: analyze_catch_def wrapError_def Let_def settle_emit_Cons settle_skip_Cons
         steps_single f send send0 del: steps.simps)
qed

lemma analyze_handlers_trap:
  "analyze_catch (env\<lparr>uploadTrapCaches := b, trapCacheUploadDuration := d\<rparr>) = analyze_catch env"
  "analyze_completed (env\<lparr>uploadTrapCaches := b, trapCacheUploadDuration := d\<rparr>) =
     analyze_completed env"
  by (simp_all add: fun_eq_iff analyze_catch_def analyze_completed_def trap_indep
      trap_indep_steps Let_def cong: option.case_cong if_cong error.case_cong)

lemma analyze_run_hide:
  assumes "fails env GetTotalCacheSize = None"
  shows "hide_trap_upload
           (analyze_runWrapper (env\<lparr>uploadTrapCaches := b, trapCacheUploadDuration := d\<rparr>)) =
         hide_trap_upload (analyze_runWrapper env)"
proof -
  let ?env' = "env\<lparr>uploadTrapCaches := b, trapCacheUploadDuration := d\<rparr>"
  let ?w = "''analyze action failed: ''"
  show ?thesis
  proof (cases "fails env InitializeEnvironment")
    case (Some e)
    then show ?thesis
      by (simp add: analyze_runWrapper_def analyze_run_def invoke_def)
  next
    case None
    have run: "analyze_run env0 analyze_initial =
        try_catch (analyze_try env0) (analyze_catch env0) (analyze_completed env0) analyze_entered"
      if "fails env0 InitializeEnvironment = None" for env0
    proof -
      have "trace analyze_initial = []" by (simp add: analyze_initial_def)
      with that show ?thesis
        by (simp add: analyze_run_def invoke_def analyze_entered_def
            split: prod.splits ctl.splits)
    qed
    obtain s1 c1 where t1: "analyze_try env analyze_entered = (s1, c1)"
      by (cases "analyze_try env analyze_entered")
    obtain s2 c2 where t2: "analyze_try ?env' analyze_entered = (s2, c2)"
      by (cases "analyze_try ?env' analyze_entered")
    from simD [OF sim_analyze_try [where env = env and b = b and d = d]
        trap_eq_refl [of analyze_entered]] t1 t2
    have eq: "trap_eq s1 s2" and c: "c2 = c1" by simp_all
    have "hide_trap_upload (settle ?w (analyze_run ?env' analyze_initial)) =
          hide_trap_upload (settle ?w (analyze_run env analyze_initial))"
    proof (cases c1)
      case Normal
      with t1 t2 c None completed_settle_hide [OF assms eq, of ?w] show ?thesis
        by (simp add: run settle_try_catch analyze_handlers_trap)
    next
      case Returned
      with t1 t2 c None trap_eq_fields [OF eq] show ?thesis
        by (simp add: run settle_try_catch)
    next
      case (Thrown x)
      with t1 t2 c None catch_settle_hide [OF assms eq, of ?w x] show ?thesis
        by (simp add: run settle_try_catch analyze_handlers_trap)
    qed
    then show ?thesis by (simp add: analyze_wrapper_settle hide_append)
  qed
qed

lemma sink_indep:
  "invoke (env\<lparr>sink := k\<rparr>) c = invoke env c"
  "invoke_then (env\<lparr>sink := k\<rparr>) c st = invoke_then env c st"
  "getOptionalInput (env\<lparr>sink := k\<rparr>) n = getOptionalInput env n"
  "getRequiredInput (env\<lparr>sink := k\<rparr>) n = getRequiredInput env n"
  "getRequiredEnvParam (env\<lparr>sink := k\<rparr>) n = getRequiredEnvParam env n"
  "hasBadExpectErrorInput (env\<lparr>sink := k\<rparr>) = hasBadExpectErrorInput env"
  "doesGoExtractionOutputExist (env\<lparr>sink := k\<rparr>) cfg = doesGoExtractionOutputExist env cfg"
  "getTrapCachingEnabled (env\<lparr>sink := k\<rparr>) = getTrapCachingEnabled env"
  "send (env\<lparr>sink := k\<rparr>) = send env"
  by (simp_all add: fun_eq_iff invoke_def invoke_then_def getOptionalInput_def
      getRequiredInput_def getRequiredEnvParam_def hasBadExpectErrorInput_def
      doesGoExtractionOutputExist_def getTrapCachingEnabled_def send_def sendStatusReport_def
      Let_def cong: sum.case_cong if_cong)

lemma autobuild_loop_sink: "autobuild_loop (env\<lparr>sink := k\<rparr>) cfg ls = autobuild_loop env cfg ls"
proof (rule ext)
  fix s
  show "autobuild_loop (env\<lparr>sink := k\<rparr>) cfg ls s = autobuild_loop env cfg ls s"
    by (induction ls arbitrary: s) (simp_all add: sink_indep)
qed

lemma sink_indep_steps:
  "load_config (env\<lparr>sink := k\<rparr>) = load_config env"
  "check_go_wrapper (env\<lparr>sink := k\<rparr>) = check_go_wrapper env"
  "runAutobuildIfLegacyGoWorkflow (env\<lparr>sink := k\<rparr>) cfg = runAutobuildIfLegacyGoWorkflow env cfg"
  "run_queries (env\<lparr>sink := k\<rparr>) = run_queries env"
  "set_outputs (env\<lparr>sink := k\<rparr>) cfg outputDir = set_outputs env cfg outputDir"
  "upload_results (env\<lparr>sink := k\<rparr>) = upload_results env"
  "upload_trap_caches (env\<lparr>sink := k\<rparr>) = upload_trap_caches env"
  "wait_for_processing (env\<lparr>sink := k\<rparr>) = wait_for_processing env"
  "analyze_epilogue (env\<lparr>sink := k\<rparr>) = analyze_epilogue env"
  "init_setup (env\<lparr>sink := k\<rparr>) = init_setup env"
  "install_python_deps (env\<lparr>sink := k\<rparr>) cfg = install_python_deps env cfg"
  "install_go_wrapper (env\<lparr>sink := k\<rparr>) = install_go_wrapper env"
  by (simp_all add: load_config_def check_go_wrapper_def runAutobuildIfLegacyGoWorkflow_def
      run_queries_def set_outputs_def upload_results_def upload_trap_caches_def
      wait_for_processing_def analyze_epilogue_def init_setup_def install_python_deps_def
      install_go_wrapper_def sink_indep Let_def cong: option.case_cong if_cong)

lemma sink_indep_senders:
  "autobuild_sendCompletedStatusReport (env\<lparr>sink := k\<rparr>) ls fl err =
     autobuild_sendCompletedStatusReport env ls fl err"
  "analyze_sendStatusReport (env\<lparr>sink := k\<rparr>) co stats err t d u =
     analyze_sendStatusReport env co stats err t d u"
  "init_sendCompletedStatusReport (env\<lparr>sink := k\<rparr>) co ms fv src ver err =
     init_sendCompletedStatusReport env co ms fv src ver err"
  "init_catch1 (env\<lparr>sink := k\<rparr>) e = init_catch1 env e"
  by (simp_all add: autobuild_sendCompletedStatusReport_def analyze_sendStatusReport_def
      init_sendCompletedStatusReport_def init_catch1_def sink_indep Let_def
      cong: option.case_cong if_cong)

lemma sink_indep_bodies:
  "autobuild_body (env\<lparr>sink := k\<rparr>) = autobuild_body env"
  "analyze_body (env\<lparr>sink := k\<rparr>) = analyze_body env"
  "init_body1 (env\<lparr>sink := k\<rparr>) = init_body1 env"
  "init_try2 (env\<lparr>sink := k\<rparr>) cfg = init_try2 env cfg"
  by (simp_all add: autobuild_body_def analyze_body_def analyze_build_def analyze_publish_def
      init_body1_def init_try2_def sink_indep sink_indep_steps autobuild_loop_sink
      cong: option.case_cong if_cong)

lemma sink_indep_handlers:
  "autobuild_catch (env\<lparr>sink := k\<rparr>) = autobuild_catch env"
  "autobuild_completed (env\<lparr>sink := k\<rparr>) = autobuild_completed env"
  "analyze_catch (env\<lparr>sink := k\<rparr>) = analyze_catch env"
  "analyze_completed (env\<lparr>sink := k\<rparr>) = analyze_completed env"
  "init_catch2 (env\<lparr>sink := k\<rparr>) = init_catch2 env"
  "init_completed (env\<lparr>sink := k\<rparr>) = init_completed env"
  "init_catch1 (env\<lparr>sink := k\<rparr>) = init_catch1 env"
  by (simp_all add: fun_eq_iff autobuild_catch_def autobuild_completed_def analyze_catch_def
      analyze_completed_def init_catch2_def init_completed_def sink_indep sink_indep_senders
      Let_def cong: option.case_cong if_cong error.case_cong)

lemma report_starting_sink:
  "k (starting_report n) = sink env (starting_report n) \<Longrightarrow>
   report_starting (env\<lparr>sink := k\<rparr>) n = report_starting env n"
  by (simp add: report_starting_def sink_indep sendStatusReport_def starting_report_def)

lemma sink_indep_runs:
  "k (starting_report ''autobuild'') = sink env (starting_report ''autobuild'') \<Longrightarrow>
     autobuild_run (env\<lparr>sink := k\<rparr>) = autobuild_run env"
  "k (starting_report ''finish'') = sink env (starting_report ''finish'') \<Longrightarrow>
     analyze_run (env\<lparr>sink := k\<rparr>) = analyze_run env"
  "k (starting_report ''init'') = sink env (starting_report ''init'') \<Longrightarrow>
     init_run (env\<lparr>sink := k\<rparr>) = init_run env"
  by (simp_all add: autobuild_run_def autobuild_try_def analyze_run_def analyze_try_def
      init_run_def init_try1_def report_starting_sink sink_indep sink_indep_steps
      sink_indep_bodies sink_indep_handlers sink_indep_senders
      del: steps.simps cong: option.case_cong)

lemma reports_marks: "reports (analyze_marks_failed env e) = []"
  by (simp add: analyze_marks_failed_def reports_Cons)

lemma marks_when_guarded:
  "\<not> (getOptionalInput env ''expect-error'' = Some ''true'' \<and> isInTestMode env) \<Longrightarrow>
   analyze_marks_failed env e = [SetFailed (message e)]"
  by (auto simp: analyze_marks_failed_def hasBadExpectErrorInput_def)

lemmas step_defs = report_starting_def sendStatusReport_def send_def createStatusReportBase_def
  load_config_def invoke_then_def invoke_def require_config_def reading_def throw_def skip_def
  emit_def assign_def catching_def with_required_def require_def getRequiredInput_def
  getRequiredEnvParam_def getOptionalInput_def truthy_def wrapError_def Let_def spread_def
  getActionsStatus_def str_field_def try_catch_def

lemmas analyze_defs = analyze_runWrapper_def analyze_run_def analyze_try_def analyze_body_def
  analyze_build_def analyze_publish_def analyze_epilogue_def analyze_initial_def
  analyze_catch_def analyze_completed_def analyze_sendStatusReport_def hasBadExpectErrorInput_def
  check_go_wrapper_def runAutobuildIfLegacyGoWorkflow_def doesGoExtractionOutputExist_def
  DID_AUTOBUILD_GOLANG_def run_queries_def set_outputs_def upload_results_def
  upload_trap_caches_def wait_for_processing_def

lemmas autobuild_defs = autobuild_runWrapper_def autobuild_run_def autobuild_try_def
  autobuild_body_def autobuild_initial_def autobuild_catch_def autobuild_completed_def
  autobuild_sendCompletedStatusReport_def

lemmas init_defs = init_runWrapper_def init_run_def init_setup_def init_try1_def init_body1_def
  init_try2_def init_initial_def init_catch1_def init_catch2_def init_completed_def
  init_sendCompletedStatusReport_def install_python_deps_def install_go_wrapper_def
  getTrapCachingEnabled_def str_includes_def java_lombok_var_def

lemma analyze_calm_trace:
  "analyze_runWrapper calm =
     [Called InitializeEnvironment, Called (CheckDiskUsage Starting),
      Called (CreateStatusReportBase Starting), Report (starting_report ''finish''),
      Called GetConfig, Called GetApiDetails,
      Called GetThreadsFlag, Called ParseRepositoryNwo, Called GetGitHubVersion,
      Called GetMemoryFlag, Called (RunAutobuild ''go''), Called RunFinalize,
      Called GetAddSnippetsFlag, Called RunQueries, Called RunCleanup,
      SetOutput ''db-locations'' (Obj [(''go'', Str ''/db/go'')]),
      SetOutput ''sarif-output'' (Str ''/out''), Called UploadFromActions,
      SetOutput ''sarif-id'' (Str ''1''), Called UploadDatabases, Called GetCodeQL,
      Called UploadTrapCaches, Called ParseRepositoryNwo, Called WaitForProcessing,
      ExportVariable ''CODEQL_ACTION_ANALYZE_DID_COMPLETE_SUCCESSFULLY'' ''true'',
      Called (CheckDiskUsage Success), Called (CreateStatusReportBase Success),
      Called GetMlPoweredJsQueriesStatus,
      Report \<lparr>action_name = ''finish'', status = Success, cause = None,
        stage_fields = [(''ml_powered_javascript_queries'', Str ''false'')]\<rparr>,
      Called CheckForTimeout]"
  by (simp add: analyze_defs calm_def starting_report_def step_defs)

lemma analyze_trap_upload_succeeds_trace:
  "analyze_runWrapper trap_upload_succeeds =
     [Called InitializeEnvironment, Called (CheckDiskUsage Starting),
      Called (CreateStatusReportBase Starting), Report (starting_report ''finish''),
      Called GetConfig, Called GetApiDetails,
      Called GetThreadsFlag, Called ParseRepositoryNwo, Called GetGitHubVersion,
      Called GetMemoryFlag, Called (RunAutobuild ''go''), Called RunFinalize,
      Called GetAddSnippetsFlag, Called RunQueries, Called RunCleanup,
      SetOutput ''db-locations'' (Obj [(''go'', Str ''/db/go'')]),
      SetOutput ''sarif-output'' (Str ''/out''), Called UploadFromActions,
      SetOutput ''sarif-id'' (Str ''1''), Called UploadDatabases, Called GetCodeQL,
      Called UploadTrapCaches, Called ParseRepositoryNwo, Called WaitForProcessing,
      ExportVariable ''CODEQL_ACTION_ANALYZE_DID_COMPLETE_SUCCESSFULLY'' ''true'',
      Called (CheckDiskUsage Success), Called (CreateStatusReportBase Success),
      Called GetMlPoweredJsQueriesStatus, Called GetTotalCacheSize,
      Report \<lparr>action_name = ''finish'', status = Success, cause = None,
        stage_fields = [(''trap_cache_upload_duration_ms'', Num 7),
          (''trap_cache_upload_size_bytes'', Num 0),
          (''ml_powered_javascript_queries'', Str ''false'')]\<rparr>,
      Called CheckForTimeout]"
  by (simp add: analyze_defs trap_upload_succeeds_def calm_def starting_report_def step_defs)


lemma analyze_trap_upload_fails_trace:
  "analyze_runWrapper trap_upload_fails =
     [Called InitializeEnvironment, Called (CheckDiskUsage Starting),
      Called (CreateStatusReportBase Starting), Report (starting_report ''finish''),
      Called GetConfig, Called GetApiDetails,
      Called GetThreadsFlag, Called ParseRepositoryNwo, Called GetGitHubVersion,
      Called GetMemoryFlag, Called (RunAutobuild ''go''), Called RunFinalize,
      Called GetAddSnippetsFlag, Called RunQueries, Called RunCleanup,
      SetOutput ''db-locations'' (Obj [(''go'', Str ''/db/go'')]),
      SetOutput ''sarif-output'' (Str ''/out''), Called UploadFromActions,
      SetOutput ''sarif-id'' (Str ''1''), Called UploadDatabases, Called GetCodeQL,
      Called UploadTrapCaches, SetFailed ''cache service down'',
      Called (CheckDiskUsage Failure), Called (CreateStatusReportBase Failure),
      Called GetMlPoweredJsQueriesStatus,
      Report \<lparr>action_name = ''finish'', status = Failure, cause = Some ''cache service down'',
        stage_fields = [(''ml_powered_javascript_queries'', Str ''false'')]\<rparr>,
      Called CheckForTimeout]"
  by (simp add: analyze_defs trap_upload_fails_def calm_def starting_report_def step_defs)

lemma analyze_go_analysis_fails_trace:
  "analyze_runWrapper go_analysis_fails =
     [Called InitializeEnvironment, Called (CheckDiskUsage Starting),
      Called (CreateStatusReportBase Starting), Report (starting_report ''finish''),
      Called GetConfig, Called GetApiDetails,
      Called GetThreadsFlag, Called ParseRepositoryNwo, Called GetGitHubVersion,
      Called GetMemoryFlag, Called (RunAutobuild ''go''), Called RunFinalize,
      Called GetAddSnippetsFlag, Called RunQueries,
      SetFailed ''Error running analysis for go'',
      Called (CheckDiskUsage Failure), Called (CreateStatusReportBase Failure),
      Called GetMlPoweredJsQueriesStatus,
      Report \<lparr>action_name = ''finish'', status = Failure,
        cause = Some ''Error running analysis for go'',
        stage_fields = [(''analyze_failure_language'', Str ''go''),
          (''ml_powered_javascript_queries'', Str ''false'')]\<rparr>,
      Called CheckForTimeout]"
  by (simp add: analyze_defs go_analysis_fails_def three_languages_def calm_def
      starting_report_def step_defs)



lemma analyze_bad_input_without_config_trace:
  "analyze_runWrapper bad_input_without_config =
     [Called InitializeEnvironment, Called (CheckDiskUsage Starting),
      Called (CreateStatusReportBase Starting), Report (starting_report ''finish''),
      Called GetConfig, SetFailed config_missing_message,
      Called (CheckDiskUsage Failure), Called (CreateStatusReportBase Failure),
      Report \<lparr>action_name = ''finish'', status = Failure,
        cause = Some config_missing_message, stage_fields = []\<rparr>,
      Called CheckForTimeout]"
  by (simp add: analyze_defs bad_input_without_config_def expect_error_outside_tests_def
      calm_def starting_report_def step_defs)

lemma analyze_expect_error_outside_tests_trace:
  "analyze_runWrapper expect_error_outside_tests =
     [Called InitializeEnvironment, Called (CheckDiskUsage Starting),
      Called (CreateStatusReportBase Starting), Report (starting_report ''finish''),
      Called GetConfig, SetFailed expect_error_message,
      Called (CheckDiskUsage UserErrorStatus), Called (CreateStatusReportBase UserErrorStatus),
      Called GetMlPoweredJsQueriesStatus,
      Report \<lparr>action_name = ''finish'', status = UserErrorStatus,
        cause = Some expect_error_message,
        stage_fields = [(''ml_powered_javascript_queries'', Str ''false'')]\<rparr>,
      Called CheckForTimeout]"
  by (simp add: analyze_defs expect_error_outside_tests_def calm_def starting_report_def
      step_defs)

lemma analyze_expected_failure_trace:
  "analyze_runWrapper expected_failure =
     [Called InitializeEnvironment, Called (CheckDiskUsage Starting),
      Called (CreateStatusReportBase Starting), Report (starting_report ''finish''),
      Called GetConfig, Called GetApiDetails, Called GetThreadsFlag,
      Called ParseRepositoryNwo, Called GetGitHubVersion, Called GetMemoryFlag,
      Called (RunAutobuild ''go''), Called RunFinalize,
      Called (CheckDiskUsage Failure), Called (CreateStatusReportBase Failure),
      Called GetMlPoweredJsQueriesStatus,
      Report \<lparr>action_name = ''finish'', status = Failure, cause = Some ''finalize failed'',
        stage_fields = [(''ml_powered_javascript_queries'', Str ''false'')]\<rparr>,
      Called CheckForTimeout]"
  by (simp add: analyze_defs expected_failure_def calm_def starting_report_def step_defs)

lemma analyze_disk_check_fails_trace:
  "analyze_runWrapper disk_check_fails =
     [Called InitializeEnvironment, Called (CheckDiskUsage Starting),
      SetFailed ''no space left'', Called (CheckDiskUsage Failure),
      Called (CreateStatusReportBase Failure),
      Report \<lparr>action_name = ''finish'', status = Failure, cause = Some ''no space left'',
        stage_fields = []\<rparr>,
      Called CheckForTimeout]"
  by (simp add: analyze_defs disk_check_fails_def calm_def starting_report_def step_defs)

lemma init_version_lookup_fails_trace:
  "init_runWrapper version_lookup_fails =
     [Called InitializeEnvironment, Called GetGitHubVersion,
      SetFailed ''init action failed: request failed'', Called CheckForTimeout]"
  by (simp add: init_defs version_lookup_fails_def calm_def step_defs)

lemma autobuild_calm_trace:
  "autobuild_runWrapper calm =
     [Called (CheckDiskUsage Starting), Called (CreateStatusReportBase Starting),
      Report (starting_report ''autobuild''),
      Called GetGitHubVersion, Called CheckGitHubVersionInRange,
      Called GetConfig, Called DetermineAutobuildLanguages,
      Called (RunAutobuild ''go''), Called InitializeEnvironment,
      Called (CheckDiskUsage Success), Called (CreateStatusReportBase Success),
      Report \<lparr>action_name = ''autobuild'', status = Success, cause = None,
        stage_fields = [(''autobuild_languages'', Str ''go'')]\<rparr>]"
  by (simp add: autobuild_defs calm_def starting_report_def step_defs)

lemma init_calm_trace:
  "init_runWrapper calm =
     [Called InitializeEnvironment, Called GetGitHubVersion,
      Called CheckGitHubVersionInRange, Called ParseRepositoryNwo,
      ExportVariable ''CODEQL_ACTION_JOB_RUN_UUID'' ''0000'',
      Called (CheckDiskUsage Starting), Called (CreateStatusReportBase Starting),
      Report (starting_report ''init''),
      Called GetDefaultCliVersion, Called InitCodeQL, Called ValidateWorkflow,
      Called InitConfig, Called SafeWhich, Called GetFileType,
      Called GetMemoryFlagValue, ExportVariable ''CODEQL_RAM'' ''1024'',
      Called GetThreadsFlagValue, ExportVariable ''CODEQL_THREADS'' ''2'',
      Called (GetFeatureValue ''DisableKotlinAnalysisEnabled''),
      Called (CodeQlVersionAbove ''2.13.4''), Called (CodeQlVersionAbove ''2.14.4''),
      Called (GetFeatureValue ''DisablePythonDependencyInstallationEnabled''),
      Called RunInit, SetOutput ''codeql-path'' (Str ''codeql''),
      Called (CheckDiskUsage Success), Called (CreateStatusReportBase Success),
      Called GetMlPoweredJsQueriesStatus, Called GetTotalCacheSize,
      Report \<lparr>action_name = ''init'', status = Success, cause = None,
        stage_fields =
          [(''languages'', Str ''go''), (''ml_powered_javascript_queries'', Str ''false''),
           (''trap_cache_languages'', Str []), (''trap_cache_download_size_bytes'', Num 0),
           (''tools_input'', Str []), (''tools_resolved_version'', Str ''2.15.0''),
           (''tools_source'', Str ''TOOLCACHE''), (''workflow_languages'', Str [])]\<rparr>,
      Called CheckForTimeout]"
  by (simp add: init_defs calm_def starting_report_def step_defs)

lemma calm_exit_codes:
  "exit_code (init_runWrapper calm) = 0" "exit_code (autobuild_runWrapper calm) = 0"
  "exit_code (analyze_runWrapper calm) = 0"
  by (simp_all add: init_calm_trace autobuild_calm_trace analyze_calm_trace exit_code_def
      is_SetFailed_def)

lemma report_shapes:
  "at_most_one_of_each ''autobuild'' (autobuild_runWrapper env) \<and>
   at_most_one_of_each ''finish'' (analyze_runWrapper env) \<and>
   at_most_one_of_each ''init'' (init_runWrapper env) \<and>
   (starting_reports (autobuild_runWrapper env) \<noteq> [] \<longleftrightarrow>
      fails env (CheckDiskUsage Starting) = None \<and>
      fails env (CreateStatusReportBase Starting) = None) \<and>
   (starting_reports (analyze_runWrapper env) \<noteq> [] \<longleftrightarrow>
      fails env InitializeEnvironment = None \<and>
      fails env (CheckDiskUsage Starting) = None \<and>
      fails env (CreateStatusReportBase Starting) = None) \<and>
   (starting_reports (init_runWrapper env) \<noteq> [] \<longleftrightarrow>
      snd (init_setup env init_initial) = Normal \<and>
      fails env (CheckDiskUsage Starting) = None \<and>
      fails env (CreateStatusReportBase Starting) = None)"
proof -
  note r = reports_append reports_benign reports_quiet_benign reports_Cons reports_start_events
    reports_marks
  have shape:
    "at_most_one_of_each n tr \<and> (starting_reports tr \<noteq> [] \<longleftrightarrow> started)"
    if "reports tr = (if started then [starting_report n] else []) @ rest"
      "rest = [] \<or> (\<exists>r. rest = [r] \<and> status r \<noteq> Starting)" for n tr started rest
    using that by (auto simp: at_most_one_of_each_def starting_reports_def)
  have autobuild: "at_most_one_of_each ''autobuild'' (autobuild_runWrapper env) \<and>
     (starting_reports (autobuild_runWrapper env) \<noteq> [] \<longleftrightarrow>
        fails env (CheckDiskUsage Starting) = None \<and>
        fails env (CreateStatusReportBase Starting) = None)"
  proof (cases env rule: autobuild_cases)
    case (not_built e es tail)
    from reports_closing [OF not_built(4)] not_built show ?thesis
      by (intro shape [where rest = "reports tail"]) (auto simp: r report_kinds)
  next
    case rejected
    then show ?thesis by (intro shape [where rest = "[]"]) (simp_all add: r)
  next
    case (threw e s' es tail)
    from reports_closing [OF threw(8)] threw show ?thesis
      by (intro shape [where rest = "reports tail"]) (auto simp: r report_kinds)
  next
    case (finished s' es tail)
    from reports_closing [OF finished(8)] finished show ?thesis
      by (intro shape [where rest = "reports tail"]) (auto simp: r report_kinds)
  qed
  have analyze: "at_most_one_of_each ''finish'' (analyze_runWrapper env) \<and>
     (starting_reports (analyze_runWrapper env) \<noteq> [] \<longleftrightarrow>
        fails env InitializeEnvironment = None \<and>
        fails env (CheckDiskUsage Starting) = None \<and>
        fails env (CreateStatusReportBase Starting) = None)"
  proof (cases env rule: analyze_cases)
    case (env_threw e)
    then show ?thesis by (intro shape [where rest = "[]"]) (simp_all add: r)
  next
    case (not_built e es tail)
    from reports_closing [OF not_built(5)] not_built show ?thesis
      by (intro shape [where rest = "reports tail"]) (auto simp: r report_kinds)
  next
    case rejected
    then show ?thesis by (intro shape [where rest = "[]"]) (simp_all add: r)
  next
    case (threw e s' es tail)
    from reports_closing [OF threw(9)] threw show ?thesis
      by (intro shape [where rest = "reports tail"]) (auto simp: r report_kinds)
  next
    case (finished s' es tail)
    from reports_closing [OF finished(11)] finished show ?thesis
      by (intro shape [where rest = "reports tail"])
         (auto simp: r report_kinds reports_no_report)
  qed
  note su = init_setup_benign [of env]
  have init: "at_most_one_of_each ''init'' (init_runWrapper env) \<and>
     (starting_reports (init_runWrapper env) \<noteq> [] \<longleftrightarrow>
        snd (init_setup env init_initial) = Normal \<and>
        fails env (CheckDiskUsage Starting) = None \<and>
        fails env (CreateStatusReportBase Starting) = None)"
  proof (cases env rule: init_cases)
    case (setup_threw e)
    with su show ?thesis by (intro shape [where rest = "[]"]) (simp_all add: r)
  next
    case (not_built e es tail)
    from reports_closing [OF not_built(5)] not_built su show ?thesis
      by (intro shape [where rest = "reports tail"]) (auto simp: r report_kinds)
  next
    case rejected
    with su show ?thesis by (intro shape [where rest = "[]"]) (simp_all add: r)
  next
    case (threw e es tail)
    from reports_closing [OF threw(7)] threw su show ?thesis
      by (intro shape [where rest = "reports tail"]) (auto simp: r report_kinds)
  next
    case (finished es tail)
    from reports_closing [OF finished(7)] finished su show ?thesis
      by (intro shape [where rest = "reports tail"]) (auto simp: r report_kinds)
  qed
  from autobuild analyze init show ?thesis by blast
qed

lemma one_startingI:
  "at_most_one_of_each n tr \<Longrightarrow> starting_reports tr \<noteq> [] \<Longrightarrow>
   one_starting_at_most_one_completed n tr"
  by (auto simp: at_most_one_of_each_def starting_reports_def
      one_starting_at_most_one_completed_def starting_report_def createStatusReportBase_def
      split: list.splits if_splits)

lemma none_startingI:
  "at_most_one_of_each n tr \<Longrightarrow> starting_reports tr = [] \<Longrightarrow>
   length (completed_reports tr) \<le> 1"
  by (auto simp: at_most_one_of_each_def starting_reports_def completed_reports_def
      starting_report_def createStatusReportBase_def split: list.splits if_splits)

lemma closing_not_publishes: "closing env R w tail \<Longrightarrow> ev \<in> set tail \<Longrightarrow> \<not> publishes ev"
  by (auto simp: closing_def list_all_iff publishes_simps dest: building_not_publishes)

lemma start_events_not_publishes: "ev \<in> set (start_events n) \<Longrightarrow> \<not> publishes ev"
  by (auto simp: start_events_def publishes_def)

lemma marks_not_publishes: "ev \<in> set (analyze_marks_failed env e) \<Longrightarrow> \<not> publishes ev"
  by (auto simp: analyze_marks_failed_def publishes_simps split: if_splits)

lemma completed_start_events: "completed_reports (start_events n) = []"
  by (simp add: completed_quiet start_events_quiet)

lemma completed_marks: "completed_reports (analyze_marks_failed env e) = []"
  by (simp add: completed_reports_def reports_marks)

lemma completed_benign: "list_all benign es \<Longrightarrow> completed_reports es = []"
  by (simp add: completed_quiet benign_quiet)

lemma analyze_thrown_reports:
  assumes tr: "analyze_runWrapper env =
       Called InitializeEnvironment # start_events ''finish'' @ es @
       analyze_marks_failed env e @ tail @ [Called CheckForTimeout]"
    and es: "list_all benign es"
    and cl: "closing env (reports_analysis_error e) ''analyze action failed: '' tail"
  shows "completed_reports (analyze_runWrapper env) = completed_reports tail"
    "\<forall>r \<in> set (completed_reports (analyze_runWrapper env)). reports_analysis_error e r"
    "can_build env \<longrightarrow> (\<exists>r. completed_reports (analyze_runWrapper env) = [r])"
    "\<not> (getOptionalInput env ''expect-error'' = Some ''true'' \<and> isInTestMode env) \<longrightarrow>
       SetFailed (message e) \<in> set (analyze_runWrapper env) \<and>
       exit_code (analyze_runWrapper env) = 1"
    "getOptionalInput env ''expect-error'' = Some ''true'' \<and> isInTestMode env \<longrightarrow>
       (completed_reports (analyze_runWrapper env) \<noteq> [] \<longrightarrow>
          exit_code (analyze_runWrapper env) = 0)"
proof -
  have ns: "status r \<noteq> Starting" if "reports_analysis_error e r" for r
    using that report_kinds(2) [of e r] by simp
  note cc = closing_completed [OF cl ns]
  show c: "completed_reports (analyze_runWrapper env) = completed_reports tail"
    unfolding tr
    by (simp add: completed_append completed_simps completed_start_events completed_marks
        completed_benign [OF es])
  from cc show "\<forall>r \<in> set (completed_reports (analyze_runWrapper env)). reports_analysis_error e r"
    unfolding c by blast
  from cc show "can_build env \<longrightarrow> (\<exists>r. completed_reports (analyze_runWrapper env) = [r])"
    unfolding c by blast
  show "\<not> (getOptionalInput env ''expect-error'' = Some ''true'' \<and> isInTestMode env) \<longrightarrow>
       SetFailed (message e) \<in> set (analyze_runWrapper env) \<and>
       exit_code (analyze_runWrapper env) = 1"
  proof
    assume g: "\<not> (getOptionalInput env ''expect-error'' = Some ''true'' \<and> isInTestMode env)"
    from marks_when_guarded [OF g, of e]
    have m: "SetFailed (message e) \<in> set (analyze_runWrapper env)"
      unfolding tr by simp
    with exit_code_failed [OF m] show "SetFailed (message e) \<in> set (analyze_runWrapper env) \<and>
       exit_code (analyze_runWrapper env) = 1" by simp
  qed
  show "getOptionalInput env ''expect-error'' = Some ''true'' \<and> isInTestMode env \<longrightarrow>
       (completed_reports (analyze_runWrapper env) \<noteq> [] \<longrightarrow>
          exit_code (analyze_runWrapper env) = 0)"
  proof (intro impI)
    assume g: "getOptionalInput env ''expect-error'' = Some ''true'' \<and> isInTestMode env"
      and ne: "completed_reports (analyze_runWrapper env) \<noteq> []"
    from g have m: "analyze_marks_failed env e = []"
      by (simp add: analyze_marks_failed_def hasBadExpectErrorInput_def)
    from cc ne have "\<not> list_ex is_SetFailed tail" unfolding c by blast
    with es show "exit_code (analyze_runWrapper env) = 0"
      unfolding tr m
      by (auto simp: exit_code_def start_events_def is_SetFailed_def
          list_ex_iff list_all_iff benign_def)
  qed
qed

lemma analyze_try_rejected:
  assumes "fails env (CheckDiskUsage Starting) = None"
    "fails env (CreateStatusReportBase Starting) = None" "\<not> sink env (starting_report ''finish'')"
  shows "snd (analyze_try env s) = Returned"
  using assms
  by (cases env "''finish''" s rule: report_starting_cases) (simp_all add: analyze_try_def)

section \<open>Theorems\<close>

text \<open>
  C10. Init enables TRAP caching by this precedence: when the \<^verbatim>\<open>trap-caching\<close> input is
  supplied, caching is enabled exactly when the input equals \<^verbatim>\<open>"true"\<close>; when it is not
  supplied, caching is enabled exactly when the runner is a hosted runner.
\<close>

theorem trap_caching_precedence:
  "(getOptionalInput env ''trap-caching'' = Some v \<longrightarrow>
      getTrapCachingEnabled env = (v = ''true'')) \<and>
   (getOptionalInput env ''trap-caching'' = None \<longrightarrow>
      getTrapCachingEnabled env = isHostedRunner env)"
  by (simp add: getTrapCachingEnabled_def Let_def)

theorem trap_caching_precedence_witness:
  "getOptionalInput (calm\<lparr>inputs := (inputs calm)(''trap-caching'' \<mapsto> ''false'')\<rparr>) ''trap-caching''
     = Some ''false'' \<and>
   getTrapCachingEnabled (calm\<lparr>inputs := (inputs calm)(''trap-caching'' \<mapsto> ''false'')\<rparr>) = False \<and>
   getOptionalInput (calm\<lparr>isHostedRunner := False\<rparr>) ''trap-caching'' = None \<and>
   getTrapCachingEnabled (calm\<lparr>isHostedRunner := False\<rparr>) = False \<and>
   getOptionalInput calm ''trap-caching'' = None \<and>
   getTrapCachingEnabled calm = True"
  using trap_caching_precedence [of "calm\<lparr>inputs := (inputs calm)(''trap-caching'' \<mapsto> ''false'')\<rparr>" "''false''"]
    trap_caching_precedence [of "calm\<lparr>isHostedRunner := False\<rparr>" "''x''"]
    trap_caching_precedence [of calm "''x''"]
  by (simp add: getOptionalInput_def calm_def)

text \<open>
  C1. In Autobuild and in Finalize+Query, once the starting report is built and accepted and
  the load of the persisted Config returns \<^verbatim>\<open>undefined\<close>, the \<^verbatim>\<open>try\<close> block throws the error
  whose message ends with \<^verbatim>\<open>Has the 'init' action been called?\<close>. Autobuild marks the process
  failed with a message that ends with it; Finalize+Query marks the process failed with it
  unless \<^verbatim>\<open>expect-error\<close> is \<^verbatim>\<open>"true"\<close> in test mode. When the calls that build the completed
  report do not throw, that report ends the run, with status \<^verbatim>\<open>failure\<close> and the message as
  its cause.
\<close>

theorem missing_config_message:
  "(fails env (CheckDiskUsage Starting) = None \<and>
    fails env (CreateStatusReportBase Starting) = None \<and>
    sink env (starting_report ''autobuild'') \<and> fails env GetGitHubVersion = None \<and>
    fails env CheckGitHubVersionInRange = None \<and> fails env GetConfig = None \<and>
    getConfig env = None \<longrightarrow>
      snd (autobuild_try env autobuild_initial) = Thrown (Error config_missing_message) \<and>
      SetFailed (autobuild_failed_prefix @ config_missing_message)
        \<in> set (autobuild_runWrapper env) \<and>
      (fails env InitializeEnvironment = None \<and> fails env (CheckDiskUsage Failure) = None \<and>
       fails env (CreateStatusReportBase Failure) = None \<longrightarrow>
         autobuild_runWrapper env =
           start_events ''autobuild'' @
           [Called GetGitHubVersion, Called CheckGitHubVersionInRange, Called GetConfig,
            SetFailed (autobuild_failed_prefix @ config_missing_message),
            Called InitializeEnvironment, Called (CheckDiskUsage Failure),
            Called (CreateStatusReportBase Failure),
            Report \<lparr>action_name = ''autobuild'', status = Failure,
              cause = Some config_missing_message,
              stage_fields = [(''autobuild_languages'', Str [])]\<rparr>])) \<and>
   (fails env InitializeEnvironment = None \<and> fails env (CheckDiskUsage Starting) = None \<and>
    fails env (CreateStatusReportBase Starting) = None \<and>
    sink env (starting_report ''finish'') \<and> fails env GetConfig = None \<and>
    getConfig env = None \<longrightarrow>
      snd (analyze_try env analyze_entered) = Thrown (Error config_missing_message) \<and>
      (\<not> (getOptionalInput env ''expect-error'' = Some ''true'' \<and> isInTestMode env) \<longrightarrow>
         SetFailed config_missing_message \<in> set (analyze_runWrapper env)) \<and>
      (fails env (CheckDiskUsage Failure) = None \<and>
       fails env (CreateStatusReportBase Failure) = None \<longrightarrow>
         analyze_runWrapper env =
           Called InitializeEnvironment # start_events ''finish'' @ [Called GetConfig] @
           analyze_marks_failed env (Error config_missing_message) @
           [Called (CheckDiskUsage Failure), Called (CreateStatusReportBase Failure),
            Report \<lparr>action_name = ''finish'', status = Failure,
              cause = Some config_missing_message, stage_fields = []\<rparr>,
            Called CheckForTimeout])) \<and>
   (\<exists>before. config_missing_message = before @ ''Has the 'init' action been called?'')"
proof (intro conjI impI)
  assume a: "fails env (CheckDiskUsage Starting) = None \<and>
    fails env (CreateStatusReportBase Starting) = None \<and>
    sink env (starting_report ''autobuild'') \<and> fails env GetGitHubVersion = None \<and>
    fails env CheckGitHubVersionInRange = None \<and> fails env GetConfig = None \<and>
    getConfig env = None"
  then have t: "autobuild_try env autobuild_initial =
    (autobuild_initial\<lparr>trace := start_events ''autobuild'' @
         [Called GetGitHubVersion, Called CheckGitHubVersionInRange, Called GetConfig]\<rparr>,
     Thrown (Error config_missing_message))"
    by (simp add: autobuild_try_def autobuild_body_def autobuild_initial_def start_events_def
        starting_report_def step_defs)
  then show "snd (autobuild_try env autobuild_initial) = Thrown (Error config_missing_message)"
    by simp
  from a have body: "snd (steps (autobuild_body env) autobuild_started) =
      Thrown (Error config_missing_message)"
    by (simp add: autobuild_body_def autobuild_started_def autobuild_initial_def step_defs)
  show "SetFailed (autobuild_failed_prefix @ config_missing_message)
      \<in> set (autobuild_runWrapper env)"
  proof (cases env rule: autobuild_cases)
    case (threw e s' es tail)
    with body show ?thesis by simp
  qed (use a body in auto)
  assume b: "fails env InitializeEnvironment = None \<and> fails env (CheckDiskUsage Failure) = None \<and>
       fails env (CreateStatusReportBase Failure) = None"
  with t show "autobuild_runWrapper env =
           start_events ''autobuild'' @
           [Called GetGitHubVersion, Called CheckGitHubVersionInRange, Called GetConfig,
            SetFailed (autobuild_failed_prefix @ config_missing_message),
            Called InitializeEnvironment, Called (CheckDiskUsage Failure),
            Called (CreateStatusReportBase Failure),
            Report \<lparr>action_name = ''autobuild'', status = Failure,
              cause = Some config_missing_message,
              stage_fields = [(''autobuild_languages'', Str [])]\<rparr>]"
    by (simp add: autobuild_runWrapper_def autobuild_run_def autobuild_catch_def
        autobuild_initial_def autobuild_sendCompletedStatusReport_def step_defs)
next
  assume a: "fails env InitializeEnvironment = None \<and> fails env (CheckDiskUsage Starting) = None \<and>
    fails env (CreateStatusReportBase Starting) = None \<and>
    sink env (starting_report ''finish'') \<and> fails env GetConfig = None \<and>
    getConfig env = None"
  then have t: "analyze_try env analyze_entered =
    (analyze_initial\<lparr>trace := Called InitializeEnvironment # start_events ''finish'' @
        [Called GetConfig]\<rparr>,
     Thrown (Error config_missing_message))"
    by (simp add: analyze_try_def analyze_body_def analyze_entered_def analyze_initial_def
        start_events_def starting_report_def step_defs)
  then show thrown: "snd (analyze_try env analyze_entered) = Thrown (Error config_missing_message)"
    by simp
  have shape: "\<exists>es tail. analyze_runWrapper env =
      Called InitializeEnvironment # es @ analyze_marks_failed env (Error config_missing_message) @
      tail @ [Called CheckForTimeout]"
  proof (cases env rule: analyze_cases)
    case (threw e s' es tail)
    with thrown show ?thesis
      by (intro exI [of _ "start_events ''finish'' @ es"] exI [of _ tail]) simp
  qed (use a thrown in auto)
  {
    assume g: "\<not> (getOptionalInput env ''expect-error'' = Some ''true'' \<and> isInTestMode env)"
    from shape marks_when_guarded [OF g, of "Error config_missing_message"]
    show "SetFailed config_missing_message \<in> set (analyze_runWrapper env)"
      by auto
  }
  assume b: "fails env (CheckDiskUsage Failure) = None \<and>
       fails env (CreateStatusReportBase Failure) = None"
  have run: "analyze_run env analyze_initial =
      try_catch (analyze_try env) (analyze_catch env) (analyze_completed env) analyze_entered"
    using a by (simp add: analyze_run_def invoke_def analyze_entered_def analyze_initial_def
        split: prod.splits ctl.splits)
  have w: "analyze_runWrapper env =
      settle ''analyze action failed: ''
        (analyze_catch env (Error config_missing_message)
           (analyze_initial\<lparr>trace := Called InitializeEnvironment # start_events ''finish'' @
              [Called GetConfig]\<rparr>)) @ [Called CheckForTimeout]"
    by (simp add: analyze_wrapper_settle run settle_try_catch t)
  from b show "analyze_runWrapper env =
           Called InitializeEnvironment # start_events ''finish'' @ [Called GetConfig] @
           analyze_marks_failed env (Error config_missing_message) @
           [Called (CheckDiskUsage Failure), Called (CreateStatusReportBase Failure),
            Report \<lparr>action_name = ''finish'', status = Failure,
              cause = Some config_missing_message, stage_fields = []\<rparr>,
            Called CheckForTimeout]"
    unfolding w
    by (simp add: analyze_catch_def analyze_marks_failed_def settle_def
        analyze_initial_def analyze_sendStatusReport_def step_defs)
next
  show "\<exists>before. config_missing_message = before @ ''Has the 'init' action been called?''"
    by (intro exI [of _ "''Config file could not be found at expected location. ''"])
       (simp add: config_missing_message_def)
qed

theorem missing_config_message_witness:
  "fails init_never_ran (CheckDiskUsage Starting) = None \<and>
   fails init_never_ran (CreateStatusReportBase Starting) = None \<and>
   sink init_never_ran (starting_report ''autobuild'') \<and>
   fails init_never_ran GetGitHubVersion = None \<and>
   fails init_never_ran CheckGitHubVersionInRange = None \<and>
   fails init_never_ran GetConfig = None \<and> getConfig init_never_ran = None \<and>
   fails init_never_ran InitializeEnvironment = None \<and>
   fails init_never_ran (CheckDiskUsage Failure) = None \<and>
   fails init_never_ran (CreateStatusReportBase Failure) = None \<and>
   sink init_never_ran (starting_report ''finish'') \<and>
   \<not> (getOptionalInput init_never_ran ''expect-error'' = Some ''true'' \<and>
      isInTestMode init_never_ran) \<and>
   snd (autobuild_try init_never_ran autobuild_initial) = Thrown (Error config_missing_message) \<and>
   snd (analyze_try init_never_ran analyze_entered) = Thrown (Error config_missing_message) \<and>
   SetFailed (autobuild_failed_prefix @ config_missing_message)
     \<in> set (autobuild_runWrapper init_never_ran) \<and>
   SetFailed config_missing_message \<in> set (analyze_runWrapper init_never_ran) \<and>
   map status (reports (autobuild_runWrapper init_never_ran)) = [Starting, Failure] \<and>
   map status (reports (analyze_runWrapper init_never_ran)) = [Starting, Failure]"
proof -
  have h: "fails init_never_ran c = None" "sink init_never_ran r"
    "getConfig init_never_ran = None"
    "\<not> (getOptionalInput init_never_ran ''expect-error'' = Some ''true'' \<and>
        isInTestMode init_never_ran)" for c r
    by (simp_all add: init_never_ran_def calm_def getOptionalInput_def)
  from h missing_config_message [of init_never_ran] show ?thesis
    by (simp add: reports_def start_events_def starting_report_def createStatusReportBase_def
        marks_when_guarded)
qed

text \<open>
  C2. In every stage, when the starting report is built and its send returns false, \<^verbatim>\<open>run\<close>
  returns at once: nothing follows the starting report in the trace except the timeout check
  of the wrapper, so no stage work is done, no completed report is sent and the process is
  not marked failed. In Init the starting report is sent after the statements that precede
  the first \<^verbatim>\<open>try\<close> block, which therefore have run; in Finalize+Query it is sent after the
  call of \<^verbatim>\<open>initializeEnvironment\<close>.
\<close>

theorem duplicate_start_returns:
  "(fails env (CheckDiskUsage Starting) = None \<and>
    fails env (CreateStatusReportBase Starting) = None \<and>
    \<not> sink env (starting_report ''autobuild'') \<longrightarrow>
      autobuild_runWrapper env = start_events ''autobuild'' \<and>
      reports (autobuild_runWrapper env) = [starting_report ''autobuild''] \<and>
      exit_code (autobuild_runWrapper env) = 0) \<and>
   (fails env InitializeEnvironment = None \<and> fails env (CheckDiskUsage Starting) = None \<and>
    fails env (CreateStatusReportBase Starting) = None \<and>
    \<not> sink env (starting_report ''finish'') \<longrightarrow>
      analyze_runWrapper env =
        Called InitializeEnvironment # start_events ''finish'' @ [Called CheckForTimeout] \<and>
      reports (analyze_runWrapper env) = [starting_report ''finish''] \<and>
      exit_code (analyze_runWrapper env) = 0) \<and>
   (snd (init_setup env init_initial) = Normal \<and> fails env (CheckDiskUsage Starting) = None \<and>
    fails env (CreateStatusReportBase Starting) = None \<and>
    \<not> sink env (starting_report ''init'') \<longrightarrow>
      init_runWrapper env = trace (fst (init_setup env init_initial)) @
        start_events ''init'' @ [Called CheckForTimeout] \<and>
      reports (init_runWrapper env) = [starting_report ''init''] \<and>
      exit_code (init_runWrapper env) = 0)"
proof (intro conjI impI)
  note q = benign_quiet building_quiet start_events_quiet quiet_simps
  note r = reports_append reports_benign reports_Cons reports_start_events
  {
    assume a: "fails env (CheckDiskUsage Starting) = None \<and>
      fails env (CreateStatusReportBase Starting) = None \<and>
      \<not> sink env (starting_report ''autobuild'')"
    then show tr: "autobuild_runWrapper env = start_events ''autobuild''"
      by (cases env rule: autobuild_cases) simp_all
    show "reports (autobuild_runWrapper env) = [starting_report ''autobuild'']"
      by (simp add: tr r)
    show "exit_code (autobuild_runWrapper env) = 0"
      unfolding tr by (rule exit_code_quiet) (simp add: q)
  }
  {
    assume a: "fails env InitializeEnvironment = None \<and> fails env (CheckDiskUsage Starting) = None \<and>
      fails env (CreateStatusReportBase Starting) = None \<and>
      \<not> sink env (starting_report ''finish'')"
    then show tr: "analyze_runWrapper env =
        Called InitializeEnvironment # start_events ''finish'' @ [Called CheckForTimeout]"
      by (cases env rule: analyze_cases) simp_all
    show "reports (analyze_runWrapper env) = [starting_report ''finish'']"
      by (simp add: tr r)
    show "exit_code (analyze_runWrapper env) = 0"
      unfolding tr by (rule exit_code_quiet) (simp add: q)
  }
  assume a: "snd (init_setup env init_initial) = Normal \<and>
    fails env (CheckDiskUsage Starting) = None \<and>
    fails env (CreateStatusReportBase Starting) = None \<and>
    \<not> sink env (starting_report ''init'')"
  then show tr: "init_runWrapper env = trace (fst (init_setup env init_initial)) @
        start_events ''init'' @ [Called CheckForTimeout]"
    by (cases env rule: init_cases) simp_all
  from init_setup_benign [of env] show "reports (init_runWrapper env) = [starting_report ''init'']"
    by (simp add: tr r)
  from init_setup_benign [of env] show "exit_code (init_runWrapper env) = 0"
    unfolding tr by (intro exit_code_quiet) (simp add: q)
qed

theorem duplicate_start_returns_witness:
  "fails duplicate_run InitializeEnvironment = None \<and>
   fails duplicate_run (CheckDiskUsage Starting) = None \<and>
   fails duplicate_run (CreateStatusReportBase Starting) = None \<and>
   \<not> sink duplicate_run (starting_report ''autobuild'') \<and>
   \<not> sink duplicate_run (starting_report ''finish'') \<and>
   \<not> sink duplicate_run (starting_report ''init'') \<and>
   snd (init_setup duplicate_run init_initial) = Normal \<and>
   autobuild_runWrapper duplicate_run =
     [Called (CheckDiskUsage Starting), Called (CreateStatusReportBase Starting),
      Report (starting_report ''autobuild'')] \<and>
   analyze_runWrapper duplicate_run =
     [Called InitializeEnvironment, Called (CheckDiskUsage Starting),
      Called (CreateStatusReportBase Starting), Report (starting_report ''finish''),
      Called CheckForTimeout] \<and>
   init_runWrapper duplicate_run =
     [Called InitializeEnvironment, Called GetGitHubVersion, Called CheckGitHubVersionInRange,
      Called ParseRepositoryNwo, ExportVariable ''CODEQL_ACTION_JOB_RUN_UUID'' ''0000'',
      Called (CheckDiskUsage Starting), Called (CreateStatusReportBase Starting),
      Report (starting_report ''init''), Called CheckForTimeout]"
proof -
  have s: "init_setup duplicate_run init_initial =
    (init_initial\<lparr>trace := [Called InitializeEnvironment, Called GetGitHubVersion,
       Called CheckGitHubVersionInRange, Called ParseRepositoryNwo,
       ExportVariable ''CODEQL_ACTION_JOB_RUN_UUID'' ''0000'']\<rparr>, Normal)"
    by (simp add: init_setup_def duplicate_run_def calm_def require_def getRequiredInput_def
        getRequiredEnvParam_def invoke_def emit_def init_initial_def)
  have k: "\<not> sink duplicate_run r" "fails duplicate_run c = None" for r c
    by (simp_all add: duplicate_run_def calm_def)
  from s k duplicate_start_returns [of duplicate_run] show ?thesis
    by (simp add: init_initial_def start_events_def)
qed

text \<open>
  C5. In every stage the trace of the whole invocation, and with it the exit code, is the
  same for any two telemetry sinks that give the same answer to the starting report: the
  answer to a completed report is discarded. Here \<^verbatim>\<open>sendStatusReport\<close> is the function modelled
  from section 4.4 of the specification, which returns a boolean and never throws. A stage
  that succeeds with a working sink therefore exits with code 0 when the sink answers the
  starting report only.
\<close>

theorem completed_delivery_irrelevant:
  "(k (starting_report ''init'') = sink env (starting_report ''init'') \<longrightarrow>
      init_runWrapper (env\<lparr>sink := k\<rparr>) = init_runWrapper env) \<and>
   (k (starting_report ''autobuild'') = sink env (starting_report ''autobuild'') \<longrightarrow>
      autobuild_runWrapper (env\<lparr>sink := k\<rparr>) = autobuild_runWrapper env) \<and>
   (k (starting_report ''finish'') = sink env (starting_report ''finish'') \<longrightarrow>
      analyze_runWrapper (env\<lparr>sink := k\<rparr>) = analyze_runWrapper env)"
  by (simp add: init_runWrapper_def autobuild_runWrapper_def analyze_runWrapper_def
      sink_indep_runs)

theorem completed_delivery_irrelevant_witness:
  "delivers_starting_only (starting_report ''init'') = sink calm (starting_report ''init'') \<and>
   delivers_starting_only (starting_report ''autobuild'') =
     sink calm (starting_report ''autobuild'') \<and>
   delivers_starting_only (starting_report ''finish'') = sink calm (starting_report ''finish'') \<and>
   exit_code (init_runWrapper (calm\<lparr>sink := delivers_starting_only\<rparr>)) = 0 \<and>
   exit_code (autobuild_runWrapper (calm\<lparr>sink := delivers_starting_only\<rparr>)) = 0 \<and>
   exit_code (analyze_runWrapper (calm\<lparr>sink := delivers_starting_only\<rparr>)) = 0"
proof -
  have a: "delivers_starting_only (starting_report n) = sink calm (starting_report n)" for n
    by (simp add: delivers_starting_only_def calm_def starting_report_def
        createStatusReportBase_def)
  from a completed_delivery_irrelevant [of delivers_starting_only calm]
  show ?thesis by (simp add: calm_exit_codes)
qed




text \<open>
  C6, as amended. Every invocation of a stage sends at most one starting report, first, and
  at most one completed report. The starting report is sent exactly when the statements
  that precede it do not throw: the disk usage check and the construction of the report in
  every stage, \<^verbatim>\<open>initializeEnvironment\<close> in Finalize+Query, and the statements before the
  first \<^verbatim>\<open>try\<close> block in Init. Otherwise no starting report is sent.
\<close>

theorem report_discipline:
  "(if fails env (CheckDiskUsage Starting) = None \<and>
       fails env (CreateStatusReportBase Starting) = None
    then one_starting_at_most_one_completed ''autobuild'' (autobuild_runWrapper env)
    else starting_reports (autobuild_runWrapper env) = [] \<and>
         length (completed_reports (autobuild_runWrapper env)) \<le> 1) \<and>
   (if fails env InitializeEnvironment = None \<and>
       fails env (CheckDiskUsage Starting) = None \<and>
       fails env (CreateStatusReportBase Starting) = None
    then one_starting_at_most_one_completed ''finish'' (analyze_runWrapper env)
    else starting_reports (analyze_runWrapper env) = [] \<and>
         length (completed_reports (analyze_runWrapper env)) \<le> 1) \<and>
   (if snd (init_setup env init_initial) = Normal \<and>
       fails env (CheckDiskUsage Starting) = None \<and>
       fails env (CreateStatusReportBase Starting) = None
    then one_starting_at_most_one_completed ''init'' (init_runWrapper env)
    else starting_reports (init_runWrapper env) = [] \<and>
         length (completed_reports (init_runWrapper env)) \<le> 1)"
proof -
  note s = report_shapes [of env]
  have stage: "if started then one_starting_at_most_one_completed n tr
      else starting_reports tr = [] \<and> length (completed_reports tr) \<le> 1"
    if "at_most_one_of_each n tr" "(starting_reports tr \<noteq> []) = started" for n tr started
    using that one_startingI [of n tr] none_startingI [of n tr] by (cases started) auto
  from s have 1: "at_most_one_of_each ''autobuild'' (autobuild_runWrapper env)"
    and 2: "at_most_one_of_each ''finish'' (analyze_runWrapper env)"
    and 3: "at_most_one_of_each ''init'' (init_runWrapper env)"
    and 4: "(starting_reports (autobuild_runWrapper env) \<noteq> []) =
      (fails env (CheckDiskUsage Starting) = None \<and>
       fails env (CreateStatusReportBase Starting) = None)"
    and 5: "(starting_reports (analyze_runWrapper env) \<noteq> []) =
      (fails env InitializeEnvironment = None \<and>
       fails env (CheckDiskUsage Starting) = None \<and>
       fails env (CreateStatusReportBase Starting) = None)"
    and 6: "(starting_reports (init_runWrapper env) \<noteq> []) =
      (snd (init_setup env init_initial) = Normal \<and>
       fails env (CheckDiskUsage Starting) = None \<and>
       fails env (CreateStatusReportBase Starting) = None)"
    by blast+
  from stage [OF 1 4] stage [OF 2 5] stage [OF 3 6] show ?thesis by blast
qed

theorem report_discipline_witness:
  "fails calm InitializeEnvironment = None \<and> fails calm (CheckDiskUsage Starting) = None \<and>
   fails calm (CreateStatusReportBase Starting) = None \<and>
   snd (init_setup calm init_initial) = Normal \<and>
   one_starting_at_most_one_completed ''autobuild'' (autobuild_runWrapper calm) \<and>
   one_starting_at_most_one_completed ''finish'' (analyze_runWrapper calm) \<and>
   one_starting_at_most_one_completed ''init'' (init_runWrapper calm) \<and>
   fails disk_check_fails (CheckDiskUsage Starting) \<noteq> None \<and>
   starting_reports (autobuild_runWrapper disk_check_fails) = [] \<and>
   starting_reports (analyze_runWrapper disk_check_fails) = [] \<and>
   starting_reports (init_runWrapper disk_check_fails) = [] \<and>
   length (completed_reports (analyze_runWrapper disk_check_fails)) \<le> 1"
proof -
  have a: "fails calm c = None" "snd (init_setup calm init_initial) = Normal" for c
    by (simp_all add: init_setup_def calm_def require_def getRequiredInput_def
        getRequiredEnvParam_def invoke_def emit_def init_initial_def)
  have b: "fails disk_check_fails (CheckDiskUsage Starting) = Some (Error ''no space left'')"
    by (simp add: disk_check_fails_def)
  from a b report_discipline [of calm] report_discipline [of disk_check_fails]
  show ?thesis by simp
qed

text \<open>
  C6 as stated fails. In Init, when the GitHub version lookup that precedes the first
  \<^verbatim>\<open>try\<close> block throws, \<^verbatim>\<open>run\<close> ends without any report. In Finalize+Query, when the disk
  usage check made for the starting report throws, the \<^verbatim>\<open>catch\<close> block sends a completed
  report and no starting report was sent.
\<close>

theorem report_discipline_counterexample:
  "\<not> one_starting_at_most_one_completed ''init'' (init_runWrapper version_lookup_fails) \<and>
   reports (init_runWrapper version_lookup_fails) = [] \<and>
   \<not> one_starting_at_most_one_completed ''finish'' (analyze_runWrapper disk_check_fails) \<and>
   reports (analyze_runWrapper disk_check_fails) =
     [\<lparr>action_name = ''finish'', status = Failure, cause = Some ''no space left'',
       stage_fields = []\<rparr>]"
  by (simp add: init_version_lookup_fails_trace analyze_disk_check_fails_trace
      one_starting_at_most_one_completed_def reports_def starting_report_def
      createStatusReportBase_def)

text \<open>
  C4, as amended. In Finalize+Query, when the query run is made and throws a
  \<^verbatim>\<open>CodeQLAnalysisError\<close> that carries per-language statistics, the \<^verbatim>\<open>try\<close> block of \<^verbatim>\<open>run\<close>
  ends with that error and nothing that follows the query run is done for any language: no
  cleanup, no output, no upload of results, databases or TRAP caches, no wait for
  processing, no export. The process is marked failed with the message of the error unless
  \<^verbatim>\<open>expect-error\<close> is \<^verbatim>\<open>"true"\<close> in test mode. A completed report has status \<^verbatim>\<open>failure\<close>, the
  message as its cause and the statistics of the error, \<^verbatim>\<open>analyze_failure_language\<close>
  included, among its fields; exactly one is sent when the calls that build it do not throw.
\<close>

theorem analysis_error_ends_the_run:
  "fails env RunQueries = Some (CodeQLAnalysisError q m) \<and>
   Called RunQueries \<in> set (analyze_runWrapper env) \<longrightarrow>
     snd (analyze_try env analyze_entered) = Thrown (CodeQLAnalysisError q m) \<and>
     (\<forall>ev \<in> set (analyze_runWrapper env). \<not> publishes ev) \<and>
     (\<not> (getOptionalInput env ''expect-error'' = Some ''true'' \<and> isInTestMode env) \<longrightarrow>
        SetFailed m \<in> set (analyze_runWrapper env)) \<and>
     (\<forall>r \<in> set (completed_reports (analyze_runWrapper env)).
        status r = Failure \<and> cause r = Some m \<and> (\<exists>a b. stage_fields r = a @ q @ b)) \<and>
     (can_build env \<longrightarrow> (\<exists>r. completed_reports (analyze_runWrapper env) = [r]))"
proof
  let ?e = "CodeQLAnalysisError q m"
  assume a: "fails env RunQueries = Some ?e \<and> Called RunQueries \<in> set (analyze_runWrapper env)"
  then have f: "fails env RunQueries = Some ?e"
    and called: "Called RunQueries \<in> set (analyze_runWrapper env)" by simp_all
  have nb: "\<not> building (Called RunQueries)" "RunQueries \<noteq> CheckForTimeout"
    by (simp_all add: building_def)
  from halts_queries_body [OF f] nb called
  obtain es tail where tr: "analyze_runWrapper env =
       Called InitializeEnvironment # start_events ''finish'' @ es @
       analyze_marks_failed env ?e @ tail @ [Called CheckForTimeout]"
    and P: "list_all (\<lambda>ev. \<not> publishes ev) es" and es: "list_all benign es"
    and cl: "closing env (reports_analysis_error ?e) ''analyze action failed: '' tail"
    and thrown: "snd (analyze_try env analyze_entered) = Thrown ?e"
    by (rule analyze_call_fails)
  note rep = analyze_thrown_reports [OF tr es cl]
  have quiet: "\<forall>ev \<in> set (analyze_runWrapper env). \<not> publishes ev"
    unfolding tr using P closing_not_publishes [OF cl]
    by (auto simp: list_all_iff publishes_simps dest: start_events_not_publishes
        marks_not_publishes)
  from rep(2) have fields: "\<forall>r \<in> set (completed_reports (analyze_runWrapper env)).
        status r = Failure \<and> cause r = Some m \<and> (\<exists>a b. stage_fields r = a @ q @ b)"
    by (auto simp: reports_analysis_error_def reports_error_def stats_of_def is_UserError_def)
  from thrown quiet rep(3,4) fields
  show "snd (analyze_try env analyze_entered) = Thrown ?e \<and>
     (\<forall>ev \<in> set (analyze_runWrapper env). \<not> publishes ev) \<and>
     (\<not> (getOptionalInput env ''expect-error'' = Some ''true'' \<and> isInTestMode env) \<longrightarrow>
        SetFailed m \<in> set (analyze_runWrapper env)) \<and>
     (\<forall>r \<in> set (completed_reports (analyze_runWrapper env)).
        status r = Failure \<and> cause r = Some m \<and> (\<exists>a b. stage_fields r = a @ q @ b)) \<and>
     (can_build env \<longrightarrow> (\<exists>r. completed_reports (analyze_runWrapper env) = [r]))"
    by simp
qed

theorem analysis_error_ends_the_run_witness:
  "fails go_analysis_fails RunQueries =
     Some (CodeQLAnalysisError [(''analyze_failure_language'', Str ''go'')]
             ''Error running analysis for go'') \<and>
   Called RunQueries \<in> set (analyze_runWrapper go_analysis_fails) \<and>
   \<not> (getOptionalInput go_analysis_fails ''expect-error'' = Some ''true'' \<and>
      isInTestMode go_analysis_fails) \<and>
   can_build go_analysis_fails \<and>
   snd (analyze_try go_analysis_fails analyze_entered) =
     Thrown (CodeQLAnalysisError [(''analyze_failure_language'', Str ''go'')]
               ''Error running analysis for go'') \<and>
   list_all (\<lambda>ev. \<not> publishes ev) (analyze_runWrapper go_analysis_fails) \<and>
   SetFailed ''Error running analysis for go'' \<in> set (analyze_runWrapper go_analysis_fails) \<and>
   completed_reports (analyze_runWrapper go_analysis_fails) =
     [\<lparr>action_name = ''finish'', status = Failure,
       cause = Some ''Error running analysis for go'',
       stage_fields = [(''analyze_failure_language'', Str ''go''),
         (''ml_powered_javascript_queries'', Str ''false'')]\<rparr>]"
proof -
  have a: "fails go_analysis_fails RunQueries =
     Some (CodeQLAnalysisError [(''analyze_failure_language'', Str ''go'')]
             ''Error running analysis for go'')"
    "\<not> (getOptionalInput go_analysis_fails ''expect-error'' = Some ''true'' \<and>
      isInTestMode go_analysis_fails)"
    "can_build go_analysis_fails"
    by (simp_all add: go_analysis_fails_def calm_def getOptionalInput_def can_build_def)
  have b: "Called RunQueries \<in> set (analyze_runWrapper go_analysis_fails)"
    "completed_reports (analyze_runWrapper go_analysis_fails) =
     [\<lparr>action_name = ''finish'', status = Failure,
       cause = Some ''Error running analysis for go'',
       stage_fields = [(''analyze_failure_language'', Str ''go''),
         (''ml_powered_javascript_queries'', Str ''false'')]\<rparr>]"
    by (simp_all add: analyze_go_analysis_fails_trace completed_reports_def reports_def
        starting_report_def createStatusReportBase_def)
  from a b analysis_error_ends_the_run [of go_analysis_fails
      "[(''analyze_failure_language'', Str ''go'')]" "''Error running analysis for go''"]
  show ?thesis by (simp add: list_all_iff)
qed

text \<open>
  C4 as stated fails: with three configured languages and a query run that throws a
  \<^verbatim>\<open>CodeQLAnalysisError\<close> for Go, \<^verbatim>\<open>run\<close> goes straight to its \<^verbatim>\<open>catch\<close> block. No cleanup, no
  database location output for the configured languages and no upload follow.
\<close>

theorem remaining_languages_counterexample:
  "getConfig go_analysis_fails = Some three_languages \<and>
   \<not> processes_every_language three_languages (analyze_runWrapper go_analysis_fails) \<and>
   Called RunCleanup \<notin> set (analyze_runWrapper go_analysis_fails) \<and>
   Called UploadFromActions \<notin> set (analyze_runWrapper go_analysis_fails)"
proof -
  have a: "getConfig go_analysis_fails = Some three_languages"
    by (simp add: go_analysis_fails_def)
  have b: "\<not> processes_every_language three_languages (analyze_runWrapper go_analysis_fails)"
    "Called RunCleanup \<notin> set (analyze_runWrapper go_analysis_fails)"
    "Called UploadFromActions \<notin> set (analyze_runWrapper go_analysis_fails)"
    by (simp_all add: analyze_go_analysis_fails_trace processes_every_language_def)
  from a b show ?thesis by simp
qed

text \<open>
  C7, as amended. In Finalize+Query the TRAP caches are uploaded inside the main
  \<^verbatim>\<open>try\<close> block, with no handler of their own. What \<^verbatim>\<open>uploadTrapCaches\<close> returns, and how
  long it takes, changes nothing but the two fields \<^verbatim>\<open>trap_cache_upload_duration_ms\<close> and
  \<^verbatim>\<open>trap_cache_upload_size_bytes\<close> of the completed report and the call of
  \<^verbatim>\<open>getTotalCacheSize\<close> that computes the second: when that call does not throw, two runs that
  differ only in that result have the same events in the same order once these are hidden,
  and the same exit code. An error raised by \<^verbatim>\<open>uploadTrapCaches\<close> ends the \<^verbatim>\<open>try\<close> block,
  the wait for processing is not made, and the stage fails like with any other error:
  \<^verbatim>\<open>core.setFailed\<close> is called with its message (unless \<^verbatim>\<open>expect-error\<close> is \<^verbatim>\<open>"true"\<close> in test
  mode) and a completed report has status \<^verbatim>\<open>failure\<close>, or \<^verbatim>\<open>user-error\<close> for a
  \<^verbatim>\<open>UserError\<close>, with that message as its cause.
\<close>

theorem trap_cache_result_irrelevant:
  "(fails env GetTotalCacheSize = None \<longrightarrow>
      hide_trap_upload
        (analyze_runWrapper (env\<lparr>uploadTrapCaches := b, trapCacheUploadDuration := d\<rparr>)) =
      hide_trap_upload (analyze_runWrapper env) \<and>
      exit_code (analyze_runWrapper (env\<lparr>uploadTrapCaches := b, trapCacheUploadDuration := d\<rparr>))
        = exit_code (analyze_runWrapper env)) \<and>
   (fails env UploadTrapCaches = Some e \<and>
    Called UploadTrapCaches \<in> set (analyze_runWrapper env) \<longrightarrow>
      snd (analyze_try env analyze_entered) = Thrown e \<and>
      Called WaitForProcessing \<notin> set (analyze_runWrapper env) \<and>
      (\<not> (getOptionalInput env ''expect-error'' = Some ''true'' \<and> isInTestMode env) \<longrightarrow>
         SetFailed (message e) \<in> set (analyze_runWrapper env) \<and>
         exit_code (analyze_runWrapper env) = 1) \<and>
      (\<forall>r \<in> set (completed_reports (analyze_runWrapper env)).
         status r = (if is_UserError e then UserErrorStatus else Failure) \<and>
         cause r = Some (message e)) \<and>
      (can_build env \<longrightarrow> (\<exists>r. completed_reports (analyze_runWrapper env) = [r])))"
proof (intro conjI impI)
  let ?env' = "env\<lparr>uploadTrapCaches := b, trapCacheUploadDuration := d\<rparr>"
  {
    assume a: "fails env GetTotalCacheSize = None"
    from analyze_run_hide [OF a, where b = b and d = d]
    show h: "hide_trap_upload (analyze_runWrapper ?env') =
        hide_trap_upload (analyze_runWrapper env)" .
    from h exit_code_hide [of "analyze_runWrapper ?env'"] exit_code_hide [of "analyze_runWrapper env"]
    show "exit_code (analyze_runWrapper ?env') = exit_code (analyze_runWrapper env)"
      by simp
  }
  assume a: "fails env UploadTrapCaches = Some e \<and>
    Called UploadTrapCaches \<in> set (analyze_runWrapper env)"
  then have f: "fails env UploadTrapCaches = Some e"
    and called: "Called UploadTrapCaches \<in> set (analyze_runWrapper env)" by simp_all
  have nb: "\<not> building (Called UploadTrapCaches)" "UploadTrapCaches \<noteq> CheckForTimeout"
    by (simp_all add: building_def)
  from halts_trap_upload_body [OF f] nb called
  obtain es tail where tr: "analyze_runWrapper env =
       Called InitializeEnvironment # start_events ''finish'' @ es @
       analyze_marks_failed env e @ tail @ [Called CheckForTimeout]"
    and P: "list_all (\<lambda>ev. ev \<noteq> Called WaitForProcessing) es" and es: "list_all benign es"
    and cl: "closing env (reports_analysis_error e) ''analyze action failed: '' tail"
    and thrown: "snd (analyze_try env analyze_entered) = Thrown e"
    by (rule analyze_call_fails)
  note rep = analyze_thrown_reports [OF tr es cl]
  from thrown show "snd (analyze_try env analyze_entered) = Thrown e" .
  show "Called WaitForProcessing \<notin> set (analyze_runWrapper env)"
    unfolding tr using P closing_calls [OF cl, of WaitForProcessing]
      marks_events [of "Called WaitForProcessing" env e]
    by (auto simp: list_all_iff start_events_def building_def)
  from rep(2) show "\<forall>r \<in> set (completed_reports (analyze_runWrapper env)).
         status r = (if is_UserError e then UserErrorStatus else Failure) \<and>
         cause r = Some (message e)"
    by (auto simp: reports_analysis_error_def reports_error_def)
  {
    assume "can_build env"
    with rep(3) show "\<exists>r. completed_reports (analyze_runWrapper env) = [r]" by simp
  }
  assume "\<not> (getOptionalInput env ''expect-error'' = Some ''true'' \<and> isInTestMode env)"
  with rep(4) show "SetFailed (message e) \<in> set (analyze_runWrapper env)"
    "exit_code (analyze_runWrapper env) = 1" by simp_all
qed

theorem trap_cache_result_irrelevant_witness:
  "fails calm GetTotalCacheSize = None \<and>
   hide_trap_upload (analyze_runWrapper trap_upload_succeeds) =
     hide_trap_upload (analyze_runWrapper calm) \<and>
   exit_code (analyze_runWrapper trap_upload_succeeds) = 0 \<and>
   fails trap_upload_fails UploadTrapCaches = Some (Error ''cache service down'') \<and>
   Called UploadTrapCaches \<in> set (analyze_runWrapper trap_upload_fails) \<and>
   \<not> (getOptionalInput trap_upload_fails ''expect-error'' = Some ''true'' \<and>
      isInTestMode trap_upload_fails) \<and>
   can_build trap_upload_fails \<and>
   snd (analyze_try trap_upload_fails analyze_entered) = Thrown (Error ''cache service down'') \<and>
   Called WaitForProcessing \<notin> set (analyze_runWrapper trap_upload_fails) \<and>
   SetFailed ''cache service down'' \<in> set (analyze_runWrapper trap_upload_fails) \<and>
   exit_code (analyze_runWrapper trap_upload_fails) = 1 \<and>
   map status (completed_reports (analyze_runWrapper trap_upload_fails)) = [Failure]"
proof -
  have a: "fails calm GetTotalCacheSize = None"
    "fails trap_upload_fails UploadTrapCaches = Some (Error ''cache service down'')"
    "\<not> (getOptionalInput trap_upload_fails ''expect-error'' = Some ''true'' \<and>
      isInTestMode trap_upload_fails)"
    "can_build trap_upload_fails"
    by (simp_all add: trap_upload_fails_def calm_def getOptionalInput_def can_build_def)
  have b: "Called UploadTrapCaches \<in> set (analyze_runWrapper trap_upload_fails)"
    "map status (completed_reports (analyze_runWrapper trap_upload_fails)) = [Failure]"
    by (simp_all add: analyze_trap_upload_fails_trace completed_reports_def reports_def
        starting_report_def createStatusReportBase_def)
  have c: "calm\<lparr>uploadTrapCaches := True, trapCacheUploadDuration := 7\<rparr> = trap_upload_succeeds"
    by (simp add: trap_upload_succeeds_def)
  from a b
    trap_cache_result_irrelevant [where env = calm and b = True and d = 7 and e = "Error ''x''"]
    trap_cache_result_irrelevant [where env = trap_upload_fails and b = False and d = 0
      and e = "Error ''cache service down''"]
  show ?thesis by (simp add: c calm_exit_codes)
qed

text \<open>
  The property as C7 states it fails. When \<^verbatim>\<open>uploadTrapCaches\<close> raises in an otherwise
  successful run, the process is marked failed and the completed report has status
  \<^verbatim>\<open>failure\<close>; the same run with the upload skipped exits with code 0 and reports
  \<^verbatim>\<open>success\<close>.
\<close>

theorem trap_cache_failure_counterexample:
  "exit_code (analyze_runWrapper trap_upload_fails) = 1 \<and>
   map status (completed_reports (analyze_runWrapper trap_upload_fails)) = [Failure] \<and>
   exit_code (analyze_runWrapper calm) = 0 \<and>
   map status (completed_reports (analyze_runWrapper calm)) = [Success]"
  by (simp add: analyze_trap_upload_fails_trace analyze_calm_trace completed_reports_def
      reports_def starting_report_def createStatusReportBase_def exit_code_def
      is_SetFailed_def)

text \<open>
  C8, as amended. In Finalize+Query the Go autobuilder is invoked if and only if the four
  conditions hold (Go is among the configured languages, the variable
  \<^verbatim>\<open>CODEQL_ACTION_DID_AUTOBUILD_GOLANG\<close> is not \<^verbatim>\<open>"true"\<close>, the Go database is not finalized, no
  file under the directory \<^verbatim>\<open>trap/go\<close> of the Go database has a name that ends with one of the
  six TRAP extensions) and the listing of that directory does not throw. When a condition
  fails, \<^verbatim>\<open>runAutobuildIfLegacyGoWorkflow\<close> makes no call at all. When the first three
  conditions hold, the path exists and its listing throws, the function throws that error
  without any call.
\<close>

theorem go_autobuild_iff:
  "(Called (RunAutobuild ''go'') \<in> set (emitted (runAutobuildIfLegacyGoWorkflow env cfg) s)
      \<longleftrightarrow> legacy_go_conditions env cfg \<and> go_trap_listing_error env cfg = None) \<and>
   (\<not> legacy_go_conditions env cfg \<longrightarrow>
      (\<forall>c. Called c \<notin> set (emitted (runAutobuildIfLegacyGoWorkflow env cfg) s))) \<and>
   (legacy_go_conditions env cfg \<and> go_trap_listing_error env cfg = Some e \<longrightarrow>
      runAutobuildIfLegacyGoWorkflow env cfg s = (s, Thrown e))"
  apply (rule sum.exhaust [of "readdirSync env (go_trap_directory env cfg)"])
   apply (simp_all add: runAutobuildIfLegacyGoWorkflow_def emitted_def)
   apply (simp_all add: doesGoExtractionOutputExist_def go_trap_directory_def Let_def)
   apply (simp_all add: with_required_def skip_def emit_def invoke_def)
   apply (simp_all add: DID_AUTOBUILD_GOLANG_def)
   apply (simp_all add: go_trap_listing_error_def go_trap_directory_def)
   apply (simp_all add: legacy_go_conditions_def)
   apply (simp_all add: go_trap_files_def go_trap_directory_def)
   apply (auto simp add: list_ex_iff)
  done

theorem go_autobuild_iff_witness:
  "legacy_go_conditions calm go_only \<and> go_trap_listing_error calm go_only = None \<and>
   emitted (runAutobuildIfLegacyGoWorkflow calm go_only) \<lparr>trace = [], config = None\<rparr>
     = [Called (RunAutobuild ''go'')] \<and>
   \<not> legacy_go_conditions manual_go_build go_only \<and>
   emitted (runAutobuildIfLegacyGoWorkflow manual_go_build go_only) \<lparr>trace = [], config = None\<rparr>
     = [] \<and>
   legacy_go_conditions trap_path_is_a_file go_only \<and>
   go_trap_listing_error trap_path_is_a_file go_only =
     Some (Error ''ENOTDIR: not a directory, scandir /db/go/trap/go'') \<and>
   runAutobuildIfLegacyGoWorkflow trap_path_is_a_file go_only \<lparr>trace = [], config = None\<rparr> =
     (\<lparr>trace = [], config = None\<rparr>,
      Thrown (Error ''ENOTDIR: not a directory, scandir /db/go/trap/go''))"
proof -
  have a: "legacy_go_conditions calm go_only" "go_trap_listing_error calm go_only = None"
    "\<not> legacy_go_conditions manual_go_build go_only"
    "legacy_go_conditions trap_path_is_a_file go_only"
    "go_trap_listing_error trap_path_is_a_file go_only =
       Some (Error ''ENOTDIR: not a directory, scandir /db/go/trap/go'')"
    by (simp_all add: legacy_go_conditions_def go_trap_listing_error_def go_trap_files_def
        go_trap_directory_def calm_def manual_go_build_def trap_path_is_a_file_def go_only_def
        trap_extensions_def endsWith_def)
  have b: "emitted (runAutobuildIfLegacyGoWorkflow calm go_only) \<lparr>trace = [], config = None\<rparr>
     = [Called (RunAutobuild ''go'')]"
    "emitted (runAutobuildIfLegacyGoWorkflow manual_go_build go_only)
       \<lparr>trace = [], config = None\<rparr> = []"
    by (simp_all add: runAutobuildIfLegacyGoWorkflow_def doesGoExtractionOutputExist_def
        DID_AUTOBUILD_GOLANG_def with_required_def emitted_def skip_def emit_def invoke_def
        Let_def calm_def manual_go_build_def go_only_def trap_extensions_def endsWith_def)
  from a b
    go_autobuild_iff [of calm go_only "\<lparr>trace = [], config = None\<rparr>" "Error ''x''"]
    go_autobuild_iff [of manual_go_build go_only "\<lparr>trace = [], config = None\<rparr>" "Error ''x''"]
    go_autobuild_iff [of trap_path_is_a_file go_only "\<lparr>trace = [], config = None\<rparr>"
      "Error ''ENOTDIR: not a directory, scandir /db/go/trap/go''"]
  show ?thesis by simp
qed

text \<open>
  C8 as stated fails: when the TRAP path of the Go database exists and is a regular file,
  the four conditions hold (no TRAP file exists under that path), and the Go autobuilder is
  not invoked, because \<^verbatim>\<open>fs.readdirSync\<close> throws and the exception leaves
  \<^verbatim>\<open>runAutobuildIfLegacyGoWorkflow\<close>.
\<close>

theorem go_autobuild_counterexample:
  "legacy_go_conditions trap_path_is_a_file go_only \<and>
   Called (RunAutobuild ''go'') \<notin>
     set (emitted (runAutobuildIfLegacyGoWorkflow trap_path_is_a_file go_only)
            \<lparr>trace = [], config = None\<rparr>) \<and>
   snd (runAutobuildIfLegacyGoWorkflow trap_path_is_a_file go_only \<lparr>trace = [], config = None\<rparr>)
     = Thrown (Error ''ENOTDIR: not a directory, scandir /db/go/trap/go'')"
proof -
  have a: "legacy_go_conditions trap_path_is_a_file go_only"
    by (simp add: legacy_go_conditions_def go_trap_files_def
        go_trap_directory_def calm_def trap_path_is_a_file_def go_only_def)
  have b: "runAutobuildIfLegacyGoWorkflow trap_path_is_a_file go_only
      \<lparr>trace = [], config = None\<rparr> =
     (\<lparr>trace = [], config = None\<rparr>,
      Thrown (Error ''ENOTDIR: not a directory, scandir /db/go/trap/go''))"
    by (simp add: runAutobuildIfLegacyGoWorkflow_def doesGoExtractionOutputExist_def
        DID_AUTOBUILD_GOLANG_def with_required_def calm_def trap_path_is_a_file_def
        go_only_def Let_def)
  from a b show ?thesis by (simp add: emitted_def)
qed

text \<open>
  C9, as amended. In Finalize+Query, when \<^verbatim>\<open>expect-error\<close> is not \<^verbatim>\<open>"false"\<close> outside test
  mode, no database is finalized and no query is run: the only calls of the run are those
  that build reports, the load of the Config and the timeout check of the wrapper. When
  moreover the starting report is built and accepted and a Config is loaded, the \<^verbatim>\<open>try\<close> block
  throws the \<^verbatim>\<open>UserError\<close>, the process is marked failed with its message, and the completed
  report, which ends the run when the calls that build it do not throw, has status
  \<^verbatim>\<open>user-error\<close>. Conversely, when \<^verbatim>\<open>expect-error\<close> is \<^verbatim>\<open>"true"\<close> in test mode and the \<^verbatim>\<open>try\<close> block
  throws, a completed report carries the error; when it is sent the exit code is 0, and it is
  sent whenever the calls that build it do not throw.
\<close>

theorem expect_error_guard:
  "(hasBadExpectErrorInput env \<longrightarrow>
      (\<forall>c. Called c \<in> set (analyze_runWrapper env) \<longrightarrow>
         building (Called c) \<or> c = GetConfig \<or> c = CheckForTimeout)) \<and>
   (hasBadExpectErrorInput env \<and> fails env InitializeEnvironment = None \<and>
    fails env (CheckDiskUsage Starting) = None \<and>
    fails env (CreateStatusReportBase Starting) = None \<and>
    sink env (starting_report ''finish'') \<and>
    fails env GetConfig = None \<and> getConfig env = Some cfg \<longrightarrow>
      snd (analyze_try env analyze_entered) = Thrown (UserError expect_error_message) \<and>
      SetFailed expect_error_message \<in> set (analyze_runWrapper env) \<and>
      exit_code (analyze_runWrapper env) = 1 \<and>
      (\<forall>r \<in> set (completed_reports (analyze_runWrapper env)).
         status r = UserErrorStatus \<and> cause r = Some expect_error_message) \<and>
      (fails env (CheckDiskUsage UserErrorStatus) = None \<and>
       fails env (CreateStatusReportBase UserErrorStatus) = None \<and>
       fails env GetMlPoweredJsQueriesStatus = None \<longrightarrow>
         analyze_runWrapper env =
           Called InitializeEnvironment # start_events ''finish'' @
           [Called GetConfig, SetFailed expect_error_message,
            Called (CheckDiskUsage UserErrorStatus),
            Called (CreateStatusReportBase UserErrorStatus),
            Called GetMlPoweredJsQueriesStatus,
            Report \<lparr>action_name = ''finish'', status = UserErrorStatus,
              cause = Some expect_error_message,
              stage_fields =
                [(''ml_powered_javascript_queries'',
                  Str (getMlPoweredJsQueriesStatus env cfg))]\<rparr>,
            Called CheckForTimeout])) \<and>
   (getOptionalInput env ''expect-error'' = Some ''true'' \<and> isInTestMode env \<and>
    snd (analyze_try env analyze_entered) = Thrown e \<longrightarrow>
      (\<forall>r \<in> set (completed_reports (analyze_runWrapper env)).
         status r = (if is_UserError e then UserErrorStatus else Failure) \<and>
         cause r = Some (message e)) \<and>
      (completed_reports (analyze_runWrapper env) \<noteq> [] \<longrightarrow>
         exit_code (analyze_runWrapper env) = 0) \<and>
      (can_build env \<longrightarrow>
         (\<exists>r. completed_reports (analyze_runWrapper env) = [r]) \<and>
         exit_code (analyze_runWrapper env) = 0))"
proof (intro conjI impI allI)
  fix c
  assume bad: "hasBadExpectErrorInput env" and c: "Called c \<in> set (analyze_runWrapper env)"
  show "building (Called c) \<or> c = GetConfig \<or> c = CheckForTimeout"
  proof (cases env rule: analyze_cases)
    case (env_threw x)
    with c show ?thesis by (auto simp: building_simps)
  next
    case (not_built x es tail)
    with c closing_calls [OF not_built(5), of c] marks_events [of "Called c" env x]
    show ?thesis by (auto simp: building_simps list_all_iff)
  next
    case rejected
    with c start_events_calls [of c "''finish''"] show ?thesis
      by (auto simp: building_simps)
  next
    case (threw x s' es tail)
    from analyze_body_bad_input [OF bad, of analyze_started] threw(5,6)
    have "es = [Called GetConfig]"
      by (auto simp: trace_analyze_started split: option.splits)
    with c threw closing_calls [OF threw(9), of c] marks_events [of "Called c" env x]
      start_events_calls [of c "''finish''"]
    show ?thesis by (auto simp: building_simps)
  next
    case (finished s' es tail)
    with bad show ?thesis by simp
  qed
next
  assume a: "hasBadExpectErrorInput env \<and> fails env InitializeEnvironment = None \<and>
    fails env (CheckDiskUsage Starting) = None \<and>
    fails env (CreateStatusReportBase Starting) = None \<and>
    sink env (starting_report ''finish'') \<and>
    fails env GetConfig = None \<and> getConfig env = Some cfg"
  let ?e = "UserError expect_error_message"
  from a have bad: "hasBadExpectErrorInput env" by simp
  from a analyze_body_bad_input [OF bad, of analyze_started]
  have body: "steps (analyze_body env) analyze_started =
      (analyze_started\<lparr>trace := trace analyze_started @ [Called GetConfig],
         config := Some cfg\<rparr>, Thrown ?e)"
    by simp
  from bad have g: "\<not> (getOptionalInput env ''expect-error'' = Some ''true'' \<and> isInTestMode env)"
    by (simp add: hasBadExpectErrorInput_def)
  have shape: "\<exists>tail. analyze_runWrapper env =
       Called InitializeEnvironment # start_events ''finish'' @ [Called GetConfig] @
       analyze_marks_failed env ?e @ tail @ [Called CheckForTimeout] \<and>
     closing env (reports_analysis_error ?e) ''analyze action failed: '' tail \<and>
     snd (analyze_try env analyze_entered) = Thrown ?e"
  proof (cases env rule: analyze_cases)
    case (threw x s' es tail)
    with body have "x = ?e" "es = [Called GetConfig]"
      by (auto simp: trace_analyze_started)
    with threw show ?thesis by (intro exI [of _ tail]) simp
  qed (use a body in auto)
  then obtain tail where tr: "analyze_runWrapper env =
       Called InitializeEnvironment # start_events ''finish'' @ [Called GetConfig] @
       analyze_marks_failed env ?e @ tail @ [Called CheckForTimeout]"
    and cl: "closing env (reports_analysis_error ?e) ''analyze action failed: '' tail"
    and thrown: "snd (analyze_try env analyze_entered) = Thrown ?e" by blast
  have es: "list_all benign [Called GetConfig]"
    by (simp add: benign_def is_SetFailed_def is_Report_def)
  note rep = analyze_thrown_reports [OF tr es cl]
  from thrown show "snd (analyze_try env analyze_entered) = Thrown ?e" .
  from rep(4) g show "SetFailed expect_error_message \<in> set (analyze_runWrapper env)"
    "exit_code (analyze_runWrapper env) = 1" by simp_all
  from rep(2) show "\<forall>r \<in> set (completed_reports (analyze_runWrapper env)).
         status r = UserErrorStatus \<and> cause r = Some expect_error_message"
    by (auto simp: reports_analysis_error_def reports_error_def is_UserError_def)
  assume b: "fails env (CheckDiskUsage UserErrorStatus) = None \<and>
       fails env (CreateStatusReportBase UserErrorStatus) = None \<and>
       fails env GetMlPoweredJsQueriesStatus = None"
  have run: "analyze_run env analyze_initial =
      try_catch (analyze_try env) (analyze_catch env) (analyze_completed env) analyze_entered"
    using a by (simp add: analyze_run_def invoke_def analyze_entered_def analyze_initial_def
        split: prod.splits ctl.splits)
  from a have t: "analyze_try env analyze_entered =
    (analyze_initial\<lparr>trace := Called InitializeEnvironment # start_events ''finish'' @
        [Called GetConfig], config := Some cfg\<rparr>, Thrown ?e)"
    by (simp add: analyze_try_def analyze_body_def analyze_entered_def analyze_initial_def
        start_events_def starting_report_def step_defs)
  have w: "analyze_runWrapper env =
      settle ''analyze action failed: ''
        (analyze_catch env ?e
           (analyze_initial\<lparr>trace := Called InitializeEnvironment # start_events ''finish'' @
              [Called GetConfig], config := Some cfg\<rparr>)) @ [Called CheckForTimeout]"
    by (simp add: analyze_wrapper_settle run settle_try_catch t)
  from b bad show "analyze_runWrapper env =
           Called InitializeEnvironment # start_events ''finish'' @
           [Called GetConfig, SetFailed expect_error_message,
            Called (CheckDiskUsage UserErrorStatus),
            Called (CreateStatusReportBase UserErrorStatus),
            Called GetMlPoweredJsQueriesStatus,
            Report \<lparr>action_name = ''finish'', status = UserErrorStatus,
              cause = Some expect_error_message,
              stage_fields =
                [(''ml_powered_javascript_queries'',
                  Str (getMlPoweredJsQueriesStatus env cfg))]\<rparr>,
            Called CheckForTimeout]"
    unfolding w
    by (simp add: analyze_catch_def settle_def analyze_initial_def
        analyze_sendStatusReport_def step_defs)
next
  assume a: "getOptionalInput env ''expect-error'' = Some ''true'' \<and> isInTestMode env \<and>
    snd (analyze_try env analyze_entered) = Thrown e"
  have all: "(\<forall>r \<in> set (completed_reports (analyze_runWrapper env)).
         status r = (if is_UserError e then UserErrorStatus else Failure) \<and>
         cause r = Some (message e)) \<and>
      (completed_reports (analyze_runWrapper env) \<noteq> [] \<longrightarrow>
         exit_code (analyze_runWrapper env) = 0) \<and>
      (can_build env \<longrightarrow>
         (\<exists>r. completed_reports (analyze_runWrapper env) = [r]) \<and>
         exit_code (analyze_runWrapper env) = 0)"
  proof (cases env rule: analyze_cases)
    case (env_threw x)
    then show ?thesis
      by (simp add: completed_reports_def reports_def can_build_def)
  next
    case (not_built x es tail)
    with a have x: "x = e" by simp
    from not_built(2) have nb: "\<not> can_build env" by (auto simp: can_build_def)
    have cl: "closing env (reports_analysis_error e) ''analyze action failed: '' tail"
      using not_built(5) x by simp
    have pre: "completed_reports (analyze_runWrapper env) = completed_reports tail"
      unfolding not_built(4)
      by (simp add: completed_append completed_simps completed_marks
          completed_quiet [OF building_quiet [OF not_built(3)]])
    have ns: "status r \<noteq> Starting" if "reports_analysis_error e r" for r
      using that report_kinds(2) [of e r] by simp
    note cc = closing_completed [OF cl ns]
    from a have m: "analyze_marks_failed env x = []"
      by (simp add: analyze_marks_failed_def hasBadExpectErrorInput_def)
    have ex: "exit_code (analyze_runWrapper env) = 0"
      if "completed_reports (analyze_runWrapper env) \<noteq> []"
    proof -
      from cc that have "\<not> list_ex is_SetFailed tail" unfolding pre by blast
      with building_quiet [OF not_built(3)] show ?thesis
        unfolding not_built(4) m
        by (auto simp: exit_code_def is_SetFailed_def list_ex_iff list_all_iff quiet_def
            split: event.splits)
    qed
    from cc nb ex show ?thesis
      unfolding pre by (auto simp: reports_analysis_error_def reports_error_def)
  next
    case rejected
    from analyze_try_rejected [OF rejected(2,3,4), of analyze_entered] a
    show ?thesis by simp
  next
    case (threw x s' es tail)
    with a have x: "x = e" by simp
    note rep = analyze_thrown_reports [OF threw(8) [unfolded x] threw(7) threw(9) [unfolded x]]
    from rep(2) have 1: "\<forall>r \<in> set (completed_reports (analyze_runWrapper env)).
         status r = (if is_UserError e then UserErrorStatus else Failure) \<and>
         cause r = Some (message e)"
      by (auto simp: reports_analysis_error_def reports_error_def)
    from rep(5) a have 2: "completed_reports (analyze_runWrapper env) \<noteq> [] \<longrightarrow>
         exit_code (analyze_runWrapper env) = 0" by simp
    from rep(3) 2 have 3: "can_build env \<longrightarrow>
         (\<exists>r. completed_reports (analyze_runWrapper env) = [r]) \<and>
         exit_code (analyze_runWrapper env) = 0" by auto
    from 1 2 3 show ?thesis by blast
  next
    case (finished s' es tail)
    with a show ?thesis by simp
  qed
  from all show "\<forall>r \<in> set (completed_reports (analyze_runWrapper env)).
         status r = (if is_UserError e then UserErrorStatus else Failure) \<and>
         cause r = Some (message e)" by blast
  from all show "completed_reports (analyze_runWrapper env) \<noteq> [] \<Longrightarrow>
         exit_code (analyze_runWrapper env) = 0" by blast
  from all show "can_build env \<Longrightarrow> \<exists>r. completed_reports (analyze_runWrapper env) = [r]"
    by blast
  from all show "can_build env \<Longrightarrow> exit_code (analyze_runWrapper env) = 0" by blast
qed

theorem expect_error_guard_witness:
  "hasBadExpectErrorInput expect_error_outside_tests \<and>
   fails expect_error_outside_tests InitializeEnvironment = None \<and>
   fails expect_error_outside_tests (CheckDiskUsage Starting) = None \<and>
   fails expect_error_outside_tests (CreateStatusReportBase Starting) = None \<and>
   sink expect_error_outside_tests (starting_report ''finish'') \<and>
   fails expect_error_outside_tests GetConfig = None \<and>
   getConfig expect_error_outside_tests = Some go_only \<and>
   fails expect_error_outside_tests (CheckDiskUsage UserErrorStatus) = None \<and>
   fails expect_error_outside_tests (CreateStatusReportBase UserErrorStatus) = None \<and>
   fails expect_error_outside_tests GetMlPoweredJsQueriesStatus = None \<and>
   Called GetConfig \<in> set (analyze_runWrapper expect_error_outside_tests) \<and>
   snd (analyze_try expect_error_outside_tests analyze_entered) =
     Thrown (UserError expect_error_message) \<and>
   exit_code (analyze_runWrapper expect_error_outside_tests) = 1 \<and>
   map status (completed_reports (analyze_runWrapper expect_error_outside_tests)) =
     [UserErrorStatus] \<and>
   getOptionalInput expected_failure ''expect-error'' = Some ''true'' \<and>
   isInTestMode expected_failure \<and>
   snd (analyze_try expected_failure analyze_entered) = Thrown (Error ''finalize failed'') \<and>
   can_build expected_failure \<and>
   completed_reports (analyze_runWrapper expected_failure) =
     [\<lparr>action_name = ''finish'', status = Failure, cause = Some ''finalize failed'',
       stage_fields = [(''ml_powered_javascript_queries'', Str ''false'')]\<rparr>] \<and>
   exit_code (analyze_runWrapper expected_failure) = 0"
proof -
  have a: "hasBadExpectErrorInput expect_error_outside_tests"
    "fails expect_error_outside_tests c = None"
    "sink expect_error_outside_tests r"
    "getConfig expect_error_outside_tests = Some go_only" for c r
    by (simp_all add: hasBadExpectErrorInput_def getOptionalInput_def
        expect_error_outside_tests_def calm_def go_only_def)
  have b: "getOptionalInput expected_failure ''expect-error'' = Some ''true''"
    "isInTestMode expected_failure" "can_build expected_failure"
    by (simp_all add: getOptionalInput_def expected_failure_def calm_def can_build_def)
  have c: "snd (analyze_try expected_failure analyze_entered) = Thrown (Error ''finalize failed'')"
    by (simp add: analyze_defs analyze_entered_def expected_failure_def calm_def step_defs)
  have d: "Called GetConfig \<in> set (analyze_runWrapper expect_error_outside_tests)"
    "map status (completed_reports (analyze_runWrapper expect_error_outside_tests)) =
       [UserErrorStatus]"
    "completed_reports (analyze_runWrapper expected_failure) =
     [\<lparr>action_name = ''finish'', status = Failure, cause = Some ''finalize failed'',
       stage_fields = [(''ml_powered_javascript_queries'', Str ''false'')]\<rparr>]"
    by (simp_all add: analyze_expect_error_outside_tests_trace analyze_expected_failure_trace
        completed_reports_def reports_def starting_report_def createStatusReportBase_def)
  from a expect_error_guard [of expect_error_outside_tests go_only "Error ''x''"]
  have e: "snd (analyze_try expect_error_outside_tests analyze_entered) =
      Thrown (UserError expect_error_message)"
    "exit_code (analyze_runWrapper expect_error_outside_tests) = 1"
    by blast+
  from b c expect_error_guard [of expected_failure go_only "Error ''finalize failed''"]
  have f: "exit_code (analyze_runWrapper expected_failure) = 0"
    by blast
  from a b c d e f show ?thesis by simp
qed

text \<open>
  C9 as stated fails: outside test mode, with \<^verbatim>\<open>expect-error: true\<close> in a job whose Init stage
  never ran, the load of the Config comes first and the stage throws the plain \<^verbatim>\<open>Error\<close> of the
  missing Config, not a \<^verbatim>\<open>UserError\<close>; the completed report has status \<^verbatim>\<open>failure\<close>.
\<close>

theorem expect_error_guard_counterexample:
  "hasBadExpectErrorInput bad_input_without_config \<and>
   snd (analyze_try bad_input_without_config analyze_entered) =
     Thrown (Error config_missing_message) \<and>
   \<not> is_UserError (Error config_missing_message) \<and>
   map status (completed_reports (analyze_runWrapper bad_input_without_config)) = [Failure]"
proof -
  have a: "hasBadExpectErrorInput bad_input_without_config"
    by (simp add: hasBadExpectErrorInput_def getOptionalInput_def bad_input_without_config_def
        expect_error_outside_tests_def calm_def)
  have b: "snd (analyze_try bad_input_without_config analyze_entered) =
     Thrown (Error config_missing_message)"
    by (simp add: analyze_defs analyze_entered_def bad_input_without_config_def
        expect_error_outside_tests_def calm_def step_defs)
  have c: "map status (completed_reports (analyze_runWrapper bad_input_without_config)) =
      [Failure]"
    by (simp add: analyze_bad_input_without_config_trace completed_reports_def reports_def
        starting_report_def createStatusReportBase_def)
  from a b c show ?thesis by (simp add: is_UserError_def)
qed

end
